(* ===== verification/Prelude.thy ===== *)
theory Prelude
  imports Main "HOL-Library.Sublist"
begin

text \<open>
  What the theories of the development share: the types that name Go's values, the error-or-value
  type of fallible operations, the collections of simplification rules, and list lemmas that several
  components use.

  A Go \<^verbatim>\<open>string\<close> and a Go \<^verbatim>\<open>[]byte\<close> are both sequences of bytes; HOL's \<^typ>\<open>char\<close> is an 8-bit
  value, so both are \<^typ>\<open>string\<close> here and the conversions between them are the identity.
  Go's \<^verbatim>\<open>time.Time\<close> and \<^verbatim>\<open>time.Duration\<close> are integers counting nanoseconds.
\<close>

section \<open>Names for Go's types\<close>

type_synonym bytes = string

type_synonym go_time = int
  \<comment> \<open>an instant, in nanoseconds since the Unix epoch\<close>

type_synonym duration = int
  \<comment> \<open>a length of time, in nanoseconds\<close>

abbreviation nanos_per_second :: int where
  "nanos_per_second \<equiv> 1000000000"

section \<open>Collections of facts\<close>

named_theorems go_string_simps "string functions applied to strings of a known shape"
named_theorems go_num_simps "printing and reading back of numbers"

section \<open>Errors as values\<close>

text \<open>A Go function that returns \<^verbatim>\<open>(T, error)\<close> is modelled by a sum: \<^term>\<open>Inl e\<close> is the error.\<close>

fun is_ok :: "'e + 'a \<Rightarrow> bool" where
  "is_ok (Inl _) = False"
| "is_ok (Inr _) = True"

lemma is_ok_iff: "is_ok r \<longleftrightarrow> (\<exists>x. r = Inr x)"
  by (cases r) auto

lemma not_is_ok_iff: "\<not> is_ok r \<longleftrightarrow> (\<exists>e. r = Inl e)"
  by (cases r) auto

section \<open>Lists\<close>

lemma butlast_snoc_cases:
  obtains "xs = []" | ys y where "xs = ys @ [y]"
  by (cases xs rule: rev_cases) auto

lemma list_all_set_mono: "list_all P xs \<Longrightarrow> (\<And>x. P x \<Longrightarrow> Q x) \<Longrightarrow> list_all Q xs"
  by (auto simp: list_all_iff)

lemma drop_take_nth:
  "i < length xs \<Longrightarrow> n \<le> i \<Longrightarrow> i < n + m \<Longrightarrow> xs ! i \<in> set (take m (drop n xs))"
  by (auto simp: in_set_conv_nth intro: exI [of _ "i - n"])

lemma in_take_dropD:
  assumes "x \<in> set (take m (drop n xs))"
  shows "\<exists>i. n \<le> i \<and> i < n + m \<and> i < length xs \<and> xs ! i = x"
proof -
  from assms obtain j where "j < m" "j < length xs - n" "xs ! (n + j) = x"
    by (auto simp: in_set_conv_nth)
  then show ?thesis by (intro exI [of _ "n + j"]) auto
qed

end
