(* ===== verification/Content.thy ===== *)
theory Content
  imports Prelude "HOL-Library.Word"
begin

text \<open>
  \<^verbatim>\<open>internal/content/content.go\<close> and \<^verbatim>\<open>errors.go\<close>: Posts, Pages, who may see them, and the errors a
  caller can act on. A UUID is its 128 bits; \<^verbatim>\<open>uuid.NewV7\<close> (gofrs/uuid) is a parameter.
\<close>

section \<open>Writing\<close>

type_synonym uuid = "128 word"

abbreviation uuid_nil :: uuid where
  "uuid_nil \<equiv> 0"

datatype audience = Public | Author

record post =
  post_id :: uuid
  post_slug :: string
  post_title :: string
  post_body :: string
  post_published_at :: "go_time option"
  post_created_at :: go_time
  post_updated_at :: go_time

record page =
  page_id :: uuid
  page_slug :: string
  page_title :: string
  page_body :: string
  page_published_at :: "go_time option"
  page_created_at :: go_time
  page_updated_at :: go_time

text \<open>\<^verbatim>\<open>TableName\<close> of the two types, which does not look at its receiver\<close>

definition post_table_name :: string where
  "post_table_name = ''posts''"

definition page_table_name :: string where
  "page_table_name = ''pages''"

lemma table_names_differ [simp]:
  "post_table_name \<noteq> page_table_name" "page_table_name \<noteq> post_table_name"
  by (simp_all add: post_table_name_def page_table_name_def)

definition post_is_published :: "post \<Rightarrow> go_time \<Rightarrow> bool" where
  "post_is_published p now = (case post_published_at p of None \<Rightarrow> False | Some t \<Rightarrow> \<not> now < t)"

definition post_is_draft :: "post \<Rightarrow> bool" where
  "post_is_draft p \<longleftrightarrow> post_published_at p = None"

definition page_is_published :: "page \<Rightarrow> go_time \<Rightarrow> bool" where
  "page_is_published p now = (case page_published_at p of None \<Rightarrow> False | Some t \<Rightarrow> \<not> now < t)"

definition page_is_draft :: "page \<Rightarrow> bool" where
  "page_is_draft p \<longleftrightarrow> page_published_at p = None"

section \<open>Errors\<close>

text \<open>
  A Go error is a chain: \<^verbatim>\<open>fmt.Errorf\<close> with \<open>%w\<close> puts a text in front of the error it wraps. The text is
  kept as the format and its arguments. The leaves are \<^verbatim>\<open>sql.ErrNoRows\<close>, a
  \<^verbatim>\<open>*pgconn.PgError\<close> with its \<^verbatim>\<open>Code\<close> and \<^verbatim>\<open>ConstraintName\<close>, this package's own errors, and any
  other error.
\<close>

datatype fmt_arg = StrArg string | UuidArg uuid

datatype go_error =
    ErrNoRows
  | PgError string string
  | OtherError string
  | ErrNotFound
  | ErrSlugTaken
  | ErrSlugInvalid
  | ErrTitleRequired
  | Errorf string "fmt_arg list" go_error

fun error_chain :: "go_error \<Rightarrow> go_error list" where
  "error_chain (Errorf f as e) = Errorf f as e # error_chain e"
| "error_chain e = [e]"

text \<open>\<^verbatim>\<open>errors.Is\<close> for a leaf, and \<^verbatim>\<open>errors.As\<close> for \<^verbatim>\<open>*pgconn.PgError\<close>.\<close>

definition errors_is :: "go_error \<Rightarrow> go_error \<Rightarrow> bool" where
  "errors_is e target \<longleftrightarrow> target \<in> set (error_chain e)"

fun errors_as_pg :: "go_error \<Rightarrow> (string \<times> string) option" where
  "errors_as_pg (PgError code name) = Some (code, name)"
| "errors_as_pg (Errorf f as e) = errors_as_pg e"
| "errors_as_pg _ = None"

definition pgUniqueViolation :: string where
  "pgUniqueViolation = ''23505''"

definition pgCheckViolation :: string where
  "pgCheckViolation = ''23514''"

definition domain_error :: "go_error \<Rightarrow> go_error option" where
  "domain_error err =
     (case errors_as_pg err of
        None \<Rightarrow> None
      | Some (code, name) \<Rightarrow>
          if code = pgUniqueViolation \<and> suffix ''_slug_key'' name then Some ErrSlugTaken
          else if code = pgCheckViolation \<and> suffix ''_slug_format'' name then Some ErrSlugInvalid
          else if code = pgCheckViolation \<and> suffix ''_title_present'' name then Some ErrTitleRequired
          else None)"

definition wrap :: "go_error \<Rightarrow> string \<Rightarrow> fmt_arg list \<Rightarrow> go_error" where
  "wrap err format args =
     (if errors_is err ErrNoRows then Errorf (format @ '': %w'') args ErrNotFound
      else case domain_error err of
        Some domain \<Rightarrow> Errorf (format @ '': %w'') args domain
      | None \<Rightarrow> Errorf (''content: '' @ format @ '': %w'') args err)"

section \<open>Identifiers\<close>

text \<open>\<open>new_v7\<close> is what \<^verbatim>\<open>uuid.NewV7()\<close> returns when it is called.\<close>

definition assign_v7 :: "go_error + uuid \<Rightarrow> uuid \<Rightarrow> go_error + uuid" where
  "assign_v7 new_v7 i =
     (if i \<noteq> uuid_nil then Inr i
      else case new_v7 of
        Inl err \<Rightarrow> Inl (Errorf ''content: generating id: %w'' [] err)
      | Inr v \<Rightarrow> Inr v)"

definition post_before_create :: "go_error + uuid \<Rightarrow> post \<Rightarrow> go_error + post" where
  "post_before_create new_v7 p =
     (case assign_v7 new_v7 (post_id p) of Inl e \<Rightarrow> Inl e | Inr i \<Rightarrow> Inr (p\<lparr>post_id := i\<rparr>))"

definition page_before_create :: "go_error + uuid \<Rightarrow> page \<Rightarrow> go_error + page" where
  "page_before_create new_v7 p =
     (case assign_v7 new_v7 (page_id p) of Inl e \<Rightarrow> Inl e | Inr i \<Rightarrow> Inr (p\<lparr>page_id := i\<rparr>))"

section \<open>Lemmas\<close>

definition content_errors :: "go_error set" where
  "content_errors = {ErrNotFound, ErrSlugTaken, ErrSlugInvalid, ErrTitleRequired}"

lemma errors_is_leaf [simp]:
  "errors_is ErrNoRows t \<longleftrightarrow> t = ErrNoRows" "errors_is (PgError c n) t \<longleftrightarrow> t = PgError c n"
  "errors_is (OtherError s) t \<longleftrightarrow> t = OtherError s"
  "errors_is ErrNotFound t \<longleftrightarrow> t = ErrNotFound" "errors_is ErrSlugTaken t \<longleftrightarrow> t = ErrSlugTaken"
  "errors_is ErrSlugInvalid t \<longleftrightarrow> t = ErrSlugInvalid"
  "errors_is ErrTitleRequired t \<longleftrightarrow> t = ErrTitleRequired"
  "errors_is (Errorf f as e) t \<longleftrightarrow> t = Errorf f as e \<or> errors_is e t"
  by (auto simp: errors_is_def)

lemma errors_as_pg_not_no_rows: "errors_as_pg e \<noteq> None \<Longrightarrow> \<not> errors_is e ErrNoRows"
  by (induction e) auto

lemma domain_error_cases:
  "domain_error e = Some d \<Longrightarrow> d \<in> {ErrSlugTaken, ErrSlugInvalid, ErrTitleRequired}"
  by (auto simp: domain_error_def split: option.splits if_splits)

lemma wrap_not_found_iff:
  assumes "\<not> errors_is e ErrNotFound"
  shows "errors_is (wrap e f as) ErrNotFound \<longleftrightarrow> errors_is e ErrNoRows"
  using assms by (auto simp: wrap_def split: option.split dest: domain_error_cases)

lemma wrap_domain_iff:
  assumes "\<not> errors_is e d" and "d \<in> {ErrSlugTaken, ErrSlugInvalid, ErrTitleRequired}"
  shows "errors_is (wrap e f as) d \<longleftrightarrow> domain_error e = Some d"
proof -
  have "domain_error e = Some d \<Longrightarrow> \<not> errors_is e ErrNoRows"
    by (rule errors_as_pg_not_no_rows) (auto simp: domain_error_def split: option.splits)
  with assms show ?thesis
    by (auto simp: wrap_def split: option.split dest: domain_error_cases)
qed

end
