(* ===== verification/Go_Strings.thy ===== *)
theory Go_Strings
  imports Prelude
begin

text \<open>
  The functions of Go's \<^verbatim>\<open>strings\<close> package that the program calls, on byte strings.
  \<^verbatim>\<open>strings.HasPrefix(s, p)\<close> is \<^term>\<open>prefix p s\<close> and \<^verbatim>\<open>strings.HasSuffix(s, p)\<close> is
  \<^term>\<open>suffix p s\<close>, both of HOL-Library.Sublist.
\<close>

section \<open>Cut, Split, Join\<close>

text \<open>\<^verbatim>\<open>strings.Cut(s, sep)\<close> for a separator of one byte; \<^const>\<open>None\<close> is \<^verbatim>\<open>found == false\<close>.\<close>

fun cut :: "char \<Rightarrow> string \<Rightarrow> (string \<times> string) option" where
  "cut c [] = None"
| "cut c (x # xs) =
     (if x = c then Some ([], xs)
      else map_option (\<lambda>(before, after). (x # before, after)) (cut c xs))"

text \<open>\<^verbatim>\<open>strings.Split(s, sep)\<close> for a separator of one byte: never the empty list.\<close>

fun split_on :: "char \<Rightarrow> string \<Rightarrow> string list" where
  "split_on c [] = [[]]"
| "split_on c (x # xs) =
     (if x = c then [] # split_on c xs
      else (case split_on c xs of [] \<Rightarrow> [[x]] | f # fs \<Rightarrow> (x # f) # fs))"

text \<open>\<^verbatim>\<open>strings.Join(parts, sep)\<close>\<close>

fun join :: "string \<Rightarrow> string list \<Rightarrow> string" where
  "join sep [] = []"
| "join sep [x] = x"
| "join sep (x # y # ys) = x @ sep @ join sep (y # ys)"

section \<open>White space\<close>

text \<open>
  The UTF-8 encodings of the runes \<^verbatim>\<open>unicode.IsSpace\<close> accepts (the same runes as the space
  table of package \<^verbatim>\<open>fmt\<close>).
\<close>

definition utf8_spaces :: "string list" where
  "utf8_spaces =
     map (\<lambda>c. [c]) [CHR 0x09, CHR 0x0A, CHR 0x0B, CHR 0x0C, CHR 0x0D, CHR 0x20] @
     map (\<lambda>c. [CHR 0xC2, c]) [CHR 0x85, CHR 0xA0] @
     [[CHR 0xE1, CHR 0x9A, CHR 0x80]] @
     map (\<lambda>c. [CHR 0xE2, CHR 0x80, c])
       [CHR 0x80, CHR 0x81, CHR 0x82, CHR 0x83, CHR 0x84, CHR 0x85, CHR 0x86, CHR 0x87,
        CHR 0x88, CHR 0x89, CHR 0x8A, CHR 0xA8, CHR 0xA9, CHR 0xAF] @
     [[CHR 0xE2, CHR 0x81, CHR 0x9F], [CHR 0xE3, CHR 0x80, CHR 0x80]]"

text \<open>Remove every leading element of a set of byte sequences, none of which is empty.\<close>

fun strip_any :: "nat \<Rightarrow> string list \<Rightarrow> string \<Rightarrow> string" where
  "strip_any 0 seqs s = s"
| "strip_any (Suc fuel) seqs s =
     (case find (\<lambda>p. prefix p s) seqs of
        None \<Rightarrow> s
      | Some p \<Rightarrow> strip_any fuel seqs (drop (length p) s))"

text \<open>
  \<^verbatim>\<open>strings.TrimSpace\<close>: each round removes at least one byte, so the length of the string is fuel
  enough (\<open>strip_any_done\<close> below).
\<close>

definition trim_left_space :: "string \<Rightarrow> string" where
  "trim_left_space s = strip_any (length s) utf8_spaces s"

definition trim_right_space :: "string \<Rightarrow> string" where
  "trim_right_space s = rev (strip_any (length s) (map rev utf8_spaces) (rev s))"

definition trim_space :: "string \<Rightarrow> string" where
  "trim_space s = trim_right_space (trim_left_space s)"

text \<open>\<^verbatim>\<open>strings.TrimRight(s, cutset)\<close> for a cutset of single bytes, and \<^verbatim>\<open>strings.TrimPrefix\<close>.\<close>

definition trim_right_set :: "char list \<Rightarrow> string \<Rightarrow> string" where
  "trim_right_set cs s = rev (dropWhile (\<lambda>c. c \<in> set cs) (rev s))"

definition trim_prefix :: "string \<Rightarrow> string \<Rightarrow> string" where
  "trim_prefix p s = (if prefix p s then drop (length p) s else s)"

section \<open>Laws\<close>

lemma cut_found [go_string_simps]:
  "c \<notin> set a \<Longrightarrow> cut c (a @ c # b) = Some (a, b)"
  by (induction a) auto

lemma cut_absent [go_string_simps]: "c \<notin> set a \<Longrightarrow> cut c a = None"
  by (induction a) auto

lemma cut_Some_iff: "cut c s = Some (a, b) \<longleftrightarrow> s = a @ c # b \<and> c \<notin> set a"
  by (induction s arbitrary: a b) (auto simp: Cons_eq_append_conv)

lemma split_on_not_Nil [simp]: "split_on c s \<noteq> []"
  by (induction s) (auto split: list.splits)

lemma split_on_absent [go_string_simps]: "c \<notin> set a \<Longrightarrow> split_on c a = [a]"
  by (induction a) auto

lemma split_on_field [go_string_simps]:
  "c \<notin> set a \<Longrightarrow> split_on c (a @ c # rest) = a # split_on c rest"
  by (induction a) auto

lemma split_on_sep [go_string_simps]: "split_on c (c # rest) = [] # split_on c rest"
  by simp

lemma split_on_fields: "f \<in> set (split_on c s) \<Longrightarrow> c \<notin> set f"
  by (induction s arbitrary: f) (auto split: list.splits if_splits)

lemma join_split_on: "join [c] (split_on c s) = s"
proof (induction s)
  case (Cons x xs)
  obtain f fs where "split_on c xs = f # fs"
    by (cases "split_on c xs") auto
  then show ?case using Cons by (cases fs) auto
qed simp

lemma split_on_join:
  "xs \<noteq> [] \<Longrightarrow> list_all (\<lambda>x. c \<notin> set x) xs \<Longrightarrow> split_on c (join [c] xs) = xs"
  by (induction "[c]" xs rule: join.induct) (auto simp: go_string_simps)

lemma strip_any_done:
  assumes "\<forall>p \<in> set seqs. p \<noteq> []" and "length s \<le> fuel" and "p \<in> set seqs"
  shows "\<not> prefix p (strip_any fuel seqs s)"
  using assms
proof (induction fuel arbitrary: s)
  case (Suc fuel)
  show ?case
  proof (cases "find (\<lambda>p. prefix p s) seqs")
    case None
    then have "\<not> prefix p s" using Suc.prems(3) by (simp add: find_None_iff)
    with None show ?thesis by simp
  next
    case (Some q)
    then have "prefix q s" "q \<in> set seqs" by (auto simp: find_Some_iff)
    with Suc.prems have "length (drop (length q) s) \<le> fuel"
      by (cases s; cases q) auto
    with Suc Some show ?thesis by simp
  qed
qed auto

lemma utf8_spaces_not_Nil: "\<forall>p \<in> set utf8_spaces. p \<noteq> []"
  by (auto simp: utf8_spaces_def)

lemma trim_right_space_ends:
  assumes "p \<in> set utf8_spaces"
  shows "\<not> suffix p (trim_right_space s)"
  using assms strip_any_done [of "map rev utf8_spaces" "rev s" "length s" "rev p"]
    utf8_spaces_not_Nil
  by (auto simp: trim_right_space_def suffix_to_prefix)

lemma trim_left_space_starts:
  assumes "p \<in> set utf8_spaces"
  shows "\<not> prefix p (trim_left_space s)"
  using assms strip_any_done [of utf8_spaces s "length s" p] utf8_spaces_not_Nil
  by (auto simp: trim_left_space_def)

lemma strip_any_suffix: "suffix (strip_any fuel seqs s) s"
proof (induction fuel arbitrary: s)
  case (Suc fuel)
  show ?case
  proof (cases "find (\<lambda>p. prefix p s) seqs")
    case (Some q)
    have "suffix (drop (length q) s) s" by (rule suffix_drop)
    with Some Suc show ?thesis by (auto intro: suffix_order.trans)
  qed simp
qed simp

lemma trim_space_sublist: "sublist (trim_space s) s"
proof -
  let ?l = "trim_left_space s"
  have "suffix ?l s"
    unfolding trim_left_space_def by (rule strip_any_suffix)
  moreover have "prefix (trim_space s) ?l"
    using strip_any_suffix [of "length ?l" "map rev utf8_spaces" "rev ?l"]
    by (simp add: trim_space_def trim_right_space_def suffix_to_prefix)
  ultimately show ?thesis
    by (meson prefix_imp_sublist sublist_order.order.trans suffix_imp_sublist)
qed

end
