(* ===== verification/Go_Strconv.thy ===== *)
theory Go_Strconv
  imports Go_Strings
begin

text \<open>
  Decimal numbers: Go's \<^verbatim>\<open>%d\<close> verb, \<^verbatim>\<open>strconv.ParseInt(s, 10, 64)\<close>, \<^verbatim>\<open>strconv.Atoi\<close> and the
  part of \<^verbatim>\<open>fmt.Sscanf\<close> that reads literals and \<^verbatim>\<open>%d\<close>. Every way of failing is \<^const>\<open>None\<close>: the
  program only ever asks whether the error is nil.
\<close>

section \<open>Printing\<close>

definition digit_char :: "nat \<Rightarrow> char" where
  "digit_char d = char_of (48 + d)"

fun show_nat :: "nat \<Rightarrow> string" where
  "show_nat n = (if n < 10 then [digit_char n] else show_nat (n div 10) @ [digit_char (n mod 10)])"

declare show_nat.simps [simp del]

definition show_int :: "int \<Rightarrow> string" where
  "show_int i = (if i < 0 then CHR ''-'' # show_nat (nat (- i)) else show_nat (nat i))"

text \<open>The digits of an integer, as \<^const>\<open>show_nat\<close> has them, without counting up to it when evaluated.\<close>

function show_pos :: "int \<Rightarrow> string" where
  "show_pos i = (if i < 10 then [digit_char (nat i)] else show_pos (i div 10) @ [digit_char (nat (i mod 10))])"
  by auto
termination
  by (relation "measure nat") auto

declare show_pos.simps [simp del]

lemma show_nat_pos: "0 \<le> i \<Longrightarrow> show_nat (nat i) = show_pos i"
proof (induction i rule: show_pos.induct)
  case (1 i)
  then show ?case
    by (subst show_nat.simps, subst show_pos.simps) (auto simp: nat_div_distrib nat_mod_distrib)
qed

lemma show_int_code [code]: "show_int i = (if i < 0 then CHR ''-'' # show_pos (- i) else show_pos i)"
  by (simp add: show_int_def show_nat_pos)

section \<open>Reading\<close>

definition digit_val :: "char \<Rightarrow> nat" where
  "digit_val c = of_char c - 48"

definition is_digit :: "char \<Rightarrow> bool" where
  "is_digit c \<longleftrightarrow> 48 \<le> (of_char c :: nat) \<and> (of_char c :: nat) \<le> 57"

fun digits_from :: "nat \<Rightarrow> string \<Rightarrow> nat option" where
  "digits_from acc [] = Some acc"
| "digits_from acc (c # cs) =
     (if is_digit c then digits_from (10 * acc + digit_val c) cs else None)"

text \<open>
  \<^verbatim>\<open>strconv.ParseUint(s, 10, bits)\<close>: at least one digit, nothing but digits, within range.
  Base 10 admits no underscore and no prefix.
\<close>

definition parse_uint :: "nat \<Rightarrow> string \<Rightarrow> nat option" where
  "parse_uint bits s =
     (if s = [] then None
      else case digits_from 0 s of
             None \<Rightarrow> None
           | Some n \<Rightarrow> if n < 2 ^ bits then Some n else None)"

text \<open>\<^verbatim>\<open>strconv.ParseInt(s, 10, bits)\<close>: an optional sign, then digits, within the signed range.\<close>

definition signed_value :: "nat \<Rightarrow> bool \<Rightarrow> string \<Rightarrow> int option" where
  "signed_value bits neg s =
     (if s = [] then None
      else case digits_from 0 s of
             None \<Rightarrow> None
           | Some n \<Rightarrow>
               if neg then (if n \<le> 2 ^ (bits - 1) then Some (- int n) else None)
               else (if n < 2 ^ (bits - 1) then Some (int n) else None))"

definition parse_int :: "nat \<Rightarrow> string \<Rightarrow> int option" where
  "parse_int bits s =
     (case s of
        [] \<Rightarrow> None
      | c # cs \<Rightarrow>
          if c = CHR ''-'' then signed_value bits True cs
          else if c = CHR ''+'' then signed_value bits False cs
          else signed_value bits False s)"

text \<open>\<^verbatim>\<open>strconv.Atoi\<close> on a 64-bit platform\<close>

abbreviation atoi :: "string \<Rightarrow> int option" where
  "atoi s \<equiv> parse_int 64 s"

section \<open>Sscanf\<close>

text \<open>
  A format is a list of literal bytes and of \<^verbatim>\<open>%d\<close> verbs; the verb carries the type of the
  variable it is read into: \<open>IntVar\<close> for \<^verbatim>\<open>int\<close>, \<open>UintVar w\<close> for an unsigned type of \<open>w\<close>
  bits. \<^verbatim>\<open>%d\<close> first skips white space (a newline there is an error), accepts a sign for the
  signed type only, and then reads the longest run of digits, which must not be empty. What
  is left of the input when the format is exhausted is ignored: \<^verbatim>\<open>Sscanf\<close> does not ask for
  the end of the input.
\<close>

datatype scan_item = Literal char | IntVar | UintVar nat

fun skip_space :: "nat \<Rightarrow> string \<Rightarrow> string option" where
  "skip_space 0 s = Some s"
| "skip_space (Suc fuel) s =
     (case find (\<lambda>p. prefix p s) utf8_spaces of
        None \<Rightarrow> Some s
      | Some p \<Rightarrow> if p = [CHR 0x0A] then None else skip_space fuel (drop (length p) s))"

definition scan_unsigned :: "nat \<Rightarrow> string \<Rightarrow> (nat \<times> string) option" where
  "scan_unsigned bits s =
     (let tok = takeWhile is_digit s; rest = dropWhile is_digit s
      in if tok = [] then None
         else case parse_uint bits tok of None \<Rightarrow> None | Some n \<Rightarrow> Some (n, rest))"

definition scan_signed :: "string \<Rightarrow> (int \<times> string) option" where
  "scan_signed s =
     (let sgn = takeWhile (\<lambda>c. c = CHR ''+'' \<or> c = CHR ''-'') (take 1 s);
          body = drop (length sgn) s;
          tok = takeWhile is_digit body; rest = dropWhile is_digit body
      in if tok = [] then None
         else case parse_int 64 (sgn @ tok) of None \<Rightarrow> None | Some i \<Rightarrow> Some (i, rest))"

fun sscanf :: "scan_item list \<Rightarrow> string \<Rightarrow> int list option" where
  "sscanf [] s = Some []"
| "sscanf (Literal c # fmt) s =
     (case s of [] \<Rightarrow> None | x # xs \<Rightarrow> if x = c then sscanf fmt xs else None)"
| "sscanf (IntVar # fmt) s =
     (case skip_space (length s) s of
        None \<Rightarrow> None
      | Some s' \<Rightarrow> (case scan_signed s' of
                     None \<Rightarrow> None
                   | Some (i, rest) \<Rightarrow> map_option (Cons i) (sscanf fmt rest)))"
| "sscanf (UintVar w # fmt) s =
     (case skip_space (length s) s of
        None \<Rightarrow> None
      | Some s' \<Rightarrow> (case scan_unsigned w s' of
                     None \<Rightarrow> None
                   | Some (n, rest) \<Rightarrow> map_option (Cons (int n)) (sscanf fmt rest)))"

section \<open>Laws\<close>

lemma digit_char_is_digit [go_num_simps]: "d < 10 \<Longrightarrow> is_digit (digit_char d)"
  by (simp add: is_digit_def digit_char_def)

lemma digit_val_digit_char [go_num_simps]: "d < 10 \<Longrightarrow> digit_val (digit_char d) = d"
  by (simp add: digit_val_def digit_char_def)

lemma digits_from_append:
  "digits_from acc (xs @ ys) =
     (case digits_from acc xs of None \<Rightarrow> None | Some a \<Rightarrow> digits_from a ys)"
  by (induction acc xs rule: digits_from.induct) auto

lemma digits_from_show_nat [go_num_simps]: "digits_from 0 (show_nat n) = Some n"
proof (induction n rule: show_nat.induct)
  case (1 n)
  show ?case
  proof (cases "n < 10")
    case True
    then show ?thesis
      by (simp add: show_nat.simps [of n] go_num_simps)
  next
    case False
    with 1 have "digits_from 0 (show_nat (n div 10)) = Some (n div 10)" by simp
    moreover have "10 * (n div 10) + n mod 10 = n" by simp
    ultimately show ?thesis using False
      by (simp add: show_nat.simps [of n] digits_from_append go_num_simps)
  qed
qed

lemma show_nat_not_Nil [simp]: "show_nat n \<noteq> []"
  by (subst show_nat.simps) simp

lemma show_nat_digits: "list_all is_digit (show_nat n)"
proof (induction n rule: show_nat.induct)
  case (1 n)
  then show ?case
    by (cases "n < 10") (simp_all add: show_nat.simps [of n] go_num_simps)
qed

lemma show_nat_set: "c \<in> set (show_nat n) \<Longrightarrow> is_digit c"
  using show_nat_digits by (auto simp: list_all_iff)

lemma not_digit_sign [simp]: "\<not> is_digit CHR ''-''" "\<not> is_digit CHR ''+''"
  by (simp_all add: is_digit_def)

lemma show_int_set: "c \<in> set (show_int i) \<Longrightarrow> is_digit c \<or> c = CHR ''-''"
  by (auto simp: show_int_def dest: show_nat_set split: if_splits)

lemma signed_value_show_nat:
  "signed_value bits neg (show_nat n) =
     (if neg then (if n \<le> 2 ^ (bits - 1) then Some (- int n) else None)
      else (if n < 2 ^ (bits - 1) then Some (int n) else None))"
  by (simp add: signed_value_def go_num_simps)

lemma parse_int_show_nat [go_num_simps]:
  "parse_int bits (show_nat n) = (if n < 2 ^ (bits - 1) then Some (int n) else None)"
proof -
  obtain c cs where s: "show_nat n = c # cs" by (cases "show_nat n") auto
  then have "is_digit c" using show_nat_set [of c n] by simp
  then have "c \<noteq> CHR ''-''" "c \<noteq> CHR ''+''" by auto
  then have "parse_int bits (show_nat n) = signed_value bits False (show_nat n)"
    by (simp add: parse_int_def s)
  then show ?thesis by (simp add: signed_value_show_nat)
qed

lemma parse_int_show_int [go_num_simps]:
  assumes "- (2 ^ (bits - 1)) \<le> i" and "i < 2 ^ (bits - 1)"
  shows "parse_int bits (show_int i) = Some i"
proof (cases "i < 0")
  case True
  have "nat (- i) \<le> 2 ^ (bits - 1)"
    using assms(1) by (simp add: nat_le_iff)
  with True show ?thesis
    by (simp add: show_int_def parse_int_def signed_value_show_nat)
next
  case False
  then have "nat i < 2 ^ (bits - 1)"
    using assms(2) by (simp add: nat_less_iff)
  with False show ?thesis
    by (simp add: show_int_def parse_int_show_nat)
qed

lemma signed_value_range:
  assumes "signed_value bits neg s = Some i" and "0 < bits"
  shows "- (2 ^ (bits - 1)) \<le> i \<and> i < 2 ^ (bits - 1)"
proof -
  define b where "b = (2 :: nat) ^ (bits - 1)"
  from assms(1) obtain n where n: "if neg then n \<le> b \<and> i = - int n else n < b \<and> i = int n"
    by (auto simp: signed_value_def b_def split: if_splits option.splits)
  have "0 < b" by (simp add: b_def)
  with n have "- int b \<le> i \<and> i < int b" by (cases neg) auto
  moreover have "int b = 2 ^ (bits - 1)" by (simp add: b_def)
  ultimately show ?thesis by simp
qed

lemma parse_int_range:
  assumes "parse_int bits s = Some i" and "0 < bits"
  shows "- (2 ^ (bits - 1)) \<le> i \<and> i < 2 ^ (bits - 1)"
proof -
  from assms(1) obtain neg t where "signed_value bits neg t = Some i"
    by (auto simp: parse_int_def split: list.splits if_splits)
  then show ?thesis using assms(2) by (rule signed_value_range)
qed

lemma takeWhile_digits_show:
  "rest = [] \<or> \<not> is_digit (hd rest) \<Longrightarrow>
     takeWhile is_digit (show_nat n @ rest) = show_nat n \<and>
     dropWhile is_digit (show_nat n @ rest) = rest"
  using show_nat_digits [of n]
  by (cases rest) (auto simp: list_all_iff takeWhile_append2 dropWhile_append2)

lemma utf8_spaces_not_digit: "list_all (\<lambda>p. p \<noteq> [] \<and> \<not> is_digit (hd p)) utf8_spaces"
  by (simp add: utf8_spaces_def is_digit_def)

lemma find_space_digit:
  assumes "is_digit c"
  shows "find (\<lambda>p. prefix p (c # cs)) utf8_spaces = None"
proof -
  have "\<not> prefix p (c # cs)" if "p \<in> set utf8_spaces" for p
  proof
    assume "prefix p (c # cs)"
    moreover have "p \<noteq> []" "\<not> is_digit (hd p)"
      using that utf8_spaces_not_digit by (simp_all add: list_all_iff)
    ultimately show False using assms by (cases p) auto
  qed
  then show ?thesis by (simp add: find_None_iff)
qed

lemma skip_space_digit:
  "s \<noteq> [] \<Longrightarrow> is_digit (hd s) \<Longrightarrow> skip_space fuel s = Some s"
  by (cases fuel; cases s) (simp_all add: find_space_digit)

lemma show_nat_hd: "is_digit (hd (show_nat n @ rest))"
  using show_nat_set [of "hd (show_nat n)" n] by simp

lemma skip_space_show: "skip_space fuel (show_nat n @ rest) = Some (show_nat n @ rest)"
  by (rule skip_space_digit) (simp_all only: show_nat_hd append_is_Nil_conv show_nat_not_Nil simp_thms)

lemma sscanf_uint_show [go_num_simps]:
  assumes "n < 2 ^ w" and "rest = [] \<or> \<not> is_digit (hd rest)"
  shows "sscanf (UintVar w # fmt) (show_nat n @ rest) =
           map_option (Cons (int n)) (sscanf fmt rest)"
proof -
  have "scan_unsigned w (show_nat n @ rest) = Some (n, rest)"
    using assms takeWhile_digits_show [of rest n]
    by (simp add: scan_unsigned_def parse_uint_def go_num_simps)
  then show ?thesis by (simp add: skip_space_show)
qed

lemma sscanf_int_show [go_num_simps]:
  assumes "n < 2 ^ 63" and "rest = [] \<or> \<not> is_digit (hd rest)"
  shows "sscanf (IntVar # fmt) (show_nat n @ rest) =
           map_option (Cons (int n)) (sscanf fmt rest)"
proof -
  obtain c cs where s: "show_nat n = c # cs" by (cases "show_nat n") auto
  then have c: "is_digit c" using show_nat_set [of c n] by simp
  then have "takeWhile (\<lambda>c. c = CHR ''+'' \<or> c = CHR ''-'') (take 1 (show_nat n @ rest)) = []"
    using s by auto
  then have "scan_signed (show_nat n @ rest) = Some (int n, rest)"
    using assms takeWhile_digits_show [of rest n]
    by (simp add: scan_signed_def go_num_simps)
  then show ?thesis by (simp add: skip_space_show)
qed

end
