(* ===== verification/Go_Time.thy ===== *)
theory Go_Time
  imports Go_Strconv "HOL-Library.Monad_Syntax"
begin

text \<open>
  The parts of Go's \<^verbatim>\<open>time\<close> package the editor and the lists use: calendar dates, the layouts
  \<^verbatim>\<open>2006-01-02T15:04\<close>, \<^verbatim>\<open>15:04:05\<close> and \<^verbatim>\<open>2 Jan 2006, 15:04\<close>, and \<^verbatim>\<open>ParseInLocation\<close> of the first.
  A \<^verbatim>\<open>*time.Location\<close> is its name and its lookup of an instant (in seconds): the offset in force, and the
  interval it is in force. The time zone database behind it is data outside the repository.
\<close>

record zone =
  zone_name :: string
  zone_lookup :: "int \<Rightarrow> int \<times> int \<times> int"

definition utc_zone :: zone where
  "utc_zone = \<lparr>zone_name = ''UTC'', zone_lookup = (\<lambda>_. (0, - (2 ^ 63), 2 ^ 63 - 1))\<rparr>"

definition zone_offset :: "zone \<Rightarrow> int \<Rightarrow> int" where
  "zone_offset z u = fst (zone_lookup z u)"

section \<open>The calendar\<close>

text \<open>Days are counted from 1 January of year 1; years from that year, so that year \<open>z + 1\<close> is meant.\<close>

definition epoch_day :: int where
  "epoch_day = 719162"

definition days_before_year :: "int \<Rightarrow> int" where
  "days_before_year z = 365 * z + z div 4 - z div 100 + z div 400"

definition is_leap :: "int \<Rightarrow> bool" where
  "is_leap y \<longleftrightarrow> y mod 4 = 0 \<and> (y mod 100 \<noteq> 0 \<or> y mod 400 = 0)"

text \<open>400, 100, 4 and 1 years, the second and the last at most three times.\<close>

definition years_before_day :: "int \<Rightarrow> int" where
  "years_before_day d =
     (let n = d div 146097; r = d mod 146097;
          a = min 3 (r div 36524); r = r - 36524 * a;
          b = r div 1461; r = r mod 1461;
          c = min 3 (r div 365)
      in 400 * n + 100 * a + 4 * b + c)"

definition month_lengths :: "bool \<Rightarrow> int list" where
  "month_lengths leap = [31, if leap then 29 else 28, 31, 30, 31, 30, 31, 31, 30, 31, 30, 31]"

fun find_month :: "int list \<Rightarrow> nat \<Rightarrow> int \<Rightarrow> nat \<times> int" where
  "find_month [] m d = (m, d + 1)"
| "find_month (l # ls) m d = (if d < l then (m, d + 1) else find_month ls (Suc m) (d - l))"

text \<open>Year, month and day of a day counted from the epoch, and back.\<close>

definition civil :: "int \<Rightarrow> int \<times> nat \<times> int" where
  "civil day =
     (let d = day + epoch_day;
          z = years_before_day d
      in (z + 1, find_month (month_lengths (is_leap (z + 1))) 1 (d - days_before_year z)))"

definition days_in :: "nat \<Rightarrow> int \<Rightarrow> int" where
  "days_in m y = month_lengths (is_leap y) ! (m - 1)"

definition day_of :: "int \<Rightarrow> nat \<Rightarrow> int \<Rightarrow> int" where
  "day_of y m d =
     days_before_year (y - 1) + sum_list (take (m - 1) (month_lengths (is_leap y))) + (d - 1) - epoch_day"

section \<open>Formatting\<close>

definition zero_pad :: "nat \<Rightarrow> nat \<Rightarrow> string" where
  "zero_pad w n = replicate (w - length (show_nat n)) CHR ''0'' @ show_nat n"

definition zero_pad_int :: "nat \<Rightarrow> int \<Rightarrow> string" where
  "zero_pad_int w i = (if i < 0 then CHR ''-'' # zero_pad w (nat (- i)) else zero_pad w (nat i))"

lemma zero_pad_int_code [code]:
  "zero_pad_int w i =
     (let s = show_pos (if i < 0 then - i else i) in (if i < 0 then ''-'' else []) @ replicate (w - length s) CHR ''0'' @ s)"
  by (simp add: zero_pad_int_def zero_pad_def show_nat_pos Let_def)

definition local_seconds :: "zone \<Rightarrow> go_time \<Rightarrow> int" where
  "local_seconds z t = (let u = t div nanos_per_second in u + zone_offset z u)"

definition clock_hm :: "int \<Rightarrow> string" where
  "clock_hm s =
     zero_pad 2 (nat (s mod 86400 div 3600)) @ '':'' @ zero_pad 2 (nat (s mod 3600 div 60))"

text \<open>\<^verbatim>\<open>editorTimeFormat\<close>\<close>

definition format_editor :: "zone \<Rightarrow> go_time \<Rightarrow> string" where
  "format_editor z t =
     (let s = local_seconds z t; (y, m, d) = civil (s div 86400)
      in zero_pad_int 4 y @ ''-'' @ zero_pad 2 m @ ''-'' @ zero_pad 2 (nat d) @ ''T'' @ clock_hm s)"

definition format_clock :: "zone \<Rightarrow> go_time \<Rightarrow> string" where
  "format_clock z t =
     (let s = local_seconds z t in clock_hm s @ '':'' @ zero_pad 2 (nat (s mod 60)))"

definition month_names :: "string list" where
  "month_names = [''Jan'', ''Feb'', ''Mar'', ''Apr'', ''May'', ''Jun'', ''Jul'', ''Aug'', ''Sep'', ''Oct'', ''Nov'', ''Dec'']"

definition format_when :: "zone \<Rightarrow> go_time \<Rightarrow> string" where
  "format_when z t =
     (let s = local_seconds z t; (y, m, d) = civil (s div 86400)
      in show_nat (nat d) @ '' '' @ month_names ! (m - 1) @ '' '' @ zero_pad_int 4 y @ '', '' @ clock_hm s)"

section \<open>Parsing\<close>

text \<open>\<^verbatim>\<open>getnum\<close>: two digits, or one where \<open>fixed\<close> is not asked for.\<close>

fun get_num :: "bool \<Rightarrow> string \<Rightarrow> (nat \<times> string) option" where
  "get_num fixed [] = None"
| "get_num fixed [c] = (if is_digit c \<and> \<not> fixed then Some (digit_val c, []) else None)"
| "get_num fixed (c # d # s) =
     (if \<not> is_digit c then None
      else if \<not> is_digit d then (if fixed then None else Some (digit_val c, d # s))
      else Some (10 * digit_val c + digit_val d, s))"

fun skip_char :: "char \<Rightarrow> string \<Rightarrow> string option" where
  "skip_char c [] = None"
| "skip_char c (x # s) = (if x = c then Some s else None)"

definition get_year :: "string \<Rightarrow> (nat \<times> string) option" where
  "get_year s =
     (if length s < 4 then None
      else map_option (\<lambda>y. (y, drop 4 s)) (digits_from 0 (take 4 s)))"

definition guard :: "bool \<Rightarrow> unit option" where
  "guard b = (if b then Some () else None)"

text \<open>
  \<^verbatim>\<open>time.Date\<close>: the offset is looked up as if the clock showed UTC, and once more at the instant that
  gives when the first offset is not in force there.
\<close>

definition date_in :: "zone \<Rightarrow> int \<Rightarrow> int" where
  "date_in z s =
     (let (off, start, stop) = zone_lookup z s
      in if off = 0 then s
         else let utc = s - off
              in if utc < start \<or> stop \<le> utc then s - zone_offset z utc else utc)"

definition parse_editor :: "zone \<Rightarrow> string \<Rightarrow> go_time option" where
  "parse_editor z v =
     do {
       (y, s) \<leftarrow> get_year v;
       s \<leftarrow> skip_char CHR ''-'' s;
       (m, s) \<leftarrow> get_num True s;
       guard (1 \<le> m \<and> m \<le> 12);
       s \<leftarrow> skip_char CHR ''-'' s;
       (d, s) \<leftarrow> get_num True s;
       s \<leftarrow> skip_char CHR ''T'' s;
       (hour, s) \<leftarrow> get_num False s;
       guard (hour < 24);
       s \<leftarrow> skip_char CHR '':'' s;
       (minute, s) \<leftarrow> get_num True s;
       guard (minute < 60);
       guard (s = []);
       guard (1 \<le> d \<and> int d \<le> days_in m (int y));
       Some (date_in z (86400 * day_of (int y) m (int d) + 3600 * int hour + 60 * int minute)
               * nanos_per_second)
     }"

section \<open>Dates round trip\<close>

lemma div_group: "0 \<le> x \<Longrightarrow> x < k \<Longrightarrow> (k * q + x) div k = (q :: int)"
  by (simp add: add.commute)

lemma mod_group: "0 \<le> x \<Longrightarrow> x < k \<Longrightarrow> (k * q + x) mod k = (x :: int)"
  by simp

lemma fourth_year_leap:
  assumes "0 \<le> b" and "b < 24"
  shows "is_leap (400 * n + 100 * a + 4 * b + 3 + 1)"
proof -
  let ?y = "400 * n + 100 * a + 4 * b + 3 + 1"
  have "?y = 100 * (4 * n + a) + (4 * b + 4)" by simp
  then have "?y mod 100 = 4 * b + 4" using assms by (simp only: mod_group)
  moreover have "?y = 4 * (100 * n + 25 * a + b + 1) + 0" by simp
  then have "?y mod 4 = 0" by (simp only: mod_group)
  ultimately show ?thesis using assms unfolding is_leap_def by simp
qed

lemma years_before_day_range:
  "days_before_year (years_before_day d) \<le> d \<and>
   d - days_before_year (years_before_day d) < 365 + (if is_leap (years_before_day d + 1) then 1 else 0)"
proof -
  define n where "n = d div 146097"
  define r where "r = d mod 146097"
  define a where "a = min 3 (r div 36524)"
  define r1 where "r1 = r - 36524 * a"
  define b where "b = r1 div 1461"
  define r2 where "r2 = r1 mod 1461"
  define c where "c = min 3 (r2 div 365)"
  have d: "d = 146097 * n + r" "0 \<le> r" "r < 146097" by (simp_all add: n_def r_def)
  have a: "0 \<le> a" "a \<le> 3" "0 \<le> r1" "r1 < 36524 \<or> a = 3" "r1 < 36525"
    using d(2,3) by (auto simp: a_def r1_def min_def)
  have b: "r1 = 1461 * b + r2" "0 \<le> b" "b \<le> 24" "0 \<le> r2" "r2 < 1461"
    using a by (simp_all add: b_def r2_def)
  have c: "0 \<le> c" "c \<le> 3" "0 \<le> r2 - 365 * c" "r2 - 365 * c < 365 \<or> c = 3 \<and> r2 - 365 * c < 366"
  proof -
    define q where "q = r2 div 365"
    define e where "e = r2 mod 365"
    have q: "r2 = 365 * q + e" "0 \<le> e" "e < 365" by (simp_all add: q_def e_def)
    have "0 \<le> q" using b(4) by (simp add: q_def pos_imp_zdiv_nonneg_iff)
    moreover have "c = min 3 q" by (simp add: c_def q_def)
    ultimately have *: "(c = q \<and> q \<le> 3 \<or> c = 3 \<and> 4 \<le> q) \<and> 0 \<le> q" by linarith
    then show "0 \<le> c" "c \<le> 3" by linarith+
    from * q b(5) show "0 \<le> r2 - 365 * c" "r2 - 365 * c < 365 \<or> c = 3 \<and> r2 - 365 * c < 366" by linarith+
  qed
  have z: "years_before_day d = 400 * n + 100 * a + 4 * b + c"
    by (simp add: years_before_day_def Let_def n_def r_def a_def r1_def b_def r2_def c_def)
  have dby: "days_before_year (years_before_day d) = 146097 * n + 36524 * a + 1461 * b + 365 * c"
  proof -
    let ?z = "400 * n + 100 * a + 4 * b + c"
    have "?z = 4 * (100 * n + 25 * a + b) + c" by simp
    then have "?z div 4 = 100 * n + 25 * a + b" using c(1,2) by (simp only: div_group)
    moreover have "?z = 100 * (4 * n + a) + (4 * b + c)" by simp
    then have "?z div 100 = 4 * n + a"
      using b(2,3) c(1,2) div_group [of "4 * b + c" 100 "4 * n + a"] by simp
    moreover have "?z = 400 * n + (100 * a + 4 * b + c)" by simp
    then have "?z div 400 = n"
      using a(1,2) b(2,3) c(1,2) div_group [of "100 * a + 4 * b + c" 400 n] by (simp only:)
    ultimately show ?thesis unfolding z days_before_year_def by simp
  qed
  have rest: "d - days_before_year (years_before_day d) = r2 - 365 * c"
    using dby d(1) b(1) by (simp add: r1_def)
  have "is_leap (years_before_day d + 1)" if "\<not> r2 - 365 * c < 365"
  proof -
    from that c have c3: "c = 3" and full: "r2 = 1460" using b(5) by auto
    have "b < 24 \<or> a = 3" using a(4) b full by auto
    then consider "b < 24" | "a = 3" "b = 24" using b(3) by force
    then show ?thesis
    proof cases
      case 1
      then show ?thesis unfolding z c3 using b(2) by (rule fourth_year_leap [rotated])
    next
      case 2
      then have "400 * n + 100 * a + 4 * b + 3 + 1 = 400 * (n + 1)" by simp
      then show ?thesis unfolding z is_leap_def c3 by simp
    qed
  qed
  then show ?thesis using rest c(3,4) by auto
qed

lemma find_month_sum:
  assumes "0 \<le> d" and "d < sum_list ls" and "find_month ls k d = (m, dd)"
  shows "k \<le> m \<and> m < k + length ls \<and> d = sum_list (take (m - k) ls) + (dd - 1) \<and> 1 \<le> dd \<and> dd \<le> ls ! (m - k)"
  using assms
proof (induction ls k d rule: find_month.induct)
  case (2 l ls k d)
  show ?case
  proof (cases "d < l")
    case True
    with 2 show ?thesis by auto
  next
    case False
    with 2 have ih: "Suc k \<le> m \<and> m < Suc k + length ls \<and> d - l = sum_list (take (m - Suc k) ls) + (dd - 1) \<and>
        1 \<le> dd \<and> dd \<le> ls ! (m - Suc k)" by simp
    then obtain j where "m - k = Suc j" "m - Suc k = j" by (metis Suc_diff_Suc Suc_le_lessD)
    with ih show ?thesis by simp
  qed
qed simp

lemma month_lengths_props:
  "length (month_lengths leap) = 12" "sum_list (month_lengths leap) = 365 + (if leap then 1 else 0)"
  by (simp_all add: month_lengths_def)

lemma month_length_le: "k < 12 \<Longrightarrow> month_lengths leap ! k \<le> 31"
proof -
  have "list_all (\<lambda>x. x \<le> 31) (month_lengths leap)" by (simp add: month_lengths_def)
  moreover assume "k < 12"
  ultimately show "month_lengths leap ! k \<le> 31"
    by (simp add: list_all_length month_lengths_props(1))
qed

lemma civil_day:
  assumes "civil day = (y, m, d)"
  shows "1 \<le> m \<and> m \<le> 12 \<and> 1 \<le> d \<and> d \<le> days_in m y \<and> d \<le> 31 \<and> day_of y m d = day"
proof -
  let ?z = "years_before_day (day + epoch_day)"
  let ?d = "day + epoch_day - days_before_year ?z"
  from assms have y: "y = ?z + 1" and f: "find_month (month_lengths (is_leap y)) 1 ?d = (m, d)"
    by (auto simp: civil_def Let_def)
  have "0 \<le> ?d" "?d < sum_list (month_lengths (is_leap y))"
    using years_before_day_range [of "day + epoch_day"] by (auto simp: y month_lengths_props)
  from find_month_sum [OF this f] have m: "1 \<le> m" "m < 13" and
    d: "?d = sum_list (take (m - 1) (month_lengths (is_leap y))) + (d - 1)" "1 \<le> d" "d \<le> days_in m y"
    by (auto simp: month_lengths_props(1) days_in_def)
  have "days_in m y \<le> 31" unfolding days_in_def by (rule month_length_le) (use m in auto)
  moreover have "day_of y m d = day" using d(1) by (simp add: day_of_def y)
  ultimately show ?thesis using m d by auto
qed

section \<open>The editor's layout round trips\<close>

lemma show_nat_length: "n < 10 ^ k \<Longrightarrow> 0 < k \<Longrightarrow> length (show_nat n) \<le> k"
proof (induction k arbitrary: n)
  case (Suc k)
  show ?case
  proof (cases "n < 10")
    case True
    then show ?thesis by (simp add: show_nat.simps [of n])
  next
    case False
    then have "0 < k" using Suc.prems by (cases k) auto
    moreover have "n div 10 < 10 ^ k" using Suc.prems(1) by (simp add: less_mult_imp_div_less mult.commute)
    ultimately have "length (show_nat (n div 10)) \<le> k" by (intro Suc.IH)
    with False show ?thesis by (simp add: show_nat.simps [of n])
  qed
qed simp

lemma zero_pad_length: "n < 10 ^ w \<Longrightarrow> 0 < w \<Longrightarrow> length (zero_pad w n) = w"
  using show_nat_length [of n w] by (simp add: zero_pad_def)

lemma zero_pad_digits: "list_all is_digit (zero_pad w n)"
  using show_nat_digits [of n] by (auto simp: zero_pad_def list_all_iff is_digit_def)

lemma digits_from_zeros: "digits_from 0 (replicate k CHR ''0'' @ s) = digits_from 0 s"
  by (induction k) (simp_all add: is_digit_def digit_val_def)

lemma digits_from_zero_pad: "digits_from 0 (zero_pad w n) = Some n"
  by (simp add: zero_pad_def digits_from_zeros digits_from_show_nat)

lemma get_num_zero_pad [simp]:
  assumes "n < 100"
  shows "get_num fixed (zero_pad 2 n @ rest) = Some (n, rest)"
proof -
  have "length (zero_pad 2 n) = Suc (Suc 0)" using zero_pad_length [of n 2] assms by simp
  then obtain c d where p: "zero_pad 2 n = [c, d]" by (auto simp: length_Suc_conv)
  then have "is_digit c" "is_digit d" using zero_pad_digits [of 2 n] by simp_all
  then show ?thesis using digits_from_zero_pad [of 2 n] by (simp add: p)
qed

lemma get_year_zero_pad [simp]:
  "n < 10000 \<Longrightarrow> get_year (zero_pad 4 n @ rest) = Some (n, rest)"
  using zero_pad_length [of n 4] by (simp add: get_year_def digits_from_zero_pad)

text \<open>The zone's offset does not change within two days of an instant.\<close>

definition steady :: "zone \<Rightarrow> int \<Rightarrow> bool" where
  "steady z u \<longleftrightarrow> \<bar>zone_offset z u\<bar> \<le> 86400 \<and>
     (\<forall>v. \<bar>v - u\<bar> \<le> 172800 \<longrightarrow> zone_offset z v = zone_offset z u)"

lemma date_in_steady:
  assumes "steady z u" and "\<bar>w - u\<bar> \<le> 86400"
  shows "date_in z (w + zone_offset z u) = w"
proof -
  let ?off = "zone_offset z u"
  have o: "\<bar>?off\<bar> \<le> 86400" using assms(1) unfolding steady_def by blast
  have same: "\<bar>v - u\<bar> \<le> 172800 \<Longrightarrow> zone_offset z v = ?off" for v
    using assms(1) unfolding steady_def by blast
  obtain start stop where l: "zone_lookup z (w + ?off) = (zone_offset z (w + ?off), start, stop)"
    by (cases "zone_lookup z (w + ?off)") (simp add: zone_offset_def)
  have "zone_offset z (w + ?off) = ?off" using o assms(2) by (intro same) linarith
  moreover have "zone_offset z w = ?off" using assms(2) by (intro same) linarith
  ultimately show ?thesis by (simp add: date_in_def l)
qed

text \<open>The instant at the start of the minute the clock of the zone shows.\<close>

definition minute_start :: "zone \<Rightarrow> go_time \<Rightarrow> int" where
  "minute_start z t = t div nanos_per_second - local_seconds z t mod 60"

definition year_in :: "zone \<Rightarrow> go_time \<Rightarrow> int" where
  "year_in z t = fst (civil (local_seconds z t div 86400))"

lemma clock_parts:
  "86400 * (s div 86400) + 3600 * (s mod 86400 div 3600) + 60 * (s mod 3600 div 60) = s - s mod (60 :: int)"
  "0 \<le> s mod 86400 div 3600" "s mod 86400 div 3600 < 24" "0 \<le> s mod 3600 div 60" "s mod 3600 div 60 < 60"
proof -
  have "s mod 86400 mod 3600 = s mod 3600" by (rule mod_mod_cancel) simp
  then have a: "s mod 86400 = 3600 * (s mod 86400 div 3600) + s mod 3600"
    using mult_div_mod_eq [of 3600 "s mod 86400"] by simp
  have "s mod 3600 mod 60 = s mod 60" by (rule mod_mod_cancel) simp
  then have b: "s mod 3600 = 60 * (s mod 3600 div 60) + s mod 60"
    using mult_div_mod_eq [of 60 "s mod 3600"] by simp
  have c: "s = 86400 * (s div 86400) + s mod 86400" by simp
  show "86400 * (s div 86400) + 3600 * (s mod 86400 div 3600) + 60 * (s mod 3600 div 60) = s - s mod 60"
    using a b c by linarith
  show "0 \<le> s mod 86400 div 3600" "0 \<le> s mod 3600 div 60"
    by (simp_all add: pos_imp_zdiv_nonneg_iff)
  show "s mod 86400 div 3600 < 24" "s mod 3600 div 60 < 60"
    using pos_mod_bound [of 86400 s] pos_mod_bound [of 3600 s] by linarith+
qed

lemma parse_format_editor:
  assumes "0 \<le> year_in z t" and "year_in z t < 10000" and "steady z (t div nanos_per_second)"
  shows "parse_editor z (format_editor z t) = Some (minute_start z t * nanos_per_second)"
proof -
  let ?s = "local_seconds z t"
  obtain y m d where c: "civil (?s div 86400) = (y, m, d)" by (cases "civil (?s div 86400)")
  from civil_day [OF c] have m: "1 \<le> m" "m \<le> 12" and d: "1 \<le> d" "d \<le> days_in m y" "d \<le> 31"
    and day: "day_of y m d = ?s div 86400" by auto
  have y: "0 \<le> y" "y < 10000" using assms(1,2) by (simp_all add: year_in_def c)
  define h where "h = ?s mod 86400 div 3600"
  define mi where "mi = ?s mod 3600 div 60"
  have hm: "0 \<le> h" "h < 24" "0 \<le> mi" "mi < 60"
    unfolding h_def mi_def using clock_parts(2-5) by blast+
  have fmt: "format_editor z t = zero_pad 4 (nat y) @ CHR ''-'' # zero_pad 2 m @ CHR ''-'' # zero_pad 2 (nat d) @
      CHR ''T'' # zero_pad 2 (nat h) @ CHR '':'' # zero_pad 2 (nat mi)"
    using y(1) by (simp add: format_editor_def Let_def c clock_hm_def zero_pad_int_def h_def mi_def)
  have last: "get_num True (zero_pad 2 (nat mi)) = Some (nat mi, [])"
    using get_num_zero_pad [of "nat mi" True "[]"] hm(4) by (simp add: nat_less_iff)
  have nat: "nat y < 10000" "m < 100" "nat d < 100" "nat h < 100" "nat h < 24" "nat mi < 60"
    using y m(2) d(3) hm by linarith+
  have "parse_editor z (format_editor z t) =
      Some (date_in z (86400 * (?s div 86400) + 3600 * h + 60 * mi) * nanos_per_second)"
    using nat m d hm y day by (simp add: parse_editor_def fmt last guard_def)
  moreover have "86400 * (?s div 86400) + 3600 * h + 60 * mi = minute_start z t + zone_offset z (t div nanos_per_second)"
    using clock_parts(1) [of ?s] unfolding h_def mi_def minute_start_def
    by (simp add: local_seconds_def Let_def)
  moreover have "\<bar>minute_start z t - t div nanos_per_second\<bar> \<le> 86400"
    by (simp add: minute_start_def)
  ultimately show ?thesis using date_in_steady [OF assms(3)] by simp
qed

end
