(* ===== verification/Go_Url.thy ===== *)
theory Go_Url
  imports Go_Strings
begin

text \<open>
  The parts of \<^verbatim>\<open>net/url\<close>, \<^verbatim>\<open>path\<close> and \<^verbatim>\<open>net/http\<close> behind the program's redirects:
  \<^verbatim>\<open>url.QueryEscape\<close> and its inverse, \<^verbatim>\<open>url.ParseRequestURI\<close> and \<^verbatim>\<open>url.Parse\<close> on a string that
  starts with a single slash (the program passes no other), \<^verbatim>\<open>path.Clean\<close> on a rooted path,
  and the \<^verbatim>\<open>Location\<close> header \<^verbatim>\<open>http.Redirect\<close> writes for such a URL.
\<close>

section \<open>Percent encoding\<close>

definition hex_digits :: string where
  "hex_digits = ''0123456789ABCDEF''"

definition hex_val :: "char \<Rightarrow> nat option" where
  "hex_val c =
     (let n = (of_char c :: nat)
      in if 48 \<le> n \<and> n \<le> 57 then Some (n - 48)
         else if 97 \<le> n \<and> n \<le> 102 then Some (n - 87)
         else if 65 \<le> n \<and> n \<le> 70 then Some (n - 55)
         else None)"

definition is_alnum :: "char \<Rightarrow> bool" where
  "is_alnum c \<longleftrightarrow>
     (let n = (of_char c :: nat)
      in (48 \<le> n \<and> n \<le> 57) \<or> (65 \<le> n \<and> n \<le> 90) \<or> (97 \<le> n \<and> n \<le> 122))"

definition unreserved :: "char \<Rightarrow> bool" where
  "unreserved c \<longleftrightarrow> is_alnum c \<or> c = CHR ''-'' \<or> c = CHR ''_'' \<or> c = CHR ''.'' \<or> c = CHR ''~''"

definition percent :: "char \<Rightarrow> string" where
  "percent c = [CHR ''%'', hex_digits ! (of_char c div 16), hex_digits ! (of_char c mod 16)]"

definition escape_char :: "char \<Rightarrow> string" where
  "escape_char c = (if unreserved c then [c] else if c = CHR '' '' then ''+'' else percent c)"

definition query_escape :: "string \<Rightarrow> string" where
  "query_escape s = concat (map escape_char s)"

text \<open>\<^verbatim>\<open>url.QueryUnescape\<close>, what \<^verbatim>\<open>r.URL.Query()\<close> applies to a value.\<close>

fun query_unescape :: "string \<Rightarrow> string option" where
  "query_unescape [] = Some []"
| "query_unescape (c # cs) =
     (if c = CHR ''%'' then
        (case cs of
           h # l # rest \<Rightarrow>
             (case (hex_val h, hex_val l) of
                (Some a, Some b) \<Rightarrow> map_option (Cons (char_of (16 * a + b))) (query_unescape rest)
              | _ \<Rightarrow> None)
         | _ \<Rightarrow> None)
      else if c = CHR ''+'' then map_option (Cons (CHR '' '')) (query_unescape cs)
      else map_option (Cons c) (query_unescape cs))"

text \<open>\<^verbatim>\<open>url.PathUnescape\<close>, where a plus sign stands for itself.\<close>

fun path_unescape :: "string \<Rightarrow> string option" where
  "path_unescape [] = Some []"
| "path_unescape (c # cs) =
     (if c = CHR ''%'' then
        (case cs of
           h # l # rest \<Rightarrow>
             (case (hex_val h, hex_val l) of
                (Some a, Some b) \<Rightarrow> map_option (Cons (char_of (16 * a + b))) (path_unescape rest)
              | _ \<Rightarrow> None)
         | _ \<Rightarrow> None)
      else map_option (Cons c) (path_unescape cs))"

section \<open>Parsing a rooted URL\<close>

text \<open>Every percent sign is followed by two hexadecimal digits.\<close>

fun percent_ok :: "string \<Rightarrow> bool" where
  "percent_ok [] = True"
| "percent_ok (c # cs) =
     (if c = CHR ''%'' then
        (case cs of
           h # l # rest \<Rightarrow> hex_val h \<noteq> None \<and> hex_val l \<noteq> None \<and> percent_ok rest
         | _ \<Rightarrow> False)
      else percent_ok cs)"

definition is_ctl :: "char \<Rightarrow> bool" where
  "is_ctl c \<longleftrightarrow> (of_char c :: nat) < 32 \<or> c = CHR 0x7F"

definition before_char :: "char \<Rightarrow> string \<Rightarrow> string" where
  "before_char c s = takeWhile (\<lambda>x. x \<noteq> c) s"

definition from_char :: "char \<Rightarrow> string \<Rightarrow> string" where
  "from_char c s = dropWhile (\<lambda>x. x \<noteq> c) s"

text \<open>
  Whether \<^verbatim>\<open>url.ParseRequestURI\<close> accepts a string with a leading slash: no control byte anywhere,
  and a path (what precedes the first question mark) whose escapes are well formed. There is
  no scheme and no authority in such a string, and no fragment in a request URI.
\<close>

definition parse_request_uri_ok :: "string \<Rightarrow> bool" where
  "parse_request_uri_ok s \<longleftrightarrow>
     list_all (\<lambda>c. \<not> is_ctl c) s \<and> percent_ok (before_char (CHR ''?'') s)"

text \<open>Whether \<^verbatim>\<open>url.Parse\<close> accepts it: here a fragment is split off first and unescaped.\<close>

definition url_parse_ok :: "string \<Rightarrow> bool" where
  "url_parse_ok s \<longleftrightarrow>
     parse_request_uri_ok (before_char (CHR ''#'') s) \<and> percent_ok (drop 1 (from_char (CHR ''#'') s))"

section \<open>path.Clean and http.Redirect\<close>

fun clean_step :: "string list \<Rightarrow> string \<Rightarrow> string list" where
  "clean_step acc seg =
     (if seg = [] \<or> seg = ''.'' then acc
      else if seg = ''..'' then butlast acc
      else acc @ [seg])"

definition path_clean :: "string \<Rightarrow> string" where
  "path_clean p = CHR ''/'' # join ''/'' (foldl clean_step [] (split_on (CHR ''/'') p))"

definition lower_hex_digits :: string where
  "lower_hex_digits = ''0123456789abcdef''"

definition hex_escape_non_ascii :: "string \<Rightarrow> string" where
  "hex_escape_non_ascii s =
     concat (map (\<lambda>c. if (of_char c :: nat) < 128 then [c]
                      else [CHR ''%'', lower_hex_digits ! (of_char c div 16),
                            lower_hex_digits ! (of_char c mod 16)]) s)"

text \<open>
  The \<^verbatim>\<open>Location\<close> of \<^verbatim>\<open>http.Redirect(w, r, url, code)\<close> for a \<^verbatim>\<open>url\<close> that starts with one slash:
  if it parses, the part before the query is cleaned, keeping a trailing slash.
\<close>

definition clean_location :: "string \<Rightarrow> string" where
  "clean_location u =
     (let p = before_char (CHR ''?'') u;
          q = from_char (CHR ''?'') u;
          c = path_clean p
      in (if suffix ''/'' p \<and> \<not> suffix ''/'' c then c @ ''/'' else c) @ q)"

definition redirect_target :: "string \<Rightarrow> string" where
  "redirect_target u = (if url_parse_ok u then clean_location u else u)"

definition redirect_location :: "string \<Rightarrow> string" where
  "redirect_location u = hex_escape_non_ascii (redirect_target u)"

section \<open>Laws\<close>

lemma hex_val_digit: "n < 16 \<Longrightarrow> hex_val (hex_digits ! n) = Some n"
proof -
  assume "n < 16"
  then have "n \<in> set [0, 1, 2, 3, 4, 5, 6, 7, 8, 9, 10, 11, 12, 13, 14, 15]"
    by (simp, presburger)
  moreover have "list_all (\<lambda>n. hex_val (hex_digits ! n) = Some n)
      [0, 1, 2, 3, 4, 5, 6, 7, 8, 9, 10, 11, 12, 13, 14, 15]"
    by (simp add: hex_val_def hex_digits_def)
  ultimately show ?thesis by (simp only: list_all_iff)
qed

lemma query_unescape_percent:
  "query_unescape (percent c @ rest) = map_option (Cons c) (query_unescape rest)"
proof -
  have "(of_char c :: nat) < 256" by (rule nat_of_char_less_256)
  then have "(of_char c :: nat) div 16 < 16" by (simp add: less_mult_imp_div_less)
  then show ?thesis by (simp add: percent_def hex_val_digit)
qed

lemma query_unescape_char:
  "query_unescape (escape_char c @ rest) = map_option (Cons c) (query_unescape rest)"
proof (cases "unreserved c")
  case True
  then have "c \<noteq> CHR ''%''" "c \<noteq> CHR ''+''"
    by (auto simp: unreserved_def is_alnum_def)
  with True show ?thesis by (simp add: escape_char_def)
next
  case False
  then show ?thesis
    by (simp add: escape_char_def query_unescape_percent del: query_unescape.simps)
      (simp add: escape_char_def)
qed

lemma query_unescape_escape: "query_unescape (query_escape s) = Some s"
  by (induction s) (simp_all add: query_escape_def query_unescape_char del: query_unescape.simps(2))

lemma path_clean_rooted: "prefix ''/'' (path_clean p)"
  by (simp add: path_clean_def)

lemma before_from_char: "before_char c s @ from_char c s = s"
  by (simp add: before_char_def from_char_def)

lemma foldl_clean_plain:
  assumes "list_all (\<lambda>seg. seg \<noteq> [] \<and> seg \<noteq> ''.'' \<and> seg \<noteq> ''..'') segs"
  shows "foldl clean_step acc segs = acc @ segs"
  using assms by (induction segs arbitrary: acc) auto

lemma path_clean_plain:
  assumes "p = CHR ''/'' # join ''/'' segs" and "segs \<noteq> []"
    and "list_all (\<lambda>seg. seg \<noteq> [] \<and> seg \<noteq> ''.'' \<and> seg \<noteq> ''..'' \<and> CHR ''/'' \<notin> set seg) segs"
  shows "path_clean p = p"
proof -
  have "split_on (CHR ''/'') p = [] # segs"
    using assms split_on_join [of segs "CHR ''/''"] by (simp add: list_all_iff)
  moreover have "foldl clean_step [] segs = segs"
    using assms(3) by (subst foldl_clean_plain) (auto simp: list_all_iff)
  ultimately show ?thesis by (simp add: path_clean_def assms(1))
qed

lemma hex_escape_ascii:
  "list_all (\<lambda>c. (of_char c :: nat) < 128) s \<Longrightarrow> hex_escape_non_ascii s = s"
  by (induction s) (auto simp: hex_escape_non_ascii_def)

end
