(* ===== verification/View.thy ===== *)
theory View
  imports Content Go_Time Go_Url
begin

text \<open>
  \<^verbatim>\<open>internal/view/view.go\<close>: the values a screen is drawn from. A component is what a handler asks to be
  drawn; its markup is drawn by the templ files of the package.
\<close>

type_synonym nav = string

definition NavPosts :: nav where
  "NavPosts = ''posts''"

definition NavPages :: nav where
  "NavPages = ''pages''"

definition NavNone :: nav where
  "NavNone = []"

text \<open>\<^verbatim>\<open>Zone\<close> is a pointer, and may be nil.\<close>

record view_listing =
  vl_query :: string
  vl_next_page :: int
  vl_zone :: "zone option"

record post_listing =
  pl_listing :: view_listing
  pl_posts :: "post list"

record page_listing =
  gl_listing :: view_listing
  gl_pages :: "page list"

text \<open>\<^verbatim>\<open>Errors\<close> is a map with at most one entry for a field, kept as an association list.\<close>

record form =
  form_id :: string
  form_slug :: string
  form_title :: string
  form_body_text :: string
  form_published_at :: string
  form_errors :: "(string \<times> string) list"
  form_zone :: string
  form_autosave :: bool
  form_kind :: string

definition form_err :: "form \<Rightarrow> string \<Rightarrow> string" where
  "form_err f field = (case map_of (form_errors f) field of None \<Rightarrow> [] | Some m \<Rightarrow> m)"

definition form_is_new :: "form \<Rightarrow> bool" where
  "form_is_new f \<longleftrightarrow> form_id f = []"

record login_form =
  lf_next :: string
  lf_error :: string

definition state :: "go_time option \<Rightarrow> go_time \<Rightarrow> string" where
  "state published now =
     (case published of
        None \<Rightarrow> ''draft''
      | Some t \<Rightarrow> if now < t then ''scheduled'' else ''published'')"

text \<open>The em dash in UTF-8.\<close>

definition em_dash :: string where
  "em_dash = [CHR 0xE2, CHR 0x80, CHR 0x94]"

definition when_text :: "go_time option \<Rightarrow> zone option \<Rightarrow> string" where
  "when_text published zn =
     (case published of
        None \<Rightarrow> em_dash
      | Some t \<Rightarrow> format_when (case zn of None \<Rightarrow> utc_zone | Some z \<Rightarrow> z) t)"

definition post_state :: "post \<Rightarrow> go_time \<Rightarrow> string" where
  "post_state p now = state (post_published_at p) now"

definition page_state :: "page \<Rightarrow> go_time \<Rightarrow> string" where
  "page_state g now = state (page_published_at g) now"

definition post_when :: "post \<Rightarrow> zone option \<Rightarrow> string" where
  "post_when p z = when_text (post_published_at p) z"

definition page_when :: "page \<Rightarrow> zone option \<Rightarrow> string" where
  "page_when g z = when_text (page_published_at g) z"

definition list_url :: "string \<Rightarrow> string \<Rightarrow> int \<Rightarrow> string" where
  "list_url base query n =
     (let (b, sep) = (if query \<noteq> [] then (base @ ''?q='' @ query_escape query, ''&'') else (base, ''?''))
      in if 1 < n then b @ sep @ ''page='' @ show_int n else b)"

definition index_path :: "string \<Rightarrow> string" where
  "index_path kind = ''/admin/'' @ kind @ ''s''"

definition save_path :: "form \<Rightarrow> string" where
  "save_path f =
     (if form_is_new f then ''/admin/'' @ form_kind f @ ''s''
      else ''/admin/'' @ form_kind f @ ''s/'' @ form_id f)"

definition autosave_path :: "form \<Rightarrow> string" where
  "autosave_path f = ''/admin/'' @ form_kind f @ ''s/'' @ form_id f @ ''/autosave''"

section \<open>Components\<close>

datatype component =
    Layout string nav component
  | Login login_form
  | Posts post_listing go_time
  | PostRegion post_listing go_time
  | PostRows post_listing go_time
  | Pages page_listing go_time
  | PageRegion page_listing go_time
  | PageRows page_listing go_time
  | Editor form
  | EditorForm form
  | PublishedMarker
  | NotSavedMarker form string
  | Saved form string

text \<open>Whether a component is a whole HTML page.\<close>

fun is_full_page :: "component \<Rightarrow> bool" where
  "is_full_page (Layout t n c) = True"
| "is_full_page _ = False"

section \<open>Lemmas\<close>

lemma state_draft: "state p now = ''draft'' \<longleftrightarrow> p = None"
  by (auto simp: state_def split: option.split)

lemma state_published: "state p now = ''published'' \<longleftrightarrow> (\<exists>t. p = Some t \<and> t \<le> now)"
  by (auto simp: state_def split: option.split)

end
