(* ===== verification/Go_Http.thy ===== *)
theory Go_Http
  imports Go_Strings Go_Url
begin

text \<open>
  What the handlers see of \<^verbatim>\<open>net/http\<close>: a request as the server hands it over, and the response they
  build. A header list is read from the front, so a header set later is consed and wins.
  Form and query values are parsed here from the raw text, as \<^verbatim>\<open>url.ParseQuery\<close> does it.
\<close>

section \<open>Query strings and form bodies\<close>

text \<open>
  \<^verbatim>\<open>url.ParseQuery\<close>: fields separated by \<^verbatim>\<open>&\<close>, a field with a semicolon or a malformed escape is
  dropped and remembered as the error, an empty field is skipped.
\<close>

definition parse_field :: "string \<Rightarrow> (string \<times> string) option" where
  "parse_field f =
     (if CHR '';'' \<in> set f then None
      else let (k, v) = (case cut (CHR ''='') f of None \<Rightarrow> (f, []) | Some kv \<Rightarrow> kv)
           in case (query_unescape k, query_unescape v) of
                (Some k', Some v') \<Rightarrow> Some (k', v')
              | _ \<Rightarrow> None)"

definition query_fields :: "string \<Rightarrow> string list" where
  "query_fields s = filter (\<lambda>f. f \<noteq> []) (split_on (CHR ''&'') s)"

definition parse_query :: "string \<Rightarrow> (string \<times> string) list" where
  "parse_query s = List.map_filter parse_field (query_fields s)"

definition parse_query_ok :: "string \<Rightarrow> bool" where
  "parse_query_ok s \<longleftrightarrow> list_all (\<lambda>f. parse_field f \<noteq> None) (query_fields s)"

text \<open>\<^verbatim>\<open>Values.Get\<close>: the first value of a key, or the empty string.\<close>

definition values_get :: "(string \<times> string) list \<Rightarrow> string \<Rightarrow> string" where
  "values_get vs k = (case map_of vs k of None \<Rightarrow> [] | Some v \<Rightarrow> v)"

section \<open>Requests\<close>

text \<open>
  \<open>form_body\<close> is the body of a form-encoded request and empty for any other content type;
  \<open>body_error\<close> is a body that could not be read. \<open>path_id\<close> is what \<^verbatim>\<open>r.PathValue("id")\<close> returns
  once a pattern with \<^verbatim>\<open>{id}\<close> has matched.
\<close>

record request =
  req_method :: string
  url_path :: string
  escaped_path :: string
  force_query :: bool
  raw_query :: string
  form_body :: string
  body_error :: bool
  req_headers :: "(string \<times> string) list"
  req_cookies :: "(string \<times> string) list"
  remote_addr :: string
  path_id :: string

definition query_get :: "request \<Rightarrow> string \<Rightarrow> string" where
  "query_get r k = values_get (parse_query (raw_query r)) k"

definition has_form_method :: "request \<Rightarrow> bool" where
  "has_form_method r \<longleftrightarrow> req_method r \<in> set [''POST'', ''PUT'', ''PATCH'']"

text \<open>\<^verbatim>\<open>r.ParseForm()\<close> returned an error; \<^verbatim>\<open>r.PostFormValue(k)\<close> after it.\<close>

definition parse_form_error :: "request \<Rightarrow> bool" where
  "parse_form_error r \<longleftrightarrow>
     (has_form_method r \<and> (body_error r \<or> \<not> parse_query_ok (form_body r))) \<or>
     \<not> parse_query_ok (raw_query r)"

definition post_form_value :: "request \<Rightarrow> string \<Rightarrow> string" where
  "post_form_value r k = (if has_form_method r then values_get (parse_query (form_body r)) k else [])"

definition get_req_header :: "request \<Rightarrow> string \<Rightarrow> string" where
  "get_req_header r k = values_get (req_headers r) k"

text \<open>\<^verbatim>\<open>r.URL.RequestURI()\<close>\<close>

definition request_uri :: "request \<Rightarrow> string" where
  "request_uri r =
     (if escaped_path r = [] then ''/'' else escaped_path r) @
     (if force_query r \<or> raw_query r \<noteq> [] then CHR ''?'' # raw_query r else [])"

text \<open>A request the examples start from.\<close>

definition sample_request :: request where
  "sample_request =
     \<lparr>req_method = ''GET'', url_path = ''/admin/posts'', escaped_path = ''/admin/posts'',
      force_query = False, raw_query = [], form_body = [], body_error = False,
      req_headers = [], req_cookies = [], remote_addr = ''192.0.2.1:4711'', path_id = []\<rparr>"

section \<open>Responses\<close>

datatype same_site = SameSiteDefaultMode | SameSiteLaxMode | SameSiteStrictMode | SameSiteNoneMode

record cookie =
  ck_name :: string
  ck_value :: string
  ck_path :: string
  ck_same_site :: same_site
  ck_http_only :: bool
  ck_secure :: bool
  ck_max_age :: int

record 'b response =
  status :: nat
  headers :: "(string \<times> string) list"
  set_cookies :: "cookie list"
  body :: 'b

definition get_header :: "'b response \<Rightarrow> string \<Rightarrow> string option" where
  "get_header w k = map_of (headers w) k"

text \<open>\<^verbatim>\<open>w.Header().Set(k, v)\<close> and \<^verbatim>\<open>http.SetCookie(w, c)\<close>\<close>

definition set_header :: "string \<Rightarrow> string \<Rightarrow> 'b response \<Rightarrow> 'b response" where
  "set_header k v w = w\<lparr>headers := (k, v) # headers w\<rparr>"

definition set_cookie :: "cookie \<Rightarrow> 'b response \<Rightarrow> 'b response" where
  "set_cookie c w = w\<lparr>set_cookies := set_cookies w @ [c]\<rparr>"

lemma get_header_set_header [simp]:
  "get_header (set_header k v w) k' = (if k' = k then Some v else get_header w k')"
  by (simp add: get_header_def set_header_def)

lemma set_header_simps [simp]:
  "status (set_header k v w) = status w" "set_cookies (set_header k v w) = set_cookies w"
  "body (set_header k v w) = body w"
  by (simp_all add: set_header_def)

lemma set_cookie_simps [simp]:
  "status (set_cookie c w) = status w" "headers (set_cookie c w) = headers w"
  "body (set_cookie c w) = body w" "set_cookies (set_cookie c w) = set_cookies w @ [c]"
  "get_header (set_cookie c w) k = get_header w k"
  by (simp_all add: set_cookie_def get_header_def)

end
