(* ===== verification/Go_Base64.thy ===== *)
theory Go_Base64
  imports Go_Strings
begin

text \<open>
  Go's \<^verbatim>\<open>encoding/base64\<close> without padding: \<^verbatim>\<open>RawStdEncoding\<close> and \<^verbatim>\<open>RawURLEncoding\<close>, which differ
  in their alphabet only. The decoder is not strict: it skips carriage returns and newlines,
  and it ignores the bits a last, incomplete group carries beyond its whole bytes, so several
  strings decode to the same bytes.
\<close>

section \<open>The encodings\<close>

definition std_alphabet :: string where
  "std_alphabet = ''ABCDEFGHIJKLMNOPQRSTUVWXYZabcdefghijklmnopqrstuvwxyz0123456789+/''"

definition url_alphabet :: string where
  "url_alphabet = ''ABCDEFGHIJKLMNOPQRSTUVWXYZabcdefghijklmnopqrstuvwxyz0123456789-_''"

fun encode_units :: "nat list \<Rightarrow> nat list" where
  "encode_units (a # b # c # rest) =
     [a div 4, (a mod 4) * 16 + b div 16, (b mod 16) * 4 + c div 64, c mod 64] @ encode_units rest"
| "encode_units [a, b] = [a div 4, (a mod 4) * 16 + b div 16, (b mod 16) * 4]"
| "encode_units [a] = [a div 4, (a mod 4) * 16]"
| "encode_units [] = []"

definition encode_string :: "string \<Rightarrow> bytes \<Rightarrow> string" where
  "encode_string alphabet bs = map (\<lambda>d. alphabet ! d) (encode_units (map of_char bs))"

fun decode_units :: "nat list \<Rightarrow> nat list option" where
  "decode_units (p # q # r # s # rest) =
     map_option (\<lambda>bs. (p * 4 + q div 16) # ((q mod 16) * 16 + r div 4) # ((r mod 4) * 64 + s) # bs)
       (decode_units rest)"
| "decode_units [p, q, r] = Some [p * 4 + q div 16, (q mod 16) * 16 + r div 4]"
| "decode_units [p, q] = Some [p * 4 + q div 16]"
| "decode_units [p] = None"
| "decode_units [] = Some []"

text \<open>The decode map: the index of a byte in the alphabet.\<close>

fun index_of :: "char \<Rightarrow> string \<Rightarrow> nat option" where
  "index_of c [] = None"
| "index_of c (x # xs) = (if x = c then Some 0 else map_option Suc (index_of c xs))"

fun lookup_all :: "string \<Rightarrow> string \<Rightarrow> nat list option" where
  "lookup_all alphabet [] = Some []"
| "lookup_all alphabet (c # cs) =
     (if c = CHR 0x0A \<or> c = CHR 0x0D then lookup_all alphabet cs
      else case index_of c alphabet of
             None \<Rightarrow> None
           | Some d \<Rightarrow> map_option (Cons d) (lookup_all alphabet cs))"

definition decode_string :: "string \<Rightarrow> string \<Rightarrow> bytes option" where
  "decode_string alphabet s =
     (case lookup_all alphabet s of
        None \<Rightarrow> None
      | Some ds \<Rightarrow> map_option (map char_of) (decode_units ds))"

section \<open>Round trip, for any alphabet\<close>

lemma encode_units_bound:
  "list_all (\<lambda>b. b < 256) bs \<Longrightarrow> list_all (\<lambda>d. d < 64) (encode_units bs)"
  by (induction bs rule: encode_units.induct) (auto simp: less_mult_imp_div_less)

lemma group_div [simp]: "x < k \<Longrightarrow> (m * k + x) div k = m" for m x k :: nat
  by simp

lemma group_mod [simp]: "x < k \<Longrightarrow> (m * k + x) mod k = x" for m x k :: nat
  by simp

lemma decode_encode_units:
  "list_all (\<lambda>b. b < 256) bs \<Longrightarrow> decode_units (encode_units bs) = Some bs"
proof (induction bs rule: encode_units.induct)
  case (1 a b c rest)
  then have "b div 16 < 16" "c div 64 < 4" by (auto simp: less_mult_imp_div_less)
  then have "(a mod 4 * 16 + b div 16) div 16 = a mod 4" "(a mod 4 * 16 + b div 16) mod 16 = b div 16"
    "(b mod 16 * 4 + c div 64) div 4 = b mod 16" "(b mod 16 * 4 + c div 64) mod 4 = c div 64"
    by (simp_all only: group_div group_mod)
  with 1 show ?case by (simp add: div_mult_mod_eq)
next
  case (2 a b)
  then have "b div 16 < 16" by (auto simp: less_mult_imp_div_less)
  then have "(a mod 4 * 16 + b div 16) div 16 = a mod 4" "(a mod 4 * 16 + b div 16) mod 16 = b div 16"
    by (simp_all only: group_div group_mod)
  then show ?case by (simp add: div_mult_mod_eq)
qed auto

lemma index_of_nth: "distinct xs \<Longrightarrow> i < length xs \<Longrightarrow> index_of (xs ! i) xs = Some i"
  by (induction xs arbitrary: i) (auto simp: nth_Cons split: nat.splits)

locale base64_alphabet =
  fixes alphabet :: string
  assumes alphabet_distinct: "distinct alphabet"
    and alphabet_length: "length alphabet = 64"
    and alphabet_no_newline: "CHR 0x0A \<notin> set alphabet" "CHR 0x0D \<notin> set alphabet"
begin

lemma lookup_all_encoded:
  "list_all (\<lambda>d. d < 64) ds \<Longrightarrow> lookup_all alphabet (map ((!) alphabet) ds) = Some ds"
proof (induction ds)
  case (Cons d ds)
  then have d: "d < length alphabet" by (simp add: alphabet_length)
  then have "alphabet ! d \<in> set alphabet" by simp
  with alphabet_no_newline have "alphabet ! d \<noteq> CHR 0x0A" "alphabet ! d \<noteq> CHR 0x0D" by metis+
  with Cons d show ?case by (simp add: index_of_nth alphabet_distinct)
qed simp

lemma decode_encode [simp]: "decode_string alphabet (encode_string alphabet bs) = Some bs"
proof -
  have b: "list_all (\<lambda>b. b < 256) (map of_char bs :: nat list)"
    by (auto simp: list_all_iff nat_of_char_less_256)
  show ?thesis
    by (simp add: decode_string_def encode_string_def lookup_all_encoded encode_units_bound b
        decode_encode_units comp_def)
qed

lemma encode_set: "set (encode_string alphabet bs) \<subseteq> set alphabet"
proof -
  have "list_all (\<lambda>b. b < 256) (map of_char bs :: nat list)"
    by (auto simp: list_all_iff nat_of_char_less_256)
  then have "list_all (\<lambda>d. d < 64) (encode_units (map of_char bs))"
    by (rule encode_units_bound)
  then show ?thesis
    by (auto simp: encode_string_def list_all_iff alphabet_length)
qed

lemma encode_avoids: "c \<notin> set alphabet \<Longrightarrow> c \<notin> set (encode_string alphabet bs)"
  using encode_set by blast

lemma decode_skips_newline:
  "decode_string alphabet (a @ CHR 0x0A # b) = decode_string alphabet (a @ b)"
proof -
  have "lookup_all alphabet (a @ CHR 0x0A # b) = lookup_all alphabet (a @ b)"
    by (induction a) (auto split: option.splits)
  then show ?thesis by (simp add: decode_string_def)
qed

end

interpretation std: base64_alphabet std_alphabet
  by unfold_locales (simp_all add: std_alphabet_def)

interpretation url: base64_alphabet url_alphabet
  by unfold_locales (simp_all add: url_alphabet_def)

section \<open>Unused bits\<close>

text \<open>
  When the number of bytes is 2 modulo 3, the last digit carries four bits of data and two bits the
  decoder drops: four digits are read as the same bytes.
\<close>

lemma encode_units_last:
  assumes "length bs mod 3 = 2" and "list_all (\<lambda>b. b < 256) bs"
  shows "\<exists>us d. encode_units bs = us @ [d] \<and> d \<le> 60 \<and> list_all (\<lambda>u. u < 64) us \<and>
           (\<forall>k < 4. decode_units (us @ [d + k]) = Some bs)"
  using assms
proof (induction bs rule: encode_units.induct)
  case (1 a b c rest)
  then have "length rest mod 3 = 2" by simp
  with 1 obtain us d where us: "encode_units rest = us @ [d]" "d \<le> 60" "list_all (\<lambda>u. u < 64) us"
    "\<forall>k < 4. decode_units (us @ [d + k]) = Some rest"
    by auto
  let ?us = "[a div 4, (a mod 4) * 16 + b div 16, (b mod 16) * 4 + c div 64, c mod 64]"
  have "decode_units (?us @ encode_units []) = Some [a, b, c]"
    using decode_encode_units [of "[a, b, c]"] 1 by simp
  then have "\<forall>k < 4. decode_units ((?us @ us) @ [d + k]) = Some (a # b # c # rest)"
    using us(4) by auto
  moreover have "list_all (\<lambda>u. u < 64) ?us"
    using encode_units_bound [of "[a, b, c]"] 1 by simp
  ultimately have "encode_units (a # b # c # rest) = (?us @ us) @ [d] \<and> d \<le> 60 \<and>
      list_all (\<lambda>u. u < 64) (?us @ us) \<and>
      (\<forall>k < 4. decode_units ((?us @ us) @ [d + k]) = Some (a # b # c # rest))"
    using us by simp
  then show ?case by blast
next
  case (2 a b)
  let ?us = "[a div 4, (a mod 4) * 16 + b div 16]"
  have ab: "a < 256" "b div 16 < 16" using 2 by (auto simp: less_mult_imp_div_less)
  have "((b mod 16) * 4 + k) div 4 = b mod 16" if "k < 4" for k
    using that by (rule group_div)
  then have "\<forall>k < 4. decode_units (?us @ [(b mod 16) * 4 + k]) = Some [a, b]"
    using ab by (simp add: div_mult_mod_eq)
  moreover have "list_all (\<lambda>u. u < 64) ?us"
    using encode_units_bound [of "[a, b]"] 2 by simp
  moreover have "(b mod 16) * 4 \<le> 60" by simp
  ultimately have "encode_units [a, b] = ?us @ [(b mod 16) * 4] \<and> (b mod 16) * 4 \<le> 60 \<and>
      list_all (\<lambda>u. u < 64) ?us \<and>
      (\<forall>k < 4. decode_units (?us @ [(b mod 16) * 4 + k]) = Some [a, b])"
    by simp
  then show ?case by blast
qed auto

text \<open>The string whose last digit is the one \<open>k\<close> places further on in the alphabet.\<close>

definition respell :: "string \<Rightarrow> nat \<Rightarrow> string \<Rightarrow> string" where
  "respell alphabet k s =
     butlast s @ [alphabet ! (the (index_of (last s) alphabet) + k)]"

lemma respell_append: "xs \<noteq> [] \<Longrightarrow> respell a k (ys @ xs) = ys @ respell a k xs"
  by (simp add: respell_def butlast_append)

context base64_alphabet
begin

lemma respell_encoded:
  assumes "length bs mod 3 = 2" and "k < 4"
  shows "decode_string alphabet (respell alphabet k (encode_string alphabet bs)) = Some bs"
    and "k \<noteq> 0 \<Longrightarrow> respell alphabet k (encode_string alphabet bs) \<noteq> encode_string alphabet bs"
    and "encode_string alphabet bs \<noteq> []"
proof -
  let ?bs = "map of_char bs :: nat list"
  have "length ?bs mod 3 = 2" "list_all (\<lambda>b. b < 256) ?bs"
    using assms by (auto simp: list_all_iff)
  then obtain us d where us: "encode_units ?bs = us @ [d]" "d \<le> 60" "list_all (\<lambda>u. u < 64) us"
    "\<forall>k < 4. decode_units (us @ [d + k]) = Some ?bs"
    using encode_units_last by blast
  have e: "encode_string alphabet bs = map ((!) alphabet) us @ [alphabet ! d]"
    by (simp add: encode_string_def us)
  have i: "index_of (alphabet ! d) alphabet = Some d"
    using us(2) by (simp add: index_of_nth alphabet_distinct alphabet_length)
  have r: "respell alphabet k (encode_string alphabet bs) = map ((!) alphabet) (us @ [d + k])"
    by (simp add: respell_def e i butlast_append)
  have "lookup_all alphabet (map ((!) alphabet) (us @ [d + k])) = Some (us @ [d + k])"
    by (rule lookup_all_encoded) (use us assms(2) in auto)
  then show "decode_string alphabet (respell alphabet k (encode_string alphabet bs)) = Some bs"
    using us(4) assms(2) by (simp add: decode_string_def r comp_def)
  show "encode_string alphabet bs \<noteq> []" by (simp add: e)
  assume "k \<noteq> 0"
  then have "alphabet ! (d + k) \<noteq> alphabet ! d"
    using us(2) assms(2) alphabet_distinct alphabet_length by (simp add: nth_eq_iff_index_eq)
  then show "respell alphabet k (encode_string alphabet bs) \<noteq> encode_string alphabet bs"
    unfolding r by (simp add: e)
qed

end

end
