(* ===== verification/Go_Sha256.thy ===== *)
theory Go_Sha256
  imports Prelude "HOL-Library.Word"
begin

text \<open>
  SHA-256 (FIPS 180-4) and HMAC (RFC 2104), what Go's \<^verbatim>\<open>crypto/sha256\<close> and \<^verbatim>\<open>crypto/hmac\<close>
  compute. Words are 32 bits wide and additions wrap.
\<close>

unbundle bit_operations_syntax

type_synonym u32 = "32 word"

text \<open>
  The constants, computed as the standard defines them: the first 32 bits of the fractional parts of
  the cube roots of the first 64 primes, and of the square roots of the first 8. \<open>int_root e n a x\<close>
  finds, bit by bit from bit \<open>n - 1\<close>, the largest number from \<open>a\<close> on whose \<open>e\<close>-th power is at most \<open>x\<close>.
\<close>

primrec int_root :: "nat \<Rightarrow> nat \<Rightarrow> int \<Rightarrow> int \<Rightarrow> int" where
  "int_root e 0 a x = a"
| "int_root e (Suc n) a x = int_root e n (if (a + 2 ^ n) ^ e \<le> x then a + 2 ^ n else a) x"

definition primes_upto :: "int \<Rightarrow> int list" where
  "primes_upto n = filter (\<lambda>p. list_all (\<lambda>d. p mod d \<noteq> 0) [2..p - 1]) [2..n]"

definition root_fraction :: "nat \<Rightarrow> int \<Rightarrow> u32" where
  "root_fraction e p = of_int (int_root e 40 0 (p * 2 ^ (32 * e)))"

definition sha256_k :: "u32 list" where
  "sha256_k = map (root_fraction 3) (primes_upto 311)"

definition sha256_h0 :: "u32 list" where
  "sha256_h0 = map (root_fraction 2) [2, 3, 5, 7, 11, 13, 17, 19]"

definition rotr32 :: "nat \<Rightarrow> u32 \<Rightarrow> u32" where
  "rotr32 n x = drop_bit n x OR push_bit (32 - n) x"

definition big_sigma0 :: "u32 \<Rightarrow> u32" where
  "big_sigma0 x = rotr32 2 x XOR rotr32 13 x XOR rotr32 22 x"

definition big_sigma1 :: "u32 \<Rightarrow> u32" where
  "big_sigma1 x = rotr32 6 x XOR rotr32 11 x XOR rotr32 25 x"

definition small_sigma0 :: "u32 \<Rightarrow> u32" where
  "small_sigma0 x = rotr32 7 x XOR rotr32 18 x XOR drop_bit 3 x"

definition small_sigma1 :: "u32 \<Rightarrow> u32" where
  "small_sigma1 x = rotr32 17 x XOR rotr32 19 x XOR drop_bit 10 x"

text \<open>Big-endian bytes.\<close>

definition be_word :: "bytes \<Rightarrow> u32" where
  "be_word bs = foldl (\<lambda>acc b. push_bit 8 acc OR of_char b) 0 bs"

definition be_bytes :: "u32 \<Rightarrow> bytes" where
  "be_bytes w = map (\<lambda>k. char_of (uint (drop_bit k w))) [24, 16, 8, 0]"

fun chunks :: "nat \<Rightarrow> nat \<Rightarrow> 'a list \<Rightarrow> 'a list list" where
  "chunks 0 k xs = []"
| "chunks (Suc n) k xs = take k xs # chunks n k (drop k xs)"

text \<open>Padding: a one bit, zeros, and the length in bits as a 64-bit number.\<close>

definition sha256_pad :: "bytes \<Rightarrow> bytes" where
  "sha256_pad m =
     (let len = length m;
          zeros = (119 - len mod 64) mod 64;
          bits = (of_nat (8 * len) :: 64 word)
      in m @ CHR 0x80 # replicate zeros CHR 0x00 @
         map (\<lambda>k. char_of (uint (drop_bit k bits))) [56, 48, 40, 32, 24, 16, 8, 0])"

text \<open>The message schedule, latest word first.\<close>

fun expand_schedule :: "nat \<Rightarrow> u32 list \<Rightarrow> u32 list" where
  "expand_schedule 0 ws = ws"
| "expand_schedule (Suc n) ws =
     expand_schedule n
       ((small_sigma1 (ws ! 1) + ws ! 6 + small_sigma0 (ws ! 14) + ws ! 15) # ws)"

definition schedule :: "bytes \<Rightarrow> u32 list" where
  "schedule block = rev (expand_schedule 48 (rev (map be_word (chunks 16 4 block))))"

fun sha256_round :: "u32 list \<Rightarrow> u32 \<times> u32 \<Rightarrow> u32 list" where
  "sha256_round [a, b, c, d, e, f, g, h] (k, w) =
     (let t1 = h + big_sigma1 e + ((e AND f) XOR (NOT e AND g)) + k + w;
          t2 = big_sigma0 a + ((a AND b) XOR (a AND c) XOR (b AND c))
      in [t1 + t2, a, b, c, d + t1, e, f, g])"
| "sha256_round st kw = st"

definition sha256_block :: "u32 list \<Rightarrow> bytes \<Rightarrow> u32 list" where
  "sha256_block st block =
     map2 (+) st (foldl sha256_round st (zip sha256_k (schedule block)))"

definition sha256 :: "bytes \<Rightarrow> bytes" where
  "sha256 m =
     (let p = sha256_pad m
      in concat (map be_bytes (foldl sha256_block sha256_h0 (chunks (length p div 64) 64 p))))"

definition xor_pad :: "int \<Rightarrow> bytes \<Rightarrow> bytes" where
  "xor_pad v k = map (\<lambda>c. char_of ((of_char c :: int) XOR v)) (k @ replicate (64 - length k) CHR 0x00)"

definition hmac_sha256 :: "bytes \<Rightarrow> bytes \<Rightarrow> bytes" where
  "hmac_sha256 key m =
     (let k = (if 64 < length key then sha256 key else key)
      in sha256 (xor_pad 0x5c k @ sha256 (xor_pad 0x36 k @ m)))"

section \<open>Size of a digest\<close>

lemma sha256_round_length: "length (sha256_round st kw) = length st"
  by (cases "(st, kw)" rule: sha256_round.cases) (auto simp: Let_def)

lemma foldl_round_length: "length (foldl sha256_round st kws) = length st"
  by (induction kws arbitrary: st) (auto simp: sha256_round_length)

lemma sha256_block_length: "length (sha256_block st block) = length st"
  by (simp add: sha256_block_def foldl_round_length)

lemma foldl_block_length: "length (foldl sha256_block st bs) = length st"
  by (induction bs arbitrary: st) (auto simp: sha256_block_length)

lemma length_concat_be: "length (concat (map be_bytes ws)) = 4 * length ws"
  by (induction ws) (auto simp: be_bytes_def)

lemma sha256_length [simp]: "length (sha256 m) = 32"
  by (simp add: sha256_def Let_def length_concat_be foldl_block_length sha256_h0_def)

lemma hmac_length [simp]: "length (hmac_sha256 key m) = 32"
  by (simp add: hmac_sha256_def Let_def)

end
