(* ===== verification/Session.thy ===== *)
theory Session
  imports Go_Strconv Go_Base64 Go_Sha256 Go_Http
begin

text \<open>
  \<^verbatim>\<open>internal/admin/session.go\<close>: the signed session cookie. A session is the pair of its issue and
  expiry times; the cookie carries both, in seconds, under an HMAC-SHA256 signature. The clock
  is an argument: the instant \<^verbatim>\<open>s.now()\<close> returned.
\<close>

section \<open>Types\<close>

datatype session_error = ErrNoSession

record session =
  issued_at :: go_time
  expires_at :: go_time

record sessions =
  session_key :: bytes
  session_ttl :: duration
  session_insecure :: bool

definition cookie_name :: string where
  "cookie_name = ''pw_session''"

definition new_sessions :: "string \<Rightarrow> duration \<Rightarrow> bool \<Rightarrow> sessions" where
  "new_sessions secret ttl insecure =
     \<lparr>session_key = secret, session_ttl = ttl, session_insecure = insecure\<rparr>"

section \<open>Time in seconds\<close>

text \<open>
  \<^verbatim>\<open>t.Unix()\<close> drops the fraction of a second. \<^verbatim>\<open>time.Unix(sec, 0)\<close> counts from the year 1 in a signed
  64-bit integer, so a number of seconds near the top of the range wraps around.
\<close>

definition unix :: "go_time \<Rightarrow> int" where
  "unix t = t div nanos_per_second"

definition wrap64 :: "int \<Rightarrow> int" where
  "wrap64 x = (x + 2 ^ 63) mod 2 ^ 64 - 2 ^ 63"

abbreviation unix_to_internal :: int where
  "unix_to_internal \<equiv> 62135596800"

definition time_unix :: "int \<Rightarrow> go_time" where
  "time_unix sec = (wrap64 (sec + unix_to_internal) - unix_to_internal) * nanos_per_second"

text \<open>\<^verbatim>\<open>int(d.Seconds())\<close>, truncated towards zero.\<close>

definition whole_seconds :: "duration \<Rightarrow> int" where
  "whole_seconds d = sgn d * (\<bar>d\<bar> div nanos_per_second)"

section \<open>Operations\<close>

definition sessions_mac :: "sessions \<Rightarrow> string \<Rightarrow> bytes" where
  "sessions_mac ss payload = hmac_sha256 (session_key ss) payload"

definition session_payload :: "session \<Rightarrow> string" where
  "session_payload sess =
     ''1|'' @ show_int (unix (issued_at sess)) @ ''|'' @ show_int (unix (expires_at sess))"

definition sessions_sign :: "sessions \<Rightarrow> session \<Rightarrow> string" where
  "sessions_sign ss sess =
     (let payload = session_payload sess
      in encode_string url_alphabet payload @ ''.'' @
         encode_string url_alphabet (sessions_mac ss payload))"

definition sessions_issue :: "sessions \<Rightarrow> go_time \<Rightarrow> cookie" where
  "sessions_issue ss now =
     \<lparr>ck_name = cookie_name,
      ck_value = sessions_sign ss \<lparr>issued_at = now, expires_at = now + session_ttl ss\<rparr>,
      ck_path = ''/admin'',
      ck_same_site = SameSiteStrictMode,
      ck_http_only = True,
      ck_secure = (\<not> session_insecure ss),
      ck_max_age = whole_seconds (session_ttl ss)\<rparr>"

definition sessions_clear :: "sessions \<Rightarrow> cookie" where
  "sessions_clear ss =
     \<lparr>ck_name = cookie_name, ck_value = '''', ck_path = ''/admin'',
      ck_same_site = SameSiteStrictMode, ck_http_only = True,
      ck_secure = (\<not> session_insecure ss), ck_max_age = -1\<rparr>"

definition sessions_open :: "sessions \<Rightarrow> go_time \<Rightarrow> string \<Rightarrow> session_error + session" where
  "sessions_open ss now v =
     (case cut (CHR ''.'') v of
        None \<Rightarrow> Inl ErrNoSession
      | Some (enc_payload, enc_mac) \<Rightarrow>
     (case decode_string url_alphabet enc_payload of
        None \<Rightarrow> Inl ErrNoSession
      | Some payload \<Rightarrow>
     (case decode_string url_alphabet enc_mac of
        None \<Rightarrow> Inl ErrNoSession
      | Some mac \<Rightarrow>
          if mac \<noteq> sessions_mac ss payload then Inl ErrNoSession
          else
     (case split_on (CHR ''|'') payload of
        [version, f1, f2] \<Rightarrow>
          if version \<noteq> ''1'' then Inl ErrNoSession
          else
     (case parse_int 64 f1 of
        None \<Rightarrow> Inl ErrNoSession
      | Some issued \<Rightarrow>
     (case parse_int 64 f2 of
        None \<Rightarrow> Inl ErrNoSession
      | Some expires \<Rightarrow>
          let sess = \<lparr>issued_at = time_unix issued, expires_at = time_unix expires\<rparr>
          in if \<not> now < expires_at sess then Inl ErrNoSession else Inr sess))
      | _ \<Rightarrow> Inl ErrNoSession))))"

definition sessions_verify :: "sessions \<Rightarrow> go_time \<Rightarrow> request \<Rightarrow> session_error + session" where
  "sessions_verify ss now r =
     (case map_of (req_cookies r) cookie_name of
        None \<Rightarrow> Inl ErrNoSession
      | Some v \<Rightarrow> sessions_open ss now v)"

section \<open>Opening what was signed\<close>

text \<open>
  The instants the cookie can carry: Go's \<^verbatim>\<open>time.Unix\<close> reads them back without wrapping. The
  upper end is some 290 billion years away.
\<close>

definition representable :: "go_time \<Rightarrow> bool" where
  "representable t \<longleftrightarrow> - (2 ^ 63) \<le> unix t \<and> unix t < 2 ^ 63 - unix_to_internal"

definition whole_second :: "go_time \<Rightarrow> go_time" where
  "whole_second t = unix t * nanos_per_second"

lemma time_unix_unix: "representable t \<Longrightarrow> time_unix (unix t) = whole_second t"
  by (simp add: time_unix_def wrap64_def representable_def whole_second_def)

lemma whole_second_le: "whole_second t \<le> t"
  by (simp add: whole_second_def unix_def)

lemma whole_second_gt: "t - nanos_per_second < whole_second t"
  by (simp add: whole_second_def unix_def)

lemma parse_unix: "representable t \<Longrightarrow> parse_int 64 (show_int (unix t)) = Some (unix t)"
  by (rule parse_int_show_int) (auto simp: representable_def)

lemma pipe_not_in_show_int: "CHR ''|'' \<notin> set (show_int i)"
proof
  assume "CHR ''|'' \<in> set (show_int i)"
  then have "is_digit (CHR ''|'') \<or> CHR ''|'' = CHR ''-''" by (rule show_int_set)
  then show False by (simp add: is_digit_def)
qed

lemma split_payload:
  "split_on (CHR ''|'') (session_payload sess) =
     [''1'', show_int (unix (issued_at sess)), show_int (unix (expires_at sess))]"
  using split_on_field [of "CHR ''|''" "''1''"]
  by (simp add: session_payload_def split_on_field split_on_absent pipe_not_in_show_int)

lemma dot_not_in_url [simp]: "CHR ''.'' \<notin> set (encode_string url_alphabet bs)"
  by (rule url.encode_avoids) (simp add: url_alphabet_def)

lemma sessions_open_mac_cong:
  assumes "decode_string url_alphabet m = decode_string url_alphabet m'"
  shows "sessions_open ss now (encode_string url_alphabet p @ CHR ''.'' # m) =
         sessions_open ss now (encode_string url_alphabet p @ CHR ''.'' # m')"
  using assms by (simp add: sessions_open_def cut_found)

lemma sessions_open_sign:
  assumes "representable (issued_at sess)" and "representable (expires_at sess)"
  shows "sessions_open ss now (sessions_sign ss sess) =
    (if now < whole_second (expires_at sess)
     then Inr \<lparr>issued_at = whole_second (issued_at sess), expires_at = whole_second (expires_at sess)\<rparr>
     else Inl ErrNoSession)"
  using assms
  by (simp add: sessions_open_def sessions_sign_def Let_def cut_found split_payload parse_unix
      time_unix_unix)

section \<open>What an accepted cookie is\<close>

lemma sessions_open_InrD:
  assumes "sessions_open ss now v = Inr sess"
  obtains enc_payload enc_mac payload i e where
    "v = enc_payload @ CHR ''.'' # enc_mac"
    "decode_string url_alphabet enc_payload = Some payload"
    "decode_string url_alphabet enc_mac = Some (sessions_mac ss payload)"
    "split_on (CHR ''|'') payload = [''1'', i, e]"
    "parse_int 64 i \<noteq> None" "parse_int 64 e \<noteq> None"
    "expires_at sess = time_unix (the (parse_int 64 e))"
    "now < expires_at sess"
  using assms
  by (auto simp: sessions_open_def Let_def cut_Some_iff
      split: option.splits prod.splits if_splits list.splits)

section \<open>Properties\<close>

text \<open>
  C6: a session cookie is honoured exactly until the whole second at or before issue time plus TTL:
  never at or after its deadline, whoever presents it, and never refused more than a second early.
\<close>

theorem session_lifetime:
  assumes "map_of (req_cookies r) cookie_name = Some (ck_value (sessions_issue ss t0))"
    and "representable t0" and "representable (t0 + session_ttl ss)"
  shows "(is_ok (sessions_verify ss t r) \<longleftrightarrow> t < whole_second (t0 + session_ttl ss)) \<and>
         (is_ok (sessions_verify ss t r) \<longrightarrow> t < t0 + session_ttl ss) \<and>
         (t \<le> t0 + session_ttl ss - nanos_per_second \<longrightarrow> is_ok (sessions_verify ss t r))"
proof -
  have "is_ok (sessions_verify ss t r) \<longleftrightarrow> t < whole_second (t0 + session_ttl ss)"
    using assms by (simp add: sessions_verify_def sessions_issue_def sessions_open_sign)
  then show ?thesis
    using whole_second_le [of "t0 + session_ttl ss"] whole_second_gt [of "t0 + session_ttl ss"]
    by auto
qed

definition sample_sessions :: sessions where
  "sample_sessions = new_sessions ''key'' (7 * 24 * 3600 * nanos_per_second) False"

definition sample_cookie :: string where
  "sample_cookie = ck_value (sessions_issue sample_sessions 0)"

lemma sample_verify:
  "sessions_verify sample_sessions 5000000000
     (sample_request\<lparr>req_cookies := [(cookie_name, sample_cookie)]\<rparr>) =
   Inr \<lparr>issued_at = 0, expires_at = 604800000000000\<rparr>"
  by (simp add: sessions_verify_def sessions_issue_def sessions_open_sign representable_def unix_def
      sample_cookie_def sample_sessions_def new_sessions_def whole_second_def)

theorem session_lifetime_witness:
  "is_ok (sessions_verify sample_sessions 5000000000
     (sample_request\<lparr>req_cookies := [(cookie_name, sample_cookie)]\<rparr>))"
  using session_lifetime
    [of "sample_request\<lparr>req_cookies := [(cookie_name, sample_cookie)]\<rparr>" sample_sessions 0 5000000000]
  by (simp add: representable_def unix_def sample_sessions_def new_sessions_def whole_second_def
      sample_cookie_def)

text \<open>
  C7: a cookie opens only if it is a payload of the form \<^verbatim>\<open>1|issued|expires\<close> signed with the server's
  own key and still alive; nothing else in the cookie matters. So a cookie accepted under two
  secrets exhibits one payload with the same HMAC under both: rotating the secret ends every session.
\<close>

theorem session_needs_signature:
  assumes "sessions_verify ss t r = Inr sess"
  shows "\<exists>p m payload i e.
     map_of (req_cookies r) cookie_name = Some (p @ CHR ''.'' # m) \<and>
     decode_string url_alphabet p = Some payload \<and>
     decode_string url_alphabet m = Some (hmac_sha256 (session_key ss) payload) \<and>
     split_on (CHR ''|'') payload = [''1'', i, e] \<and>
     parse_int 64 e \<noteq> None \<and> t < time_unix (the (parse_int 64 e))"
proof -
  obtain v where v: "map_of (req_cookies r) cookie_name = Some v" "sessions_open ss t v = Inr sess"
    using assms by (auto simp: sessions_verify_def split: option.splits)
  from v(2) show ?thesis
    by (rule sessions_open_InrD) (use v(1) in \<open>force simp: sessions_mac_def\<close>)
qed

theorem session_needs_signature_witness:
  "\<exists>p m payload i e.
     map_of [(cookie_name, sample_cookie)] cookie_name = Some (p @ CHR ''.'' # m) \<and>
     decode_string url_alphabet p = Some payload \<and>
     decode_string url_alphabet m = Some (hmac_sha256 (session_key sample_sessions) payload) \<and>
     split_on (CHR ''|'') payload = [''1'', i, e] \<and>
     parse_int 64 e \<noteq> None \<and> 5000000000 < time_unix (the (parse_int 64 e))"
  using session_needs_signature [OF sample_verify] by simp

text \<open>
  Every cookie value the server issues has three other spellings that open to the same session:
  the last character of the signature may be any of four, because the decoder ignores the two bits
  it carries beyond the 32 bytes of the MAC.
\<close>

theorem session_cookie_respelling:
  assumes "k < 4"
  shows "sessions_open ss now (respell url_alphabet k (sessions_sign ss sess)) =
           sessions_open ss now (sessions_sign ss sess) \<and>
         (k \<noteq> 0 \<longrightarrow> respell url_alphabet k (sessions_sign ss sess) \<noteq> sessions_sign ss sess)"
proof -
  define mac where "mac = sessions_mac ss (session_payload sess)"
  have "length mac mod 3 = 2" by (simp add: mac_def sessions_mac_def)
  note r = url.respell_encoded [OF this assms]
  have "respell url_alphabet k (sessions_sign ss sess) =
      encode_string url_alphabet (session_payload sess) @ ''.'' @
      respell url_alphabet k (encode_string url_alphabet mac)"
    using r(3) respell_append [of "encode_string url_alphabet mac" _ k
        "encode_string url_alphabet (session_payload sess) @ ''.''"]
    by (simp add: sessions_sign_def Let_def mac_def)
  moreover have "sessions_open ss now (encode_string url_alphabet (session_payload sess) @
        CHR ''.'' # respell url_alphabet k (encode_string url_alphabet mac)) =
      sessions_open ss now (encode_string url_alphabet (session_payload sess) @
        CHR ''.'' # encode_string url_alphabet mac)"
    by (rule sessions_open_mac_cong) (simp add: r(1))
  ultimately show ?thesis
    using r(2) by (simp add: sessions_sign_def Let_def mac_def)
qed

theorem session_cookie_respelling_witness:
  "sessions_open sample_sessions 0 (respell url_alphabet 1 sample_cookie) =
     sessions_open sample_sessions 0 sample_cookie \<and>
   respell url_alphabet 1 sample_cookie \<noteq> sample_cookie"
  using session_cookie_respelling [of 1 sample_sessions 0
      "\<lparr>issued_at = 0, expires_at = 0 + session_ttl sample_sessions\<rparr>"]
  by (simp add: sessions_issue_def sample_cookie_def)

end
