(* ===== verification/Limiter.thy ===== *)
theory Limiter
  imports Go_Http
begin

text \<open>
  \<^verbatim>\<open>internal/admin/ratelimit.go\<close>: the login limiter, a fixed window of attempts per address. Each
  operation runs under the limiter's mutex, so a history of the process is a list of operations;
  the instant of an attempt is the reading of the clock the code takes before it locks.
\<close>

section \<open>State and operations\<close>

record window =
  win_count :: int
  win_started :: go_time

record limiter =
  lim_limit :: int
  lim_window :: duration
  lim_windows :: "string \<rightharpoonup> window"

definition new_limiter :: "int \<Rightarrow> duration \<Rightarrow> limiter" where
  "new_limiter limit per = \<lparr>lim_limit = limit, lim_window = per, lim_windows = Map.empty\<rparr>"

text \<open>The loop that drops every window whose time is up.\<close>

definition drop_expired :: "duration \<Rightarrow> go_time \<Rightarrow> (string \<rightharpoonup> window) \<Rightarrow> (string \<rightharpoonup> window)" where
  "drop_expired len now ws =
     (\<lambda>k. case ws k of
            None \<Rightarrow> None
          | Some w \<Rightarrow> if now - win_started w \<ge> len then None else Some w)"

definition limiter_allow :: "limiter \<Rightarrow> go_time \<Rightarrow> string \<Rightarrow> bool \<times> limiter" where
  "limiter_allow l now key =
     (let ws = drop_expired (lim_window l) now (lim_windows l)
      in case ws key of
           None \<Rightarrow> (True, l\<lparr>lim_windows := ws(key \<mapsto> \<lparr>win_count = 1, win_started = now\<rparr>)\<rparr>)
         | Some w \<Rightarrow>
             let w' = w\<lparr>win_count := win_count w + 1\<rparr>
             in (win_count w' \<le> lim_limit l, l\<lparr>lim_windows := ws(key \<mapsto> w')\<rparr>))"

definition limiter_reset :: "limiter \<Rightarrow> string \<Rightarrow> limiter" where
  "limiter_reset l key = l\<lparr>lim_windows := (lim_windows l)(key := None)\<rparr>"

text \<open>
  \<^verbatim>\<open>net.SplitHostPort\<close>: the port follows the last colon; a host with colons of its own must be in
  brackets. \<^const>\<open>None\<close> is any of its errors.
\<close>

definition cut_last :: "char \<Rightarrow> string \<Rightarrow> (string \<times> string) option" where
  "cut_last c s = map_option (\<lambda>(b, a). (rev a, rev b)) (cut c (rev s))"

definition split_host_port :: "string \<Rightarrow> (string \<times> string) option" where
  "split_host_port s =
     (case cut_last (CHR '':'') s of
        None \<Rightarrow> None
      | Some (before, port) \<Rightarrow>
          if prefix ''['' s then
            (case cut (CHR '']'') s of
               None \<Rightarrow> None
             | Some (opened, rest) \<Rightarrow>
                 if rest = CHR '':'' # port \<and> CHR ''['' \<notin> set (tl s) \<and> CHR '']'' \<notin> set rest
                 then Some (tl opened, port) else None)
          else if CHR '':'' \<in> set before \<or> CHR ''['' \<in> set s \<or> CHR '']'' \<in> set s then None
          else Some (before, port))"

definition client_ip :: "request \<Rightarrow> string" where
  "client_ip r =
     (case split_host_port (remote_addr r) of None \<Rightarrow> remote_addr r | Some (host, _) \<Rightarrow> host)"

section \<open>Histories\<close>

datatype limiter_op = Attempt go_time string | Reset string

text \<open>The answers of a history: for each attempt its address and whether it may proceed.\<close>

fun limiter_run :: "limiter \<Rightarrow> limiter_op list \<Rightarrow> (string \<times> bool) list \<times> limiter" where
  "limiter_run l [] = ([], l)"
| "limiter_run l (Attempt t k # ops) =
     (let (ok, l') = limiter_allow l t k; (outs, l'') = limiter_run l' ops
      in ((k, ok) # outs, l''))"
| "limiter_run l (Reset k # ops) = limiter_run (limiter_reset l k) ops"

definition answers_for :: "string \<Rightarrow> (string \<times> bool) list \<Rightarrow> bool list" where
  "answers_for k outs = map snd (filter (\<lambda>(k', _). k' = k) outs)"

definition op_times :: "limiter_op list \<Rightarrow> go_time list" where
  "op_times ops = List.map_filter (\<lambda>op. case op of Attempt t _ \<Rightarrow> Some t | Reset _ \<Rightarrow> None) ops"

section \<open>What the limiter promises\<close>

text \<open>
  The abstract limiter watches one address and remembers the times of its attempts in the current
  window, which opens with the first of them.
\<close>

definition spec_attempt :: "duration \<Rightarrow> go_time list \<Rightarrow> go_time \<Rightarrow> go_time list" where
  "spec_attempt len ts t = (if ts = [] \<or> t - hd ts \<ge> len then [t] else ts @ [t])"

definition spec_allows :: "int \<Rightarrow> go_time list \<Rightarrow> bool" where
  "spec_allows limit ts \<longleftrightarrow> length ts = 1 \<or> int (length ts) \<le> limit"

fun spec_run :: "int \<Rightarrow> duration \<Rightarrow> string \<Rightarrow> go_time list \<Rightarrow> limiter_op list \<Rightarrow> bool list" where
  "spec_run limit len k ts [] = []"
| "spec_run limit len k ts (Attempt t k' # ops) =
     (if k' = k
      then (let ts' = spec_attempt len ts t in spec_allows limit ts' # spec_run limit len k ts' ops)
      else spec_run limit len k ts ops)"
| "spec_run limit len k ts (Reset k' # ops) =
     spec_run limit len k (if k' = k then [] else ts) ops"

section \<open>Refinement\<close>

lemma limiter_allow_fields [simp]:
  "lim_limit (snd (limiter_allow l t k)) = lim_limit l"
  "lim_window (snd (limiter_allow l t k)) = lim_window l"
  by (simp_all add: limiter_allow_def Let_def split: option.splits)

lemma limiter_reset_fields [simp]:
  "lim_limit (limiter_reset l k) = lim_limit l" "lim_window (limiter_reset l k) = lim_window l"
  by (simp_all add: limiter_reset_def)

text \<open>
  The concrete table describes the abstract window of address \<open>k\<close>; where it has no entry, there was
  no attempt or the window is over (another address's attempt swept it away).
\<close>

definition simulates :: "limiter \<Rightarrow> string \<Rightarrow> go_time list \<Rightarrow> go_time \<Rightarrow> bool" where
  "simulates l k ts now \<longleftrightarrow>
     (case lim_windows l k of
        Some w \<Rightarrow> ts \<noteq> [] \<and> win_count w = int (length ts) \<and> win_started w = hd ts
      | None \<Rightarrow> ts = [] \<or> now - hd ts \<ge> lim_window l)"

lemma simulates_attempt:
  assumes "simulates l k ts now" and "now \<le> t"
  shows "simulates (snd (limiter_allow l t k)) k (spec_attempt (lim_window l) ts t) t"
    and "fst (limiter_allow l t k) = spec_allows (lim_limit l) (spec_attempt (lim_window l) ts t)"
  using assms
  by (auto simp: simulates_def limiter_allow_def spec_attempt_def spec_allows_def drop_expired_def Let_def
      split: option.splits if_splits)

lemma simulates_other:
  assumes "simulates l k ts now" and "now \<le> t" and "k' \<noteq> k"
  shows "simulates (snd (limiter_allow l t k')) k ts t"
  using assms
  by (auto simp: simulates_def limiter_allow_def drop_expired_def Let_def
      split: option.splits if_splits)

lemma simulates_reset:
  "simulates l k ts now \<Longrightarrow> simulates (limiter_reset l k') k (if k' = k then [] else ts) now"
  by (simp add: simulates_def limiter_reset_def split: option.splits)

lemma limiter_run_simulates:
  assumes "simulates l k ts now" and "sorted (now # op_times ops)"
  shows "answers_for k (fst (limiter_run l ops)) = spec_run (lim_limit l) (lim_window l) k ts ops"
  using assms
proof (induction ops arbitrary: l ts now)
  case Nil
  then show ?case by (simp add: answers_for_def)
next
  case (Cons op ops)
  show ?case
  proof (cases op)
    case (Attempt t k')
    with Cons.prems(2) have t: "now \<le> t" "sorted (t # op_times ops)"
      by (auto simp: op_times_def List.map_filter_simps)
    let ?l = "snd (limiter_allow l t k')"
    show ?thesis
    proof (cases "k' = k")
      case True
      note sim = simulates_attempt [OF Cons.prems(1) t(1)]
      from Cons.IH [OF sim(1) t(2)] sim(2) True Attempt show ?thesis
        by (simp add: answers_for_def Let_def split_beta)
    next
      case False
      from Cons.IH [OF simulates_other [OF Cons.prems(1) t(1) False] t(2)] False Attempt
      show ?thesis by (simp add: answers_for_def Let_def split_beta)
    qed
  next
    case (Reset k')
    with Cons.prems(2) have "sorted (now # op_times ops)"
      by (simp add: op_times_def List.map_filter_simps)
    from Cons.IH [OF simulates_reset [OF Cons.prems(1)] this] Reset show ?thesis by simp
  qed
qed

section \<open>How many attempts get through\<close>

text \<open>The times of the attempts of \<open>k\<close> that were allowed to proceed.\<close>

definition attempts_of :: "string \<Rightarrow> limiter_op list \<Rightarrow> go_time list" where
  "attempts_of k ops =
     List.map_filter (\<lambda>op. case op of Attempt t k' \<Rightarrow> if k' = k then Some t else None | Reset _ \<Rightarrow> None) ops"

definition allowed_times :: "string \<Rightarrow> limiter_op list \<Rightarrow> bool list \<Rightarrow> go_time list" where
  "allowed_times k ops answers = map fst (filter snd (zip (attempts_of k ops) answers))"

definition within :: "go_time \<Rightarrow> duration \<Rightarrow> go_time list \<Rightarrow> nat" where
  "within a len ts = length (filter (\<lambda>t. a \<le> t \<and> t < a + len) ts)"

definition budget :: "int \<Rightarrow> go_time list \<Rightarrow> int" where
  "budget limit ts = limit - min limit (int (length ts))"

definition allowed_within :: "int \<Rightarrow> duration \<Rightarrow> string \<Rightarrow> go_time \<Rightarrow> go_time list \<Rightarrow> limiter_op list \<Rightarrow> int" where
  "allowed_within limit len k a ts ops =
     int (within a len (allowed_times k ops (spec_run limit len k ts ops)))"

lemma allowed_within_simps:
  "allowed_within limit len k a ts [] = 0"
  "allowed_within limit len k a ts (Reset k' # ops) =
     allowed_within limit len k a (if k' = k then [] else ts) ops"
  "k' \<noteq> k \<Longrightarrow> allowed_within limit len k a ts (Attempt t k' # ops) = allowed_within limit len k a ts ops"
  "allowed_within limit len k a ts (Attempt t k # ops) =
     (if spec_allows limit (spec_attempt len ts t) \<and> a \<le> t \<and> t < a + len then 1 else 0) +
     allowed_within limit len k a (spec_attempt len ts t) ops"
  by (simp_all add: allowed_within_def allowed_times_def attempts_of_def within_def
      List.map_filter_simps Let_def)

lemma op_times_simps:
  "op_times [] = []" "op_times (Attempt t k # ops) = t # op_times ops"
  "op_times (Reset k # ops) = op_times ops"
  by (simp_all add: op_times_def List.map_filter_simps)

text \<open>What one more attempt costs.\<close>

lemma budget_attempt_inside:
  assumes "ts \<noteq> []" and "t - hd ts < len" and "1 \<le> limit"
  shows "(if spec_allows limit (spec_attempt len ts t) then 1 else 0) +
         budget limit (spec_attempt len ts t) \<le> budget limit ts"
  using assms by (cases ts) (auto simp: spec_allows_def spec_attempt_def budget_def)

lemma budget_attempt_fresh:
  assumes "ts = [] \<or> t - hd ts \<ge> len" and "1 \<le> limit"
  shows "spec_attempt len ts t = [t]" and "1 + budget limit [t] = limit" and "0 \<le> budget limit ts"
    and "budget limit [t] \<le> limit"
  using assms by (auto simp: spec_attempt_def budget_def)

text \<open>Past the end of the interval nothing counts; in a window that opened inside it, at most what is left.\<close>

lemma spec_after_interval:
  assumes "sorted (now # op_times ops)" and "a + len \<le> now"
  shows "allowed_within limit len k a ts ops = 0"
  using assms
proof (induction ops arbitrary: now ts)
  case (Cons op ops)
  show ?case
  proof (cases op)
    case (Attempt t k')
    with Cons.prems have "sorted (t # op_times ops)" "a + len \<le> t"
      by (auto simp: op_times_simps)
    note IH = Cons.IH [OF this]
    from \<open>a + len \<le> t\<close> show ?thesis
      by (cases "k' = k") (simp_all add: Attempt allowed_within_simps IH)
  next
    case (Reset k')
    with Cons.prems have "sorted (now # op_times ops)" by (simp add: op_times_simps)
    from Cons.IH [OF this Cons.prems(2)] Reset show ?thesis by (simp add: allowed_within_simps)
  qed
qed (simp add: allowed_within_simps)

lemma spec_window_inside:
  assumes "sorted (now # op_times ops)" and "ts \<noteq> []" and "a \<le> hd ts" and "1 \<le> limit"
    and "Reset k \<notin> set ops"
  shows "allowed_within limit len k a ts ops \<le> budget limit ts"
  using assms
proof (induction ops arbitrary: now ts)
  case Nil
  then show ?case by (simp add: allowed_within_simps budget_def)
next
  case (Cons op ops)
  show ?case
  proof (cases op)
    case (Attempt t k')
    with Cons.prems have t: "sorted (t # op_times ops)" "Reset k \<notin> set ops"
      by (auto simp: op_times_simps)
    consider (other) "k' \<noteq> k" | (late) "k' = k" "t - hd ts \<ge> len" | (inside) "k' = k" "t - hd ts < len"
      by linarith
    then show ?thesis
    proof cases
      case other
      with Cons.IH [OF t(1) Cons.prems(2-4) t(2)] Attempt show ?thesis
        by (simp add: allowed_within_simps)
    next
      case late
      then have end_t: "a + len \<le> t" using Cons.prems(3) by simp
      with spec_after_interval [OF t(1) end_t] late Attempt show ?thesis
        by (simp add: allowed_within_simps budget_def)
    next
      case inside
      let ?ts = "spec_attempt len ts t"
      have "?ts \<noteq> []" "a \<le> hd ?ts"
        using Cons.prems(2,3) inside by (auto simp: spec_attempt_def)
      from Cons.IH [OF t(1) this Cons.prems(4) t(2)] budget_attempt_inside [OF Cons.prems(2) inside(2) Cons.prems(4)]
      show ?thesis using inside Attempt
        by (auto simp: allowed_within_simps split: if_splits)
    qed
  next
    case (Reset k')
    with Cons.prems have "sorted (now # op_times ops)" "k' \<noteq> k" "Reset k \<notin> set ops"
      by (auto simp: op_times_simps)
    with Cons.IH [OF this(1) Cons.prems(2-4) this(3)] Reset show ?thesis
      by (simp add: allowed_within_simps)
  qed
qed

lemma spec_window_any:
  assumes "sorted (now # op_times ops)" and "1 \<le> limit" and "Reset k \<notin> set ops" and "a \<le> now"
  shows "allowed_within limit len k a ts ops \<le> budget limit ts + limit"
  using assms
proof (induction ops arbitrary: now ts)
  case Nil
  then show ?case by (simp add: allowed_within_simps budget_def)
next
  case (Cons op ops)
  show ?case
  proof (cases op)
    case (Attempt t k')
    with Cons.prems have t: "sorted (t # op_times ops)" "Reset k \<notin> set ops" "a \<le> t"
      by (auto simp: op_times_simps)
    consider (other) "k' \<noteq> k" | (fresh) "k' = k" "ts = [] \<or> t - hd ts \<ge> len"
      | (inside) "k' = k" "ts \<noteq> []" "t - hd ts < len"
      by linarith
    then show ?thesis
    proof cases
      case other
      with Cons.IH [OF t(1) Cons.prems(2) t(2,3)] Attempt show ?thesis
        by (simp add: allowed_within_simps)
    next
      case fresh
      note f = budget_attempt_fresh [OF fresh(2) Cons.prems(2)]
      have "allowed_within limit len k a [t] ops \<le> budget limit [t]"
        using spec_window_inside [OF t(1) _ _ Cons.prems(2) t(2), of "[t]" a len] t(3) by simp
      with f fresh Attempt show ?thesis by (simp add: allowed_within_simps)
    next
      case inside
      from Cons.IH [OF t(1) Cons.prems(2) t(2,3), of "spec_attempt len ts t"]
        budget_attempt_inside [OF inside(2,3) Cons.prems(2)]
      show ?thesis using inside Attempt
        by (auto simp: allowed_within_simps split: if_splits)
    qed
  next
    case (Reset k')
    with Cons.prems have "sorted (now # op_times ops)" "k' \<noteq> k" "Reset k \<notin> set ops"
      by (auto simp: op_times_simps)
    with Cons.IH [OF this(1) Cons.prems(2) this(3) Cons.prems(4)] Reset show ?thesis
      by (simp add: allowed_within_simps)
  qed
qed

lemma spec_total:
  assumes "sorted (op_times ops)" and "1 \<le> limit" and "Reset k \<notin> set ops"
  shows "allowed_within limit len k a ts ops \<le> 2 * limit"
  using assms
proof (induction ops arbitrary: ts)
  case Nil
  then show ?case by (simp add: allowed_within_simps)
next
  case (Cons op ops)
  show ?case
  proof (cases op)
    case (Attempt t k')
    show ?thesis
    proof (cases "a \<le> t")
      case True
      have "sorted (t # op_times (op # ops))"
        using Cons.prems(1) Attempt by (simp add: op_times_simps)
      from spec_window_any [OF this Cons.prems(2,3) True]
      have "allowed_within limit len k a ts (op # ops) \<le> budget limit ts + limit" .
      then show ?thesis by (simp add: budget_def split: if_splits) (use Cons.prems(2) in linarith)
    next
      case False
      have "sorted (op_times ops)" "Reset k \<notin> set ops"
        using Cons.prems Attempt by (auto simp: op_times_simps)
      with Cons.IH Cons.prems(2) False Attempt show ?thesis
        by (cases "k' = k") (simp_all add: allowed_within_simps)
    qed
  next
    case (Reset k')
    with Cons show ?thesis by (auto simp: op_times_simps allowed_within_simps)
  qed
qed

section \<open>Properties\<close>

text \<open>
  C10: whatever the other addresses do, the limiter answers an address as the abstract limiter that
  watches that address alone: the shared table, and the sweeping of expired windows on every
  attempt, are invisible to it. (The clock readings are in the order of the operations.)
\<close>

theorem limiter_refines_history:
  assumes "sorted (op_times ops)"
  shows "answers_for k (fst (limiter_run (new_limiter limit per) ops)) = spec_run limit per k [] ops"
proof -
  have "\<exists>now. sorted (now # op_times ops)"
    using assms by (cases "op_times ops") (auto intro: exI [of _ "hd (op_times ops)"] exI [of _ 0])
  then obtain now where "sorted (now # op_times ops)" ..
  moreover have "simulates (new_limiter limit per) k [] now"
    by (simp add: simulates_def new_limiter_def)
  ultimately show ?thesis
    using limiter_run_simulates [of "new_limiter limit per" k "[]" now ops]
    by (simp add: new_limiter_def)
qed

definition sample_ops :: "limiter_op list" where
  "sample_ops = [Attempt 0 ''a'', Attempt 5 ''b'', Attempt 6 ''a'', Attempt 7 ''a'', Attempt 8 ''a'',
     Attempt 100 ''b'', Attempt 101 ''a'']"

theorem limiter_refines_history_witness:
  "answers_for ''a'' (fst (limiter_run (new_limiter 3 60) sample_ops)) = [True, True, True, False, True]"
  using limiter_refines_history [of sample_ops "''a''" 3 60]
  by (simp add: sample_ops_def op_times_simps spec_attempt_def spec_allows_def)

text \<open>
  C11: an address that never logs in successfully gets at most twice the configured number of
  attempts through in any interval as long as the window, whatever else happens; a fixed window
  cannot promise the number itself, since an interval may overlap two windows.
\<close>

theorem limiter_bounds_attempts:
  assumes "sorted (op_times ops)" and "1 \<le> limit" and "Reset k \<notin> set ops"
  shows "int (within a per (allowed_times k ops
           (answers_for k (fst (limiter_run (new_limiter limit per) ops))))) \<le> 2 * limit"
  using spec_total [OF assms, of per a "[]"] limiter_run_simulates
    [of "new_limiter limit per" k "[]" "if op_times ops = [] then 0 else hd (op_times ops)" ops] assms(1)
  by (cases "op_times ops")
    (simp_all add: allowed_within_def simulates_def new_limiter_def)

theorem limiter_bounds_attempts_witness:
  "int (within 0 60 (allowed_times ''a'' sample_ops
     (answers_for ''a'' (fst (limiter_run (new_limiter 3 60) sample_ops))))) \<le> 6"
  using limiter_bounds_attempts [of sample_ops 3 "''a''" 0 60]
  by (simp add: sample_ops_def op_times_simps)

text \<open>
  The table does not grow with the number of addresses ever seen: after an attempt every entry is
  a window that is still open.
\<close>

theorem limiter_keeps_open_windows_only:
  assumes "0 < lim_window l" and "lim_windows (snd (limiter_allow l now key)) k = Some w"
  shows "now - win_started w < lim_window l"
  using assms
  by (auto simp: limiter_allow_def drop_expired_def Let_def split: option.splits if_splits)

theorem limiter_keeps_open_windows_only_witness:
  "7 - win_started \<lparr>win_count = 1, win_started = (7::int)\<rparr> < lim_window (new_limiter 3 60)"
  by (rule limiter_keeps_open_windows_only [of _ _ "''a''" "''a''"])
    (simp_all add: new_limiter_def limiter_allow_def drop_expired_def)

lemma split_host_port_plain:
  assumes "set host \<inter> {CHR '':'', CHR ''['', CHR '']''} = {}"
    and "set port \<inter> {CHR '':'', CHR ''['', CHR '']''} = {}"
  shows "split_host_port (host @ CHR '':'' # port) = Some (host, port)"
proof -
  have "cut_last (CHR '':'') (host @ CHR '':'' # port) = Some (host, port)"
    using assms cut_found [of "CHR '':''" "rev port" "rev host"] by (simp add: cut_last_def)
  moreover have "\<not> prefix ''['' (host @ CHR '':'' # port)"
    using assms by (cases host) auto
  ultimately show ?thesis using assms by (auto simp: split_host_port_def)
qed

lemma split_host_port_bracketed:
  assumes "set host \<inter> {CHR ''['', CHR '']''} = {}"
    and "set port \<inter> {CHR '':'', CHR ''['', CHR '']''} = {}"
  shows "split_host_port (''['' @ host @ '']:'' @ port) = Some (host, port)"
proof -
  have "cut_last (CHR '':'') (CHR ''['' # host @ CHR '']'' # CHR '':'' # port) =
      Some (CHR ''['' # host @ '']'', port)"
    using assms cut_found [of "CHR '':''" "rev port" "CHR '']'' # rev host @ ''[''"]
    by (simp add: cut_last_def)
  moreover have "cut (CHR '']'') (CHR ''['' # host @ CHR '']'' # CHR '':'' # port) =
      Some (CHR ''['' # host, CHR '':'' # port)"
    using assms cut_found [of "CHR '']''" "CHR ''['' # host" "CHR '':'' # port"] by simp
  ultimately show ?thesis using assms by (auto simp: split_host_port_def)
qed

text \<open>
  Attempts are counted per host: two connections from one host share a key whatever their ports,
  for a plain host and for a bracketed IPv6 address.
\<close>

theorem client_ip_ignores_port:
  assumes "set port \<inter> {CHR '':'', CHR ''['', CHR '']''} = {}"
    and "set host \<inter> {CHR ''['', CHR '']''} = {}"
  shows "(CHR '':'' \<notin> set host \<longrightarrow> client_ip (r\<lparr>remote_addr := host @ '':'' @ port\<rparr>) = host) \<and>
         client_ip (r\<lparr>remote_addr := ''['' @ host @ '']:'' @ port\<rparr>) = host"
  using assms split_host_port_plain [of host port] split_host_port_bracketed [of host port]
  by (auto simp: client_ip_def)

theorem client_ip_ignores_port_witness:
  "client_ip (sample_request\<lparr>remote_addr := ''192.0.2.1:4711''\<rparr>) = ''192.0.2.1'' \<and>
   client_ip (sample_request\<lparr>remote_addr := ''[2001:db8::1]:4711''\<rparr>) = ''2001:db8::1''"
  using client_ip_ignores_port [of "''4711''" "''192.0.2.1''" sample_request]
    client_ip_ignores_port [of "''4711''" "''2001:db8::1''" sample_request]
  by simp

end
