(* ===== verification/Password.thy ===== *)
theory Password
  imports Go_Strconv Go_Base64 "HOL-Library.Word"
begin

text \<open>
  \<^verbatim>\<open>internal/admin/password.go\<close>: the encoded argon2id hash. The hash function itself,
  \<^verbatim>\<open>argon2.IDKey\<close> of \<^verbatim>\<open>golang.org/x/crypto\<close>, is a parameter of the operations; \<^const>\<open>None\<close> is a call
  that panics. So is the outcome of reading the random salt.
\<close>

section \<open>Types\<close>

text \<open>Password, salt, time, memory, threads and key length, in the order of the Go function.\<close>

type_synonym idkey =
  "bytes \<Rightarrow> bytes \<Rightarrow> 32 word \<Rightarrow> 32 word \<Rightarrow> 8 word \<Rightarrow> 32 word \<Rightarrow> bytes option"

datatype password_error = ErrBadHash | ErrSalt | PanicIDKey

record argon2_hash =
  ah_memory :: "32 word"
  ah_time :: "32 word"
  ah_threads :: "8 word"
  ah_salt :: bytes
  ah_key :: bytes

record argon2_params =
  ap_time :: "32 word"
  ap_memory :: "32 word"
  ap_threads :: "8 word"
  ap_key_len :: "32 word"
  ap_salt_len :: nat

definition argon2Params :: argon2_params where
  "argon2Params =
     \<lparr>ap_time = 3, ap_memory = 64 * 1024, ap_threads = 4, ap_key_len = 32, ap_salt_len = 16\<rparr>"

text \<open>\<^verbatim>\<open>argon2.Version\<close>, 0x13\<close>

definition argon2_version :: int where
  "argon2_version = 19"

section \<open>Operations\<close>

text \<open>The \<^verbatim>\<open>Sprintf\<close> of \<^verbatim>\<open>HashPassword\<close>, for any parameters.\<close>

definition encode_hash :: "argon2_hash \<Rightarrow> string" where
  "encode_hash h =
     ''$argon2id$v='' @ show_int argon2_version @
     ''$m='' @ show_nat (unat (ah_memory h)) @
     '',t='' @ show_nat (unat (ah_time h)) @
     '',p='' @ show_nat (unat (ah_threads h)) @
     ''$'' @ encode_string std_alphabet (ah_salt h) @
     ''$'' @ encode_string std_alphabet (ah_key h)"

text \<open>\<open>rand\<close> is what \<^verbatim>\<open>rand.Read\<close> put into the salt, or its error.\<close>

definition hash_password :: "idkey \<Rightarrow> unit + bytes \<Rightarrow> string \<Rightarrow> password_error + string" where
  "hash_password idkey rand password =
     (case rand of
        Inl _ \<Rightarrow> Inl ErrSalt
      | Inr salt \<Rightarrow>
     (case idkey password salt (ap_time argon2Params) (ap_memory argon2Params)
             (ap_threads argon2Params) (ap_key_len argon2Params) of
        None \<Rightarrow> Inl PanicIDKey
      | Some key \<Rightarrow>
          Inr (encode_hash
            \<lparr>ah_memory = ap_memory argon2Params, ah_time = ap_time argon2Params,
             ah_threads = ap_threads argon2Params, ah_salt = salt, ah_key = key\<rparr>)))"

definition version_format :: "scan_item list" where
  "version_format = [Literal CHR ''v'', Literal CHR ''='', IntVar]"

definition params_format :: "scan_item list" where
  "params_format =
     [Literal CHR ''m'', Literal CHR ''='', UintVar 32, Literal CHR '','',
      Literal CHR ''t'', Literal CHR ''='', UintVar 32, Literal CHR '','',
      Literal CHR ''p'', Literal CHR ''='', UintVar 8]"

definition parse_hash :: "string \<Rightarrow> password_error + argon2_hash" where
  "parse_hash encoded =
     (case split_on (CHR ''$'') encoded of
        [p0, p1, p2, p3, p4, p5] \<Rightarrow>
          if p0 \<noteq> [] \<or> p1 \<noteq> ''argon2id'' then Inl ErrBadHash
          else if sscanf version_format p2 \<noteq> Some [argon2_version] then Inl ErrBadHash
          else (case sscanf params_format p3 of
            Some [m, t, p] \<Rightarrow>
              (case decode_string std_alphabet p4 of
                 None \<Rightarrow> Inl ErrBadHash
               | Some salt \<Rightarrow>
              (case decode_string std_alphabet p5 of
                 None \<Rightarrow> Inl ErrBadHash
               | Some key \<Rightarrow>
                   if key = [] then Inl ErrBadHash
                   else Inr \<lparr>ah_memory = word_of_int m, ah_time = word_of_int t,
                             ah_threads = word_of_int p, ah_salt = salt, ah_key = key\<rparr>))
          | _ \<Rightarrow> Inl ErrBadHash)
      | _ \<Rightarrow> Inl ErrBadHash)"

text \<open>\<^verbatim>\<open>subtle.ConstantTimeCompare\<close> is 1 exactly when both slices hold the same bytes.\<close>

definition verify_password :: "idkey \<Rightarrow> string \<Rightarrow> string \<Rightarrow> password_error + bool" where
  "verify_password idkey encoded password =
     (case parse_hash encoded of
        Inl e \<Rightarrow> Inl e
      | Inr h \<Rightarrow>
     (case idkey password (ah_salt h) (ah_time h) (ah_memory h) (ah_threads h)
             (word_of_nat (length (ah_key h))) of
        None \<Rightarrow> Inl PanicIDKey
      | Some got \<Rightarrow> Inr (got = ah_key h)))"

section \<open>Lemmas\<close>

text \<open>What the code relies on of \<^verbatim>\<open>argon2.IDKey\<close>: it returns as many bytes as it is asked for.\<close>

definition idkey_returns_key_len :: "idkey \<Rightarrow> bool" where
  "idkey_returns_key_len idkey \<longleftrightarrow>
     (\<forall>pw salt t m p n key. idkey pw salt t m p n = Some key \<longrightarrow> length key = unat n)"

lemma dollar_not_in_std [simp]: "CHR ''$'' \<notin> set (encode_string std_alphabet bs)"
  by (rule std.encode_avoids) (simp add: std_alphabet_def)

lemma dollar_not_in_show [simp]: "CHR ''$'' \<notin> set (show_nat n)"
  using show_nat_set [of "CHR ''$''" n] by (auto simp: is_digit_def)

lemma show_19: "show_nat 19 = ''19''"
  by code_simp

lemma show_version: "show_int argon2_version = ''19''"
  by (simp add: argon2_version_def show_int_def show_19)

lemma scan_params:
  "sscanf params_format (''m='' @ show_nat (unat (m :: 32 word)) @ '',t='' @ show_nat (unat (t :: 32 word)) @
     '',p='' @ show_nat (unat (p :: 8 word))) = Some [int (unat m), int (unat t), int (unat p)]"
proof -
  have m: "unat m < 2 ^ 32" and t: "unat t < 2 ^ 32" and p: "unat p < 2 ^ 8"
    using unsigned_less [of m, where 'a = nat] unsigned_less [of t, where 'a = nat]
      unsigned_less [of p, where 'a = nat] by simp_all
  have comma: "\<not> is_digit (hd (CHR '','' # r))" for r by (simp add: is_digit_def)
  show ?thesis
    using sscanf_uint_show [OF p, of "[]" "[]"]
    by (simp add: params_format_def sscanf_uint_show [OF m disjI2, OF comma]
        sscanf_uint_show [OF t disjI2, OF comma] del: sscanf.simps(4))
qed

lemma scan_version: "sscanf version_format ''v=19'' = Some [argon2_version]"
proof -
  have "sscanf [IntVar] (show_nat 19 @ []) = Some [19]"
    by (subst sscanf_int_show) simp_all
  then show ?thesis by (simp add: show_19 version_format_def argon2_version_def del: sscanf.simps(3))
qed

lemma parse_encode:
  assumes "ah_key h \<noteq> []"
  shows "parse_hash (encode_hash h) = Inr h"
proof -
  have p3: "split_on (CHR ''$'') (''m='' @ show_nat (unat (ah_memory h)) @ '',t='' @ show_nat (unat (ah_time h)) @
      '',p='' @ show_nat (unat (ah_threads h)) @ CHR ''$'' # rest) =
     (''m='' @ show_nat (unat (ah_memory h)) @ '',t='' @ show_nat (unat (ah_time h)) @
      '',p='' @ show_nat (unat (ah_threads h))) # split_on (CHR ''$'') rest" for rest
    using split_on_field [of "CHR ''$''" "''m='' @ show_nat (unat (ah_memory h)) @ '',t='' @
      show_nat (unat (ah_time h)) @ '',p='' @ show_nat (unat (ah_threads h))" rest]
    by simp
  have "split_on (CHR ''$'') (encode_hash h) =
    [[], ''argon2id'', ''v=19'',
     ''m='' @ show_nat (unat (ah_memory h)) @ '',t='' @ show_nat (unat (ah_time h)) @
       '',p='' @ show_nat (unat (ah_threads h)),
     encode_string std_alphabet (ah_salt h), encode_string std_alphabet (ah_key h)]"
    using p3 by (simp add: encode_hash_def show_version split_on_field split_on_absent)
  then show ?thesis
    using scan_params [of "ah_memory h" "ah_time h" "ah_threads h"] assms
    by (simp add: parse_hash_def scan_version)
qed

section \<open>Properties\<close>

text \<open>
  Every hash the format can express is read back with its own parameters, salt and key: memory,
  time and threads come from the string, over their whole range, and never from the parameters
  new hashes are made with.
\<close>

theorem parse_encoded_hash:
  assumes "ah_key h \<noteq> []"
  shows "parse_hash (encode_hash h) = Inr h"
  using assms by (rule parse_encode)

theorem parse_encoded_hash_witness:
  "parse_hash (encode_hash
     \<lparr>ah_memory = 19456, ah_time = 2, ah_threads = 1, ah_salt = ''salt'', ah_key = ''key''\<rparr>) =
   Inr \<lparr>ah_memory = 19456, ah_time = 2, ah_threads = 1, ah_salt = ''salt'', ah_key = ''key''\<rparr>"
  by (rule parse_encoded_hash) simp

lemma verify_hashed:
  assumes "idkey_returns_key_len idkey"
    and "hash_password idkey (Inr salt) pw = Inr encoded"
  shows "verify_password idkey encoded pw = Inr True \<and>
    verify_password idkey encoded pw' =
      (case idkey pw' salt 3 65536 4 32 of
         None \<Rightarrow> Inl PanicIDKey
       | Some key \<Rightarrow> Inr (Some key = idkey pw salt 3 65536 4 32))"
proof -
  from assms(2) obtain key where key: "idkey pw salt 3 65536 4 32 = Some key"
    and enc: "encoded = encode_hash
      \<lparr>ah_memory = 65536, ah_time = 3, ah_threads = 4, ah_salt = salt, ah_key = key\<rparr>"
    by (auto simp: hash_password_def argon2Params_def split: option.splits)
  have len: "length key = 32"
    using assms(1) key by (auto simp: idkey_returns_key_len_def)
  then have "parse_hash encoded = Inr
      \<lparr>ah_memory = 65536, ah_time = 3, ah_threads = 4, ah_salt = salt, ah_key = key\<rparr>"
    unfolding enc by (intro parse_encode) auto
  then show ?thesis
    by (auto simp: verify_password_def len key split: option.splits)
qed

text \<open>
  C12: a hash made by \<^verbatim>\<open>HashPassword\<close> verifies the password it was made from, and verifies another
  password exactly when argon2id maps it to the same key under the same salt.
\<close>

theorem verify_hashed_password:
  assumes "idkey_returns_key_len idkey"
    and "hash_password idkey (Inr salt) pw = Inr encoded"
  shows "verify_password idkey encoded pw = Inr True \<and>
    verify_password idkey encoded pw' =
      (case idkey pw' salt 3 65536 4 32 of
         None \<Rightarrow> Inl PanicIDKey
       | Some key \<Rightarrow> Inr (Some key = idkey pw salt 3 65536 4 32))"
  using assms by (rule verify_hashed)

definition sample_idkey :: idkey where
  "sample_idkey pw salt t m p n = Some (take (unat n) (pw @ salt @ replicate (unat n) CHR 0x00))"

lemma sample_idkey_len: "idkey_returns_key_len sample_idkey"
  by (auto simp: idkey_returns_key_len_def sample_idkey_def)

theorem verify_hashed_password_witness:
  "\<exists>encoded. hash_password sample_idkey (Inr ''NaCl'') ''secret'' = Inr encoded \<and>
     verify_password sample_idkey encoded ''secret'' = Inr True \<and>
     verify_password sample_idkey encoded ''Secret'' = Inr False"
proof -
  obtain encoded where e: "hash_password sample_idkey (Inr ''NaCl'') ''secret'' = Inr encoded"
    by (simp add: hash_password_def sample_idkey_def)
  from verify_hashed_password [OF sample_idkey_len e, of "''Secret''"] e show ?thesis
    by (auto simp: sample_idkey_def)
qed

end
