(* ===== verification/Store.thy ===== *)
theory Store
  imports Go_Strings Content "HOL-Library.Option_ord" "HOL-Library.Product_Lexorder"
begin

text \<open>
  \<^verbatim>\<open>internal/content/store.go\<close>: the queries the store builds and the operations it offers. The SQL
  fragments of the source are an expression type with SQL's three-valued logic; the
  \<^verbatim>\<open>*pop.Connection\<close> that runs them is a parameter, and what is relied on of it is the locale
  \<open>pop_connection\<close>.
\<close>

section \<open>Rows\<close>

text \<open>Both tables have the same columns; the \<^verbatim>\<open>db\<close> tags of the two structs name them.\<close>

record row =
  r_id :: uuid
  r_slug :: string
  r_title :: string
  r_body :: string
  r_published_at :: "go_time option"
  r_created_at :: go_time
  r_updated_at :: go_time

definition row_of_post :: "post \<Rightarrow> row" where
  "row_of_post p =
     \<lparr>r_id = post_id p, r_slug = post_slug p, r_title = post_title p, r_body = post_body p,
      r_published_at = post_published_at p, r_created_at = post_created_at p,
      r_updated_at = post_updated_at p\<rparr>"

definition post_of_row :: "row \<Rightarrow> post" where
  "post_of_row r =
     \<lparr>post_id = r_id r, post_slug = r_slug r, post_title = r_title r, post_body = r_body r,
      post_published_at = r_published_at r, post_created_at = r_created_at r,
      post_updated_at = r_updated_at r\<rparr>"

definition row_of_page :: "page \<Rightarrow> row" where
  "row_of_page p =
     \<lparr>r_id = page_id p, r_slug = page_slug p, r_title = page_title p, r_body = page_body p,
      r_published_at = page_published_at p, r_created_at = page_created_at p,
      r_updated_at = page_updated_at p\<rparr>"

definition page_of_row :: "row \<Rightarrow> page" where
  "page_of_row r =
     \<lparr>page_id = r_id r, page_slug = r_slug r, page_title = r_title r, page_body = r_body r,
      page_published_at = r_published_at r, page_created_at = r_created_at r,
      page_updated_at = r_updated_at r\<rparr>"

lemma row_post_inverse [simp]: "row_of_post (post_of_row r) = r" "post_of_row (row_of_post p) = p"
  by (simp_all add: row_of_post_def post_of_row_def)

lemma row_page_inverse [simp]: "row_of_page (page_of_row r) = r" "page_of_row (row_of_page g) = g"
  by (simp_all add: row_of_page_def page_of_row_def)

section \<open>SQL\<close>

datatype expr =
    PublishedAtNotNull
  | PublishedAtLeNow
  | SlugEq string
  | IdEq uuid
  | TitleILike string
  | SlugILike string
  | And expr expr
  | Or expr expr

text \<open>\<^verbatim>\<open>LIKE\<close> with the backslash as escape character.\<close>

fun like :: "string \<Rightarrow> string \<Rightarrow> bool" where
  "like [] s = (s = [])"
| "like (c # p) s =
     (if c = CHR 0x5C then
        (case p of
           [] \<Rightarrow> False
         | d # p' \<Rightarrow> (case s of [] \<Rightarrow> False | x # s' \<Rightarrow> x = d \<and> like p' s'))
      else if c = CHR ''%'' then list_ex (\<lambda>n. like p (drop n s)) [0..<Suc (length s)]
      else (case s of [] \<Rightarrow> False | x # s' \<Rightarrow> (c = CHR ''_'' \<or> x = c) \<and> like p s'))"

text \<open>
  Conjunction and disjunction of SQL. \<open>lower\<close> is the case folding of \<^verbatim>\<open>ILIKE\<close>, which depends on the
  database's locale; \<open>now\<close> is the value of \<^verbatim>\<open>now()\<close>.
\<close>

fun sql_and :: "bool option \<Rightarrow> bool option \<Rightarrow> bool option" where
  "sql_and (Some False) b = Some False"
| "sql_and a (Some False) = Some False"
| "sql_and (Some True) (Some True) = Some True"
| "sql_and a b = None"

fun sql_or :: "bool option \<Rightarrow> bool option \<Rightarrow> bool option" where
  "sql_or (Some True) b = Some True"
| "sql_or a (Some True) = Some True"
| "sql_or (Some False) (Some False) = Some False"
| "sql_or a b = None"

fun eval :: "(string \<Rightarrow> string) \<Rightarrow> go_time \<Rightarrow> row \<Rightarrow> expr \<Rightarrow> bool option" where
  "eval lower now r PublishedAtNotNull = Some (r_published_at r \<noteq> None)"
| "eval lower now r PublishedAtLeNow = map_option (\<lambda>t. t \<le> now) (r_published_at r)"
| "eval lower now r (SlugEq s) = Some (r_slug r = s)"
| "eval lower now r (IdEq i) = Some (r_id r = i)"
| "eval lower now r (TitleILike p) = Some (like (lower p) (lower (r_title r)))"
| "eval lower now r (SlugILike p) = Some (like (lower p) (lower (r_slug r)))"
| "eval lower now r (And a b) = sql_and (eval lower now r a) (eval lower now r b)"
| "eval lower now r (Or a b) = sql_or (eval lower now r a) (eval lower now r b)"

text \<open>\<^verbatim>\<open>published_at desc nulls first, created_at desc\<close> and \<^verbatim>\<open>slug asc\<close>\<close>

datatype order = NewestFirst | SlugAsc

text \<open>A descending copy of an order, so that both are ascending orders of a key.\<close>

datatype 'a desc = Desc (undesc: 'a)

instantiation desc :: (linorder) linorder
begin

definition less_eq_desc :: "'a desc \<Rightarrow> 'a desc \<Rightarrow> bool" where
  "less_eq_desc a b \<longleftrightarrow> undesc b \<le> undesc a"

definition less_desc :: "'a desc \<Rightarrow> 'a desc \<Rightarrow> bool" where
  "less_desc a b \<longleftrightarrow> undesc b < undesc a"

instance
  by standard (auto simp: less_eq_desc_def less_desc_def intro: desc.expand)

end

definition newest_key :: "row \<Rightarrow> go_time desc option \<times> go_time desc" where
  "newest_key r = (map_option Desc (r_published_at r), Desc (r_created_at r))"

text \<open>The order of slugs is the collation of the database.\<close>

fun order_le :: "(string \<Rightarrow> string \<Rightarrow> bool) \<Rightarrow> order \<Rightarrow> row \<Rightarrow> row \<Rightarrow> bool" where
  "order_le slug_le NewestFirst a b \<longleftrightarrow> newest_key a \<le> newest_key b"
| "order_le slug_le SlugAsc a b \<longleftrightarrow> slug_le (r_slug a) (r_slug b)"

record sql_query =
  q_where :: "expr list"
  q_order :: "order option"
  q_page :: "(int \<times> int) option"

definition satisfies :: "(string \<Rightarrow> string) \<Rightarrow> go_time \<Rightarrow> sql_query \<Rightarrow> row \<Rightarrow> bool" where
  "satisfies lower now q r \<longleftrightarrow> list_all (\<lambda>e. eval lower now r e = Some True) (q_where q)"

text \<open>\<^verbatim>\<open>LIMIT perPage OFFSET (page - 1) * perPage\<close>\<close>

definition page_of :: "(int \<times> int) option \<Rightarrow> 'a list \<Rightarrow> 'a list" where
  "page_of pg xs =
     (case pg of
        None \<Rightarrow> xs
      | Some (n, per) \<Rightarrow> take (nat per) (drop (nat ((n - 1) * per)) xs))"

section \<open>Building queries\<close>

text \<open>\<^verbatim>\<open>c.Q()\<close>, \<^verbatim>\<open>q.Where\<close>, \<^verbatim>\<open>q.Order\<close> and \<^verbatim>\<open>q.Paginate\<close>\<close>

definition q_empty :: sql_query where
  "q_empty = \<lparr>q_where = [], q_order = None, q_page = None\<rparr>"

definition q_and_where :: "expr \<Rightarrow> sql_query \<Rightarrow> sql_query" where
  "q_and_where e q = q\<lparr>q_where := q_where q @ [e]\<rparr>"

definition q_order_by :: "order \<Rightarrow> sql_query \<Rightarrow> sql_query" where
  "q_order_by ord q = q\<lparr>q_order := Some ord\<rparr>"

definition q_paginate :: "int \<Rightarrow> int \<Rightarrow> sql_query \<Rightarrow> sql_query" where
  "q_paginate n per q = q\<lparr>q_page := Some (n, per)\<rparr>"

definition published_clause :: expr where
  "published_clause = And PublishedAtNotNull PublishedAtLeNow"

definition visible :: "audience \<Rightarrow> sql_query" where
  "visible aud = (if aud = Author then q_empty else q_and_where published_clause q_empty)"

text \<open>\<^verbatim>\<open>strings.NewReplacer\<close> of three single characters replaces them in one pass.\<close>

definition escape_like :: "string \<Rightarrow> string" where
  "escape_like s =
     concat (map (\<lambda>c. if c = CHR 0x5C then [CHR 0x5C, CHR 0x5C]
                      else if c = CHR ''%'' then [CHR 0x5C, CHR ''%'']
                      else if c = CHR ''_'' then [CHR 0x5C, CHR ''_'']
                      else [c]) s)"

definition matching :: "sql_query \<Rightarrow> string \<Rightarrow> sql_query" where
  "matching q txt =
     (let t = trim_space txt
      in if t = [] then q
         else let pattern = ''%'' @ escape_like t @ ''%''
              in q_and_where (Or (TitleILike pattern) (SlugILike pattern)) q)"

record listing =
  l_text :: string
  l_page :: int
  l_per_page :: int

definition DefaultPerPage :: int where
  "DefaultPerPage = 50"

definition listing_page :: "listing \<Rightarrow> int" where
  "listing_page l = (if l_page l < 1 then 1 else l_page l)"

definition listing_per_page :: "listing \<Rightarrow> int" where
  "listing_per_page l = (if l_per_page l < 1 then DefaultPerPage else l_per_page l)"

section \<open>The connection\<close>

text \<open>
  The calls the store makes on a \<^verbatim>\<open>*pop.Connection\<close>, as functions of the state \<open>'db\<close> behind it: the
  name of the table, the query, the row. A create is given the model's \<^verbatim>\<open>BeforeCreate\<close>; a create and
  an update return the row as pop leaves it in the caller's struct, with its ID and timestamps.
\<close>

record 'db pop =
  pop_first :: "'db \<Rightarrow> string \<Rightarrow> sql_query \<Rightarrow> go_error + row"
  pop_all :: "'db \<Rightarrow> string \<Rightarrow> sql_query \<Rightarrow> go_error + row list"
  pop_create :: "'db \<Rightarrow> string \<Rightarrow> (row \<Rightarrow> go_error + row) \<Rightarrow> row \<Rightarrow> (go_error + row) \<times> 'db"
  pop_update :: "'db \<Rightarrow> string \<Rightarrow> row \<Rightarrow> (go_error + row) \<times> 'db"

section \<open>Operations\<close>

definition post_by_slug :: "'db pop \<Rightarrow> 'db \<Rightarrow> string \<Rightarrow> audience \<Rightarrow> go_error + post" where
  "post_by_slug conn db slug aud =
     (case pop_first conn db post_table_name (q_and_where (SlugEq slug) (visible aud)) of
        Inl err \<Rightarrow> Inl (wrap err ''post %q'' [StrArg slug])
      | Inr r \<Rightarrow> Inr (post_of_row r))"

definition find_posts :: "'db pop \<Rightarrow> 'db \<Rightarrow> audience \<Rightarrow> listing \<Rightarrow> go_error + post list" where
  "find_posts conn db aud l =
     (let q = q_order_by NewestFirst (matching (visible aud) (l_text l))
      in case pop_all conn db post_table_name (q_paginate (listing_page l) (listing_per_page l) q) of
           Inl err \<Rightarrow> Inl (wrap err ''posts'' [])
         | Inr rs \<Rightarrow> Inr (map post_of_row rs))"

definition store_posts :: "'db pop \<Rightarrow> 'db \<Rightarrow> audience \<Rightarrow> int \<Rightarrow> int \<Rightarrow> go_error + post list" where
  "store_posts conn db aud n per = find_posts conn db aud \<lparr>l_text = [], l_page = n, l_per_page = per\<rparr>"

definition find_pages :: "'db pop \<Rightarrow> 'db \<Rightarrow> audience \<Rightarrow> listing \<Rightarrow> go_error + page list" where
  "find_pages conn db aud l =
     (let q = q_order_by SlugAsc (matching (visible aud) (l_text l))
      in case pop_all conn db page_table_name (q_paginate (listing_page l) (listing_per_page l) q) of
           Inl err \<Rightarrow> Inl (wrap err ''pages'' [])
         | Inr rs \<Rightarrow> Inr (map page_of_row rs))"

definition post_by_id :: "'db pop \<Rightarrow> 'db \<Rightarrow> uuid \<Rightarrow> audience \<Rightarrow> go_error + post" where
  "post_by_id conn db i aud =
     (case pop_first conn db post_table_name (q_and_where (IdEq i) (visible aud)) of
        Inl err \<Rightarrow> Inl (wrap err ''post %s'' [UuidArg i])
      | Inr r \<Rightarrow> Inr (post_of_row r))"

definition page_by_id :: "'db pop \<Rightarrow> 'db \<Rightarrow> uuid \<Rightarrow> audience \<Rightarrow> go_error + page" where
  "page_by_id conn db i aud =
     (case pop_first conn db page_table_name (q_and_where (IdEq i) (visible aud)) of
        Inl err \<Rightarrow> Inl (wrap err ''page %s'' [UuidArg i])
      | Inr r \<Rightarrow> Inr (page_of_row r))"

definition page_by_slug :: "'db pop \<Rightarrow> 'db \<Rightarrow> string \<Rightarrow> audience \<Rightarrow> go_error + page" where
  "page_by_slug conn db slug aud =
     (case pop_first conn db page_table_name (q_and_where (SlugEq slug) (visible aud)) of
        Inl err \<Rightarrow> Inl (wrap err ''page %q'' [StrArg slug])
      | Inr r \<Rightarrow> Inr (page_of_row r))"

text \<open>\<open>new_v7\<close> is what \<^verbatim>\<open>uuid.NewV7()\<close> returns in a state.\<close>

definition post_hook :: "go_error + uuid \<Rightarrow> row \<Rightarrow> go_error + row" where
  "post_hook v7 r = (case post_before_create v7 (post_of_row r) of Inl e \<Rightarrow> Inl e | Inr p \<Rightarrow> Inr (row_of_post p))"

definition page_hook :: "go_error + uuid \<Rightarrow> row \<Rightarrow> go_error + row" where
  "page_hook v7 r = (case page_before_create v7 (page_of_row r) of Inl e \<Rightarrow> Inl e | Inr g \<Rightarrow> Inr (row_of_page g))"

definition create_post ::
  "('db \<Rightarrow> go_error + uuid) \<Rightarrow> 'db pop \<Rightarrow> 'db \<Rightarrow> post \<Rightarrow> (go_error + post) \<times> 'db" where
  "create_post new_v7 conn db p =
     (case pop_create conn db post_table_name (post_hook (new_v7 db)) (row_of_post p) of
        (Inl err, db') \<Rightarrow> (Inl (wrap err ''creating post %q'' [StrArg (post_slug p)]), db')
      | (Inr r, db') \<Rightarrow> (Inr (post_of_row r), db'))"

definition update_post :: "'db pop \<Rightarrow> 'db \<Rightarrow> post \<Rightarrow> (go_error + post) \<times> 'db" where
  "update_post conn db p =
     (case pop_update conn db post_table_name (row_of_post p) of
        (Inl err, db') \<Rightarrow> (Inl (wrap err ''updating post %q'' [StrArg (post_slug p)]), db')
      | (Inr r, db') \<Rightarrow> (Inr (post_of_row r), db'))"

definition create_page ::
  "('db \<Rightarrow> go_error + uuid) \<Rightarrow> 'db pop \<Rightarrow> 'db \<Rightarrow> page \<Rightarrow> (go_error + page) \<times> 'db" where
  "create_page new_v7 conn db g =
     (case pop_create conn db page_table_name (page_hook (new_v7 db)) (row_of_page g) of
        (Inl err, db') \<Rightarrow> (Inl (wrap err ''creating page %q'' [StrArg (page_slug g)]), db')
      | (Inr r, db') \<Rightarrow> (Inr (page_of_row r), db'))"

definition update_page :: "'db pop \<Rightarrow> 'db \<Rightarrow> page \<Rightarrow> (go_error + page) \<times> 'db" where
  "update_page conn db g =
     (case pop_update conn db page_table_name (row_of_page g) of
        (Inl err, db') \<Rightarrow> (Inl (wrap err ''updating page %q'' [StrArg (page_slug g)]), db')
      | (Inr r, db') \<Rightarrow> (Inr (page_of_row r), db'))"

section \<open>Search patterns\<close>

lemma like_char: "c \<noteq> CHR 0x5C \<Longrightarrow> c \<noteq> CHR ''%'' \<Longrightarrow> c \<noteq> CHR ''_'' \<Longrightarrow>
    like (c # p) s \<longleftrightarrow> (\<exists>s'. s = c # s' \<and> like p s')"
  by (cases s) auto

lemma like_escaped: "like (CHR 0x5C # c # p) s \<longleftrightarrow> (\<exists>s'. s = c # s' \<and> like p s')"
  by (cases s) auto

lemma like_percent: "like (CHR ''%'' # p) s \<longleftrightarrow> (\<exists>a b. s = a @ b \<and> like p b)"
proof
  assume "like (CHR ''%'' # p) s"
  then obtain n where "like p (drop n s)"
    by (auto simp: list_ex_iff simp del: upt_Suc)
  then show "\<exists>a b. s = a @ b \<and> like p b" by (intro exI [of _ "take n s"] exI [of _ "drop n s"]) simp
next
  assume "\<exists>a b. s = a @ b \<and> like p b"
  then obtain a b where "s = a @ b" "like p b" by blast
  then have "like p (drop (length a) s)" "length a < Suc (length s)" by auto
  then show "like (CHR ''%'' # p) s"
    by (simp add: list_ex_iff del: upt_Suc) (metis atLeastLessThan_iff le0)
qed

lemma escape_like_simps [simp]:
  "escape_like [] = []"
  "escape_like (c # t) =
     (if c \<in> {CHR 0x5C, CHR ''%'', CHR ''_''} then [CHR 0x5C, c] else [c]) @ escape_like t"
  by (auto simp: escape_like_def)

lemma like_escape: "like (escape_like t @ p) s \<longleftrightarrow> (\<exists>s'. s = t @ s' \<and> like p s')"
proof (induction t arbitrary: s)
  case Nil
  then show ?case by simp
next
  case (Cons c t)
  show ?case
  proof (cases "c \<in> {CHR 0x5C, CHR ''%'', CHR ''_''}")
    case True
    then have "like (escape_like (c # t) @ p) s \<longleftrightarrow> like (CHR 0x5C # c # escape_like t @ p) s"
      by (simp del: like.simps)
    also have "\<dots> \<longleftrightarrow> (\<exists>s'. s = c # s' \<and> like (escape_like t @ p) s')" by (rule like_escaped)
    finally show ?thesis using Cons by auto
  next
    case False
    then have "like (escape_like (c # t) @ p) s \<longleftrightarrow> like (c # escape_like t @ p) s"
      by (simp del: like.simps)
    also have "\<dots> \<longleftrightarrow> (\<exists>s'. s = c # s' \<and> like (escape_like t @ p) s')"
      using False by (intro like_char) auto
    finally show ?thesis using Cons by auto
  qed
qed

text \<open>Typed wildcards are literal: the pattern of a search matches exactly the texts containing it.\<close>

lemma like_contains: "like (''%'' @ escape_like t @ ''%'') s \<longleftrightarrow> sublist t s"
proof -
  have all: "like ''%'' b" for b
    by (simp only: like_percent) (auto intro: exI [of _ b])
  have "like (''%'' @ escape_like t @ ''%'') s \<longleftrightarrow> (\<exists>a b. s = a @ b \<and> (\<exists>b'. b = t @ b' \<and> like ''%'' b'))"
    by (simp only: append_Cons append_Nil like_percent like_escape)
  also have "\<dots> \<longleftrightarrow> sublist t s"
    unfolding sublist_def using all by blast
  finally show ?thesis .
qed

declare like.simps(2) [simp del]

section \<open>What is relied on of the connection\<close>

text \<open>
  PostgreSQL stores instants with less precision than Go has; \<open>stored_time\<close> is what a written
  instant reads back as.
\<close>

definition stored_row :: "(go_time \<Rightarrow> go_time) \<Rightarrow> row \<Rightarrow> row" where
  "stored_row st r =
     r\<lparr>r_published_at := map_option st (r_published_at r), r_created_at := st (r_created_at r),
       r_updated_at := st (r_updated_at r)\<rparr>"

lemma stored_row_simps [simp]:
  "r_id (stored_row st r) = r_id r" "r_slug (stored_row st r) = r_slug r"
  "r_title (stored_row st r) = r_title r" "r_body (stored_row st r) = r_body r"
  "r_published_at (stored_row st r) = map_option st (r_published_at r)"
  by (simp_all add: stored_row_def)

text \<open>The errors of pop, of the driver and of the database: none of them is one of this package's.\<close>

definition foreign_error :: "go_error \<Rightarrow> bool" where
  "foreign_error e \<longleftrightarrow> (\<forall>d \<in> content_errors. \<not> errors_is e d)"

type_synonym tables = "string \<Rightarrow> uuid \<Rightarrow> row option"

text \<open>The tables after a row is written: created with both timestamps, updated with one.\<close>

definition inserted :: "(go_time \<Rightarrow> go_time) \<Rightarrow> go_time \<Rightarrow> string \<Rightarrow> row \<Rightarrow> tables \<Rightarrow> tables" where
  "inserted st at t r T = T(t := (T t)(r_id r \<mapsto> stored_row st (r\<lparr>r_created_at := at, r_updated_at := at\<rparr>)))"

definition updated :: "(go_time \<Rightarrow> go_time) \<Rightarrow> go_time \<Rightarrow> string \<Rightarrow> row \<Rightarrow> tables \<Rightarrow> tables" where
  "updated st at t r T =
     (case T t (r_id r) of
        None \<Rightarrow> T
      | Some old \<Rightarrow>
          T(t := (T t)(r_id r \<mapsto> stored_row st (r\<lparr>r_created_at := r_created_at old, r_updated_at := at\<rparr>))))"

lemma satisfies_simps [simp]:
  "satisfies lower now q_empty r"
  "satisfies lower now (q_and_where e q) r \<longleftrightarrow> satisfies lower now q r \<and> eval lower now r e = Some True"
  "satisfies lower now (q_order_by ord q) r = satisfies lower now q r"
  "satisfies lower now (q_paginate n per q) r = satisfies lower now q r"
  by (auto simp: satisfies_def q_empty_def q_and_where_def q_order_by_def q_paginate_def)

text \<open>
  \<open>valid\<close> holds of the states of a migrated database, \<open>rows\<close> is what its tables hold, by primary key,
  and \<open>clock\<close> is \<^verbatim>\<open>now()\<close>. A statement that fails may have been executed when the failure is the
  connection's; not when the database itself refused it.
\<close>

locale pop_connection =
  fixes conn :: "'db pop"
    and valid :: "'db \<Rightarrow> bool"
    and rows :: "'db \<Rightarrow> tables"
    and clock :: "'db \<Rightarrow> go_time"
    and lower :: "string \<Rightarrow> string"
    and slug_le :: "string \<Rightarrow> string \<Rightarrow> bool"
    and st :: "go_time \<Rightarrow> go_time"
  assumes rows_id: "valid db \<Longrightarrow> rows db t i = Some r \<Longrightarrow> r_id r = i"
    and rows_stored: "valid db \<Longrightarrow> rows db t i = Some r \<Longrightarrow> stored_row st r = r"
    and first_row: "valid db \<Longrightarrow> pop_first conn db t q = Inr r \<Longrightarrow>
      rows db t (r_id r) = Some r \<and> satisfies lower (clock db) q r"
    and first_none: "valid db \<Longrightarrow> pop_first conn db t q = Inl e \<Longrightarrow> errors_is e ErrNoRows \<Longrightarrow>
      rows db t i = Some r \<Longrightarrow> \<not> satisfies lower (clock db) q r"
    and first_error: "valid db \<Longrightarrow> pop_first conn db t q = Inl e \<Longrightarrow> foreign_error e"
    and all_rows: "valid db \<Longrightarrow> pop_all conn db t q = Inr rs \<Longrightarrow>
      \<exists>xs. distinct xs \<and> set xs = {r. rows db t (r_id r) = Some r \<and> satisfies lower (clock db) q r} \<and>
        (\<forall>ord. q_order q = Some ord \<longrightarrow> sorted_wrt (order_le slug_le ord) xs) \<and>
        rs = page_of (q_page q) xs"
    and all_error: "valid db \<Longrightarrow> pop_all conn db t q = Inl e \<Longrightarrow> foreign_error e"
    and create_ok: "valid db \<Longrightarrow> pop_create conn db t hook r = (Inr r'', db') \<Longrightarrow>
      \<exists>r' at. hook r = Inr r' \<and> (r_id r' \<noteq> uuid_nil \<longrightarrow> r_id r'' = r_id r') \<and>
        r'' = r'\<lparr>r_id := r_id r'', r_created_at := at, r_updated_at := at\<rparr> \<and>
        rows db t (r_id r'') = None \<and> rows db' = inserted st at t r'' (rows db)"
    and create_error: "valid db \<Longrightarrow> pop_create conn db t hook r = (Inl e, db') \<Longrightarrow>
      (\<And>h. hook r = Inl h \<Longrightarrow> foreign_error h) \<Longrightarrow> foreign_error e \<and> (rows db' = rows db \<or>
        errors_as_pg e = None \<and> (\<exists>r' i at. hook r = Inr r' \<and> rows db t i = None \<and>
          rows db' = inserted st at t (r'\<lparr>r_id := i\<rparr>) (rows db)))"
    and update_ok: "valid db \<Longrightarrow> pop_update conn db t r = (Inr r', db') \<Longrightarrow>
      \<exists>at. r' = r\<lparr>r_updated_at := at\<rparr> \<and> rows db' = updated st at t r (rows db)"
    and update_error: "valid db \<Longrightarrow> pop_update conn db t r = (Inl e, db') \<Longrightarrow>
      foreign_error e \<and> (rows db' = rows db \<or>
        errors_as_pg e = None \<and> (\<exists>at. rows db' = updated st at t r (rows db)))"
    and valid_create: "valid db \<Longrightarrow> valid (snd (pop_create conn db t hook r))"
    and valid_update: "valid db \<Longrightarrow> valid (snd (pop_update conn db t r))"
begin

lemma foreign_wrap:
  assumes "foreign_error e"
  shows "errors_is (wrap e f as) ErrNotFound \<longleftrightarrow> errors_is e ErrNoRows"
    and "d \<in> {ErrSlugTaken, ErrSlugInvalid, ErrTitleRequired} \<Longrightarrow>
      errors_is (wrap e f as) d \<longleftrightarrow> domain_error e = Some d"
  using assms by (auto simp: foreign_error_def content_errors_def wrap_not_found_iff wrap_domain_iff)

end

end
