(* ===== verification/Handler.thy ===== *)
theory Handler
  imports View Go_Http Session Limiter Password Store
begin

text \<open>
  What the handlers of \<^verbatim>\<open>internal/admin\<close> share: the Store interface and the handler of \<^verbatim>\<open>admin.go\<close>,
  the state a running server keeps, and \<^verbatim>\<open>render.go\<close>. A handler is given the response as written so
  far and returns it completed, with the state it leaves. Logging is left out.
\<close>

section \<open>The Store interface\<close>

text \<open>
  The operations of the interface, as functions of the state behind it. A create hands back the struct
  with its ID filled in.
\<close>

record 's store =
  st_find_posts :: "'s \<Rightarrow> audience \<Rightarrow> listing \<Rightarrow> go_error + post list"
  st_find_pages :: "'s \<Rightarrow> audience \<Rightarrow> listing \<Rightarrow> go_error + page list"
  st_post_by_id :: "'s \<Rightarrow> uuid \<Rightarrow> audience \<Rightarrow> go_error + post"
  st_page_by_id :: "'s \<Rightarrow> uuid \<Rightarrow> audience \<Rightarrow> go_error + page"
  st_create_post :: "'s \<Rightarrow> post \<Rightarrow> (go_error + post) \<times> 's"
  st_update_post :: "'s \<Rightarrow> post \<Rightarrow> (go_error + post) \<times> 's"
  st_create_page :: "'s \<Rightarrow> page \<Rightarrow> (go_error + page) \<times> 's"
  st_update_page :: "'s \<Rightarrow> page \<Rightarrow> (go_error + page) \<times> 's"

text \<open>\<^verbatim>\<open>*content.Store\<close> satisfies it.\<close>

definition content_store :: "('db \<Rightarrow> go_error + uuid) \<Rightarrow> 'db pop \<Rightarrow> 'db store" where
  "content_store new_v7 conn =
     \<lparr>st_find_posts = find_posts conn, st_find_pages = find_pages conn,
      st_post_by_id = post_by_id conn, st_page_by_id = page_by_id conn,
      st_create_post = create_post new_v7 conn, st_update_post = update_post conn,
      st_create_page = create_page new_v7 conn, st_update_page = update_page conn\<rparr>"

section \<open>The handler and its state\<close>

text \<open>Third-party functions: \<^verbatim>\<open>argon2.IDKey\<close>, \<^verbatim>\<open>uuid.FromString\<close> and \<^verbatim>\<open>UUID.String\<close>.\<close>

record external =
  ex_idkey :: idkey
  ex_uuid_from_string :: "string \<Rightarrow> uuid option"
  ex_uuid_string :: "uuid \<Rightarrow> string"

record 's handler =
  h_store :: "'s store"
  h_sessions :: sessions
  h_hash :: string
  h_zone :: zone
  h_ext :: external

text \<open>What changes while the server runs: the state behind the store, and the login limiter.\<close>

record 's server =
  sv_db :: 's
  sv_logins :: limiter

text \<open>Every call of \<^verbatim>\<open>time.Now\<close> while a request is handled, each with a reading of its own.\<close>

datatype call_site =
    AtVerify | AtAllow | AtIssue | AtList | AtFormOf | AtPublishedCheck | AtSubmitted | AtPublishNow | AtSaved

type_synonym readings = "call_site \<Rightarrow> go_time"

section \<open>Bodies\<close>

text \<open>
  A body is drawn from a component, plain text, a file of the front end, or the short link \<^verbatim>\<open>http.Redirect\<close>
  writes for a GET. \<open>Aborted\<close> is a handler that panicked: the server closes the connection.
\<close>

datatype body = NoBody | Aborted | Html component | Text string | Asset string | RedirectLink string

type_synonym page_response = "body response"

definition http_error :: "string \<Rightarrow> nat \<Rightarrow> page_response \<Rightarrow> page_response" where
  "http_error msg code w =
     (set_header ''X-Content-Type-Options'' ''nosniff''
       (set_header ''Content-Type'' ''text/plain; charset=utf-8'' w))
     \<lparr>status := code, body := Text (msg @ [CHR 0x0A])\<rparr>"

definition http_redirect :: "request \<Rightarrow> string \<Rightarrow> nat \<Rightarrow> page_response \<Rightarrow> page_response" where
  "http_redirect r url code w =
     (let w1 = set_header ''Location'' (redirect_location url) w;
          plain = get_header w ''Content-Type'' = None;
          w2 = (if plain \<and> req_method r \<in> set [''GET'', ''HEAD'']
                then set_header ''Content-Type'' ''text/html; charset=utf-8'' w1 else w1)
      in w2\<lparr>status := code,
            body := (if plain \<and> req_method r = ''GET'' then RedirectLink (redirect_target url) else NoBody)\<rparr>)"

section \<open>Screens\<close>

record screen =
  sc_title :: string
  sc_nav :: nav
  sc_body :: component
  sc_fragment :: "component option"
  sc_status :: nat

definition is_htmx :: "request \<Rightarrow> bool" where
  "is_htmx r \<longleftrightarrow> get_req_header r ''HX-Request'' = ''true''"

definition render :: "request \<Rightarrow> screen \<Rightarrow> page_response \<Rightarrow> page_response" where
  "render r s w =
     (let component =
        (if is_htmx r
         then (case sc_fragment s of Some f \<Rightarrow> f | None \<Rightarrow> sc_body s)
         else Layout (sc_title s) (sc_nav s) (sc_body s));
          code = (if sc_status s = 0 then 200 else sc_status s)
      in (set_header ''Cache-Control'' ''no-store''
           (set_header ''Content-Type'' ''text/html; charset=utf-8'' w))
         \<lparr>status := code, body := Html component\<rparr>)"

definition fail :: "page_response \<Rightarrow> page_response" where
  "fail w = http_error ''something went wrong'' 500 w"

definition not_found :: "page_response \<Rightarrow> page_response" where
  "not_found w = http_error ''not found'' 404 w"

section \<open>Lemmas\<close>

lemma response_update_simps [simp]:
  "get_header (w\<lparr>status := c\<rparr>) k = get_header w k" "get_header (w\<lparr>body := b\<rparr>) k = get_header w k"
  by (simp_all add: get_header_def)

lemma http_error_simps [simp]:
  "status (http_error m c w) = c" "body (http_error m c w) = Text (m @ [CHR 0x0A])"
  "set_cookies (http_error m c w) = set_cookies w"
  "get_header (http_error m c w) k =
     (if k = ''X-Content-Type-Options'' then Some ''nosniff''
      else if k = ''Content-Type'' then Some ''text/plain; charset=utf-8'' else get_header w k)"
  by (simp_all add: http_error_def)

lemma http_redirect_simps [simp]:
  "status (http_redirect r u c w) = c" "set_cookies (http_redirect r u c w) = set_cookies w"
  "get_header (http_redirect r u c w) ''Location'' = Some (redirect_location u)"
  "k \<notin> {''Location'', ''Content-Type''} \<Longrightarrow> get_header (http_redirect r u c w) k = get_header w k"
  "body (http_redirect r u c w) \<noteq> Html x"
  by (auto simp: http_redirect_def Let_def)

lemma render_simps [simp]:
  "status (render r s w) = (if sc_status s = 0 then 200 else sc_status s)"
  "set_cookies (render r s w) = set_cookies w"
  "body (render r s w) = Html
     (if is_htmx r then (case sc_fragment s of Some f \<Rightarrow> f | None \<Rightarrow> sc_body s)
      else Layout (sc_title s) (sc_nav s) (sc_body s))"
  "get_header (render r s w) k =
     (if k = ''Cache-Control'' then Some ''no-store''
      else if k = ''Content-Type'' then Some ''text/html; charset=utf-8'' else get_header w k)"
  by (simp_all add: render_def Let_def)

lemma fail_simps [simp]: "status (fail w) = 500" "status (not_found w) = 404"
  "set_cookies (fail w) = set_cookies w" "set_cookies (not_found w) = set_cookies w"
  by (simp_all add: fail_def not_found_def)

end
