(* ===== verification/Auth.thy ===== *)
theory Auth
  imports Handler
begin

text \<open>\<^verbatim>\<open>internal/admin/auth.go\<close>: the session guard, logging in and logging out.\<close>

definition refused :: string where
  "refused = ''That did not work.''"

definition return_path :: "request \<Rightarrow> string" where
  "return_path r =
     (if req_method r \<noteq> ''GET'' then []
      else if url_path r = ''/admin/login'' then []
      else request_uri r)"

definition login_location :: "request \<Rightarrow> string" where
  "login_location r =
     (if return_path r \<noteq> [] then ''/admin/login'' @ ''?next='' @ query_escape (return_path r) else ''/admin/login'')"

definition reject_unauthenticated :: "request \<Rightarrow> page_response \<Rightarrow> page_response" where
  "reject_unauthenticated r w =
     (let dest = login_location r
      in if is_htmx r then (set_header ''HX-Redirect'' dest w)\<lparr>status := 401\<rparr>
         else http_redirect r dest 303 w)"

type_synonym 's handler_func = "request \<Rightarrow> page_response \<Rightarrow> 's server \<Rightarrow> page_response \<times> 's server"

definition require_session :: "'s handler \<Rightarrow> readings \<Rightarrow> 's handler_func \<Rightarrow> 's handler_func" where
  "require_session h now handle r w sv =
     (case sessions_verify (h_sessions h) (now AtVerify) r of
        Inl _ \<Rightarrow> (reject_unauthenticated r w, sv)
      | Inr _ \<Rightarrow> handle r w sv)"

definition safe_next :: "string \<Rightarrow> string" where
  "safe_next dest =
     (if dest = [] \<or> \<not> prefix ''/admin'' dest \<or> prefix ''//'' dest then ''/admin/posts''
      else if \<not> parse_request_uri_ok dest then ''/admin/posts''
      else dest)"

definition login_screen :: "string \<Rightarrow> string \<Rightarrow> nat \<Rightarrow> screen" where
  "login_screen dest err code =
     \<lparr>sc_title = ''Log in'', sc_nav = NavNone, sc_body = Login \<lparr>lf_next = dest, lf_error = err\<rparr>,
      sc_fragment = None, sc_status = code\<rparr>"

definition login_form_handler :: "'s handler_func" where
  "login_form_handler r w sv = (render r (login_screen (safe_next (query_get r ''next'')) [] 0) w, sv)"

definition render_login_failure :: "request \<Rightarrow> string \<Rightarrow> nat \<Rightarrow> page_response \<Rightarrow> page_response" where
  "render_login_failure r dest code w = render r (login_screen dest refused code) w"

definition login :: "'s handler \<Rightarrow> readings \<Rightarrow> 's handler_func" where
  "login h now r w sv =
     (if parse_form_error r then (http_error ''bad request'' 400 w, sv)
      else
        let dest = safe_next (post_form_value r ''next'');
            (allowed, logins) = limiter_allow (sv_logins sv) (now AtAllow) (client_ip r);
            sv1 = sv\<lparr>sv_logins := logins\<rparr>
        in if \<not> allowed then (render_login_failure r dest 429 w, sv1)
           else case verify_password (ex_idkey (h_ext h)) (h_hash h) (post_form_value r ''password'') of
             Inl PanicIDKey \<Rightarrow> (w\<lparr>body := Aborted\<rparr>, sv1)
           | Inl _ \<Rightarrow> (render_login_failure r dest 401 w, sv1)
           | Inr ok \<Rightarrow>
               if \<not> ok then (render_login_failure r dest 401 w, sv1)
               else (http_redirect r dest 303 (set_cookie (sessions_issue (h_sessions h) (now AtIssue)) w),
                     sv1\<lparr>sv_logins := limiter_reset logins (client_ip r)\<rparr>))"

definition logout :: "'s handler \<Rightarrow> 's handler_func" where
  "logout h r w sv = (http_redirect r ''/admin/login'' 303 (set_cookie (sessions_clear (h_sessions h)) w), sv)"

end
