(* ===== verification/Lists.thy ===== *)
theory Lists
  imports Auth
begin

text \<open>\<^verbatim>\<open>internal/admin/lists.go\<close>: the two list screens, with search and paging.\<close>

definition per_page :: int where
  "per_page = 50"

definition listing_from :: "request \<Rightarrow> listing" where
  "listing_from r =
     \<lparr>l_text = query_get r ''q'',
      l_page = (case atoi (query_get r ''page'') of
                  None \<Rightarrow> 1
                | Some n \<Rightarrow> if n < 1 then 1 else n),
      l_per_page = per_page + 1\<rparr>"

text \<open>\<^verbatim>\<open>l.Page + 1\<close> is an addition of Go's 64-bit \<^verbatim>\<open>int\<close>.\<close>

definition trim :: "'a list \<Rightarrow> listing \<Rightarrow> 'a list \<times> int" where
  "trim rows l =
     (if int (length rows) \<le> per_page then (rows, 0)
      else (take (nat per_page) rows, wrap64 (l_page l + 1)))"

definition pick_fragment :: "int \<Rightarrow> 'a \<Rightarrow> 'a \<Rightarrow> 'a" where
  "pick_fragment n region rows = (if 1 < n then rows else region)"

definition list_posts :: "'s handler \<Rightarrow> readings \<Rightarrow> 's handler_func" where
  "list_posts h now r w sv =
     (let l = listing_from r
      in case st_find_posts (h_store h) (sv_db sv) Author l of
        Inl err \<Rightarrow> (fail w, sv)
      | Inr found \<Rightarrow>
          let (posts, next) = trim found l;
              listing = \<lparr>pl_listing = \<lparr>vl_query = l_text l, vl_next_page = next, vl_zone = Some (h_zone h)\<rparr>,
                         pl_posts = posts\<rparr>;
              t = now AtList
          in (render r \<lparr>sc_title = ''Posts'', sc_nav = NavPosts, sc_body = Posts listing t,
                        sc_fragment = Some (pick_fragment (l_page l) (PostRegion listing t) (PostRows listing t)),
                        sc_status = 0\<rparr> w, sv))"

definition list_pages :: "'s handler \<Rightarrow> readings \<Rightarrow> 's handler_func" where
  "list_pages h now r w sv =
     (let l = listing_from r
      in case st_find_pages (h_store h) (sv_db sv) Author l of
        Inl err \<Rightarrow> (fail w, sv)
      | Inr found \<Rightarrow>
          let (pages, next) = trim found l;
              listing = \<lparr>gl_listing = \<lparr>vl_query = l_text l, vl_next_page = next, vl_zone = Some (h_zone h)\<rparr>,
                         gl_pages = pages\<rparr>;
              t = now AtList
          in (render r \<lparr>sc_title = ''Pages'', sc_nav = NavPages, sc_body = Pages listing t,
                        sc_fragment = Some (pick_fragment (l_page l) (PageRegion listing t) (PageRows listing t)),
                        sc_status = 0\<rparr> w, sv))"

end
