(* ===== verification/Writing.thy ===== *)
theory Writing
  imports Auth
begin

text \<open>
  \<^verbatim>\<open>internal/admin/writing.go\<close>: the editor. One set of handlers serves Posts and Pages through the
  \<^verbatim>\<open>resource\<close> that differs between them.
\<close>

section \<open>Records and resources\<close>

record wrecord =
  rec_id :: uuid
  rec_slug :: string
  rec_title :: string
  rec_body :: string
  rec_published_at :: "go_time option"

record 's resource =
  res_kind :: string
  res_nav :: nav
  res_by_id :: "'s \<Rightarrow> uuid \<Rightarrow> go_error + wrecord"
  res_create :: "'s \<Rightarrow> wrecord \<Rightarrow> (go_error + wrecord) \<times> 's"
  res_update :: "'s \<Rightarrow> wrecord \<Rightarrow> bool \<Rightarrow> (go_error + unit) \<times> 's"

definition record_of_post :: "post \<Rightarrow> wrecord" where
  "record_of_post p =
     \<lparr>rec_id = post_id p, rec_slug = post_slug p, rec_title = post_title p, rec_body = post_body p,
      rec_published_at = post_published_at p\<rparr>"

definition record_of_page :: "page \<Rightarrow> wrecord" where
  "record_of_page g =
     \<lparr>rec_id = page_id g, rec_slug = page_slug g, rec_title = page_title g, rec_body = page_body g,
      rec_published_at = page_published_at g\<rparr>"

text \<open>The fields an update writes onto the stored row; the date only when asked to.\<close>

definition write_post :: "wrecord \<Rightarrow> bool \<Rightarrow> post \<Rightarrow> post" where
  "write_post rc with_date p =
     (let p = p\<lparr>post_slug := rec_slug rc, post_title := rec_title rc, post_body := rec_body rc\<rparr>
      in if with_date then p\<lparr>post_published_at := rec_published_at rc\<rparr> else p)"

definition write_page :: "wrecord \<Rightarrow> bool \<Rightarrow> page \<Rightarrow> page" where
  "write_page rc with_date g =
     (let g = g\<lparr>page_slug := rec_slug rc, page_title := rec_title rc, page_body := rec_body rc\<rparr>
      in if with_date then g\<lparr>page_published_at := rec_published_at rc\<rparr> else g)"

text \<open>Go's zero time is the instant 0001-01-01 00:00:00 UTC.\<close>

definition zero_time :: go_time where
  "zero_time = - 62135596800 * nanos_per_second"

definition posts_resource :: "'s store \<Rightarrow> 's resource" where
  "posts_resource st =
     \<lparr>res_kind = ''post'', res_nav = NavPosts,
      res_by_id = (\<lambda>s i.
        case st_post_by_id st s i Author of Inl e \<Rightarrow> Inl e | Inr p \<Rightarrow> Inr (record_of_post p)),
      res_create = (\<lambda>s rc.
        case st_create_post st s
               \<lparr>post_id = uuid_nil, post_slug = rec_slug rc, post_title = rec_title rc,
                post_body = rec_body rc, post_published_at = rec_published_at rc,
                post_created_at = zero_time, post_updated_at = zero_time\<rparr> of
          (Inl e, s') \<Rightarrow> (Inl e, s')
        | (Inr p, s') \<Rightarrow> (Inr (rc\<lparr>rec_id := post_id p\<rparr>), s')),
      res_update = (\<lambda>s rc with_date.
        case st_post_by_id st s (rec_id rc) Author of
          Inl e \<Rightarrow> (Inl e, s)
        | Inr p \<Rightarrow>
            (case st_update_post st s (write_post rc with_date p) of
               (Inl e, s') \<Rightarrow> (Inl e, s')
             | (Inr _, s') \<Rightarrow> (Inr (), s')))\<rparr>"

definition pages_resource :: "'s store \<Rightarrow> 's resource" where
  "pages_resource st =
     \<lparr>res_kind = ''page'', res_nav = NavPages,
      res_by_id = (\<lambda>s i.
        case st_page_by_id st s i Author of Inl e \<Rightarrow> Inl e | Inr g \<Rightarrow> Inr (record_of_page g)),
      res_create = (\<lambda>s rc.
        case st_create_page st s
               \<lparr>page_id = uuid_nil, page_slug = rec_slug rc, page_title = rec_title rc,
                page_body = rec_body rc, page_published_at = rec_published_at rc,
                page_created_at = zero_time, page_updated_at = zero_time\<rparr> of
          (Inl e, s') \<Rightarrow> (Inl e, s')
        | (Inr g, s') \<Rightarrow> (Inr (rc\<lparr>rec_id := page_id g\<rparr>), s')),
      res_update = (\<lambda>s rc with_date.
        case st_page_by_id st s (rec_id rc) Author of
          Inl e \<Rightarrow> (Inl e, s)
        | Inr g \<Rightarrow>
            (case st_update_page st s (write_page rc with_date g) of
               (Inl e, s') \<Rightarrow> (Inl e, s')
             | (Inr _, s') \<Rightarrow> (Inr (), s')))\<rparr>"

section \<open>From the request to a record\<close>

definition parse_published_at :: "'s handler \<Rightarrow> string \<Rightarrow> string + go_time option" where
  "parse_published_at h value =
     (if value = [] then Inr None
      else case parse_editor (h_zone h) value of
        None \<Rightarrow> Inl ''that is not a date this form understands''
      | Some t \<Rightarrow> Inr (Some t))"

definition posted_form :: "'s handler \<Rightarrow> request \<Rightarrow> 's resource \<Rightarrow> bool \<Rightarrow> form" where
  "posted_form h r res is_new =
     \<lparr>form_id = (if is_new then [] else path_id r),
      form_slug = post_form_value r ''slug'', form_title = post_form_value r ''title'',
      form_body_text = post_form_value r ''body'', form_published_at = post_form_value r ''published_at'',
      form_errors = [], form_zone = zone_name (h_zone h), form_autosave = False,
      form_kind = res_kind res\<rparr>"

text \<open>The form, the record and the error, all three of which the Go function returns.\<close>

definition submitted ::
  "'s handler \<Rightarrow> readings \<Rightarrow> request \<Rightarrow> 's resource \<Rightarrow> bool \<Rightarrow> form \<times> wrecord \<times> string option" where
  "submitted h now r res is_new =
     (let f = posted_form h r res is_new;
          rc = \<lparr>rec_id = uuid_nil, rec_slug = form_slug f, rec_title = form_title f,
                rec_body = form_body_text f, rec_published_at = None\<rparr>
      in case (if is_new then Some uuid_nil else ex_uuid_from_string (h_ext h) (form_id f)) of
        None \<Rightarrow> (f, rc, Some ''that is not a valid id'')
      | Some i \<Rightarrow>
          let rc = rc\<lparr>rec_id := i\<rparr>
          in case parse_published_at h (form_published_at f) of
            Inl err \<Rightarrow> (f, rc, Some err)
          | Inr published \<Rightarrow>
              (f\<lparr>form_autosave := (case published of None \<Rightarrow> True | Some t \<Rightarrow> now AtSubmitted < t)\<rparr>,
               rc\<lparr>rec_published_at := published\<rparr>, None))"

definition form_of :: "'s handler \<Rightarrow> readings \<Rightarrow> 's resource \<Rightarrow> wrecord \<Rightarrow> form" where
  "form_of h now res rc =
     \<lparr>form_id = ex_uuid_string (h_ext h) (rec_id rc),
      form_slug = rec_slug rc, form_title = rec_title rc, form_body_text = rec_body rc,
      form_published_at = (case rec_published_at rc of None \<Rightarrow> [] | Some t \<Rightarrow> format_editor (h_zone h) t),
      form_errors = [], form_zone = zone_name (h_zone h),
      form_autosave = (case rec_published_at rc of None \<Rightarrow> True | Some t \<Rightarrow> now AtFormOf < t),
      form_kind = res_kind res\<rparr>"

definition field_errors :: "go_error \<Rightarrow> (string \<times> string) list option" where
  "field_errors err =
     (if errors_is err ErrSlugTaken then Some [(''slug'', ''Something else already answers to that slug.'')]
      else if errors_is err ErrSlugInvalid then Some [(''slug'', ''Lowercase words joined by hyphens, nothing else.'')]
      else if errors_is err ErrTitleRequired then Some [(''title'', ''A title is required.'')]
      else None)"

text \<open>Go's range over a map starts anywhere; these maps have one entry.\<close>

definition first_of :: "(string \<times> string) list \<Rightarrow> string" where
  "first_of errs = (case errs of [] \<Rightarrow> ''not saved'' | (_, v) # _ \<Rightarrow> v)"

section \<open>Handlers\<close>

definition blank :: "'s handler \<Rightarrow> 's resource \<Rightarrow> 's handler_func" where
  "blank h res r w sv =
     (let f = \<lparr>form_id = [], form_slug = [], form_title = [], form_body_text = [], form_published_at = [],
               form_errors = [], form_zone = zone_name (h_zone h), form_autosave = False,
               form_kind = res_kind res\<rparr>
      in (render r \<lparr>sc_title = ''New '' @ res_kind res, sc_nav = res_nav res, sc_body = Editor f,
                    sc_fragment = None, sc_status = 0\<rparr> w, sv))"

definition load ::
  "'s handler \<Rightarrow> 's resource \<Rightarrow> request \<Rightarrow> page_response \<Rightarrow> 's \<Rightarrow> page_response + wrecord" where
  "load h res r w s =
     (case ex_uuid_from_string (h_ext h) (path_id r) of
        None \<Rightarrow> Inl (not_found w)
      | Some i \<Rightarrow>
     (case res_by_id res s i of
        Inl err \<Rightarrow> Inl (if errors_is err ErrNotFound then not_found w else fail w)
      | Inr rc \<Rightarrow> Inr rc))"

definition edit :: "'s handler \<Rightarrow> readings \<Rightarrow> 's resource \<Rightarrow> 's handler_func" where
  "edit h now res r w sv =
     (case load h res r w (sv_db sv) of
        Inl w' \<Rightarrow> (w', sv)
      | Inr rc \<Rightarrow>
          (render r \<lparr>sc_title = rec_title rc, sc_nav = res_nav res, sc_body = Editor (form_of h now res rc),
                     sc_fragment = None, sc_status = 0\<rparr> w, sv))"

definition invalid ::
  "request \<Rightarrow> 's resource \<Rightarrow> form \<Rightarrow> (string \<times> string) list \<Rightarrow> page_response \<Rightarrow> page_response" where
  "invalid r res f errs w =
     (let f = f\<lparr>form_errors := errs\<rparr>
      in render r \<lparr>sc_title = ''Edit '' @ res_kind res, sc_nav = res_nav res, sc_body = Editor f,
                   sc_fragment = Some (EditorForm f), sc_status = 422\<rparr> w)"

definition editor_path :: "'s handler \<Rightarrow> 's resource \<Rightarrow> uuid \<Rightarrow> string" where
  "editor_path h res i = ''/admin/'' @ res_kind res @ ''s/'' @ ex_uuid_string (h_ext h) i @ ''/edit''"

definition save :: "'s handler \<Rightarrow> readings \<Rightarrow> 's resource \<Rightarrow> bool \<Rightarrow> 's handler_func" where
  "save h now res is_new r w sv =
     (if parse_form_error r then (http_error ''bad request'' 400 w, sv)
      else case submitted h now r res is_new of
        (f, rc, Some err) \<Rightarrow> (invalid r res f [(''published_at'', err)] w, sv)
      | (f, rc, None) \<Rightarrow>
          let (f, rc) =
            (if post_form_value r ''action'' = ''publish_now''
             then (f\<lparr>form_published_at := format_editor (h_zone h) (now AtPublishNow)\<rparr>,
                   rc\<lparr>rec_published_at := Some (now AtPublishNow)\<rparr>)
             else (f, rc));
              (result, s') =
            (if is_new then res_create res (sv_db sv) rc
             else case res_update res (sv_db sv) rc True of
                 (Inl e, s') \<Rightarrow> (Inl e, s')
               | (Inr _, s') \<Rightarrow> (Inr rc, s'));
              sv' = sv\<lparr>sv_db := s'\<rparr>
          in case result of
            Inl err \<Rightarrow>
              (case field_errors err of
                 Some errs \<Rightarrow> (invalid r res f errs w, sv')
               | None \<Rightarrow> (if errors_is err ErrNotFound then not_found w else fail w, sv'))
          | Inr rc \<Rightarrow>
              let dest = editor_path h res (rec_id rc)
              in (if is_htmx r then (set_header ''HX-Redirect'' dest w)\<lparr>status := 204\<rparr>
                  else http_redirect r dest 303 w, sv'))"

definition render_marker :: "request \<Rightarrow> component \<Rightarrow> page_response \<Rightarrow> page_response" where
  "render_marker r c w =
     render r \<lparr>sc_title = [], sc_nav = NavNone, sc_body = c, sc_fragment = Some c, sc_status = 0\<rparr> w"

definition autosave :: "'s handler \<Rightarrow> readings \<Rightarrow> 's resource \<Rightarrow> 's handler_func" where
  "autosave h now res r w sv =
     (if parse_form_error r then (http_error ''bad request'' 400 w, sv)
      else case load h res r w (sv_db sv) of
        Inl w' \<Rightarrow> (w', sv)
      | Inr stored \<Rightarrow>
          let f = form_of h now res stored
          in if (case rec_published_at stored of None \<Rightarrow> False | Some t \<Rightarrow> \<not> now AtPublishedCheck < t)
             then (render_marker r PublishedMarker w, sv)
             else
               let (posted, _, _) = submitted h now r res False;
                   stored = stored\<lparr>rec_slug := form_slug posted, rec_title := form_title posted,
                                   rec_body := form_body_text posted\<rparr>;
                   (result, s') = res_update res (sv_db sv) stored False;
                   sv' = sv\<lparr>sv_db := s'\<rparr>
               in case result of
                 Inl err \<Rightarrow>
                   (case field_errors err of
                      Some errs \<Rightarrow> (render_marker r (NotSavedMarker f (first_of errs)) w, sv')
                    | None \<Rightarrow> (fail w, sv'))
               | Inr _ \<Rightarrow> (render_marker r (Saved f (format_clock (h_zone h) (now AtSaved))) w, sv'))"

end
