(* ===== verification/Go_Url_Parse.thy ===== *)
theory Go_Url_Parse
  imports Go_Url
begin

text \<open>
  \<^verbatim>\<open>url.Parse\<close> and \<^verbatim>\<open>URL.String\<close> of Go 1.26 on any string, as the redaction of a DSN uses them. An error
  is \<^const>\<open>None\<close>: its text is never shown. Whether the text between brackets is an IPv6 address
  (\<^verbatim>\<open>netip.ParseAddr\<close>) is a parameter, \<open>ip6\<close>.
\<close>

section \<open>Escaping by part of the URL\<close>

datatype encoding = EncodePath | EncodeHost | EncodeZone | EncodeUserPassword | EncodeFragment

definition should_escape :: "encoding \<Rightarrow> char \<Rightarrow> bool" where
  "should_escape m c =
     (if is_alnum c then False
      else if m \<in> {EncodeHost, EncodeZone} \<and> c \<in> set (''!$&'' @ [CHR 0x27] @ ''()*+,;=:[]<>'' @ [CHR 0x22]) then False
      else if c \<in> set ''-_.~'' then False
      else if c \<in> set ''$&+,/:;=?@'' then
        (case m of
           EncodePath \<Rightarrow> c = CHR ''?''
         | EncodeUserPassword \<Rightarrow> c \<in> set ''@/?:''
         | EncodeFragment \<Rightarrow> False
         | _ \<Rightarrow> True)
      else \<not> (m = EncodeFragment \<and> c \<in> set ''!()*''))"

definition url_escape :: "encoding \<Rightarrow> string \<Rightarrow> string" where
  "url_escape m s = concat (map (\<lambda>c. if should_escape m c then percent c else [c]) s)"

text \<open>The escapes a part admits, and the bytes it admits as they are.\<close>

definition escape_admitted :: "encoding \<Rightarrow> char \<Rightarrow> bool" where
  "escape_admitted m c \<longleftrightarrow>
     (m = EncodeHost \<longrightarrow> 128 \<le> (of_char c :: nat) \<or> c = CHR ''%'') \<and>
     (m = EncodeZone \<longrightarrow> c = CHR ''%'' \<or> c = CHR '' '' \<or> \<not> should_escape EncodeHost c)"

definition byte_admitted :: "encoding \<Rightarrow> char \<Rightarrow> bool" where
  "byte_admitted m c \<longleftrightarrow> \<not> (m \<in> {EncodeHost, EncodeZone} \<and> (of_char c :: nat) < 128 \<and> should_escape m c)"

fun url_unescape :: "encoding \<Rightarrow> string \<Rightarrow> string option" where
  "url_unescape m [] = Some []"
| "url_unescape m (c # cs) =
     (if c = CHR ''%'' then
        (case cs of
           h # l # rest \<Rightarrow>
             (case (hex_val h, hex_val l) of
                (Some a, Some b) \<Rightarrow>
                  if escape_admitted m (char_of (16 * a + b))
                  then map_option (Cons (char_of (16 * a + b))) (url_unescape m rest) else None
              | _ \<Rightarrow> None)
         | _ \<Rightarrow> None)
      else if byte_admitted m c then map_option (Cons c) (url_unescape m cs) else None)"

definition valid_encoded :: "encoding \<Rightarrow> string \<Rightarrow> bool" where
  "valid_encoded m s \<longleftrightarrow>
     list_all (\<lambda>c. c \<in> set (''!$&'' @ [CHR 0x27] @ ''()*+,;=:@[]%'') \<or> \<not> should_escape m c) s"

section \<open>URLs\<close>

text \<open>\<^verbatim>\<open>*url.Userinfo\<close>: a password of \<^const>\<open>None\<close> was not set.\<close>

record userinfo =
  ui_username :: string
  ui_password :: "string option"

record go_url =
  u_scheme :: string
  u_opaque :: string
  u_user :: "userinfo option"
  u_host :: string
  u_path :: string
  u_raw_path :: string
  u_force_query :: bool
  u_raw_query :: string
  u_fragment :: string
  u_raw_fragment :: string
  u_omit_host :: bool

definition empty_url :: go_url where
  "empty_url =
     \<lparr>u_scheme = [], u_opaque = [], u_user = None, u_host = [], u_path = [], u_raw_path = [], u_force_query = False,
      u_raw_query = [], u_fragment = [], u_raw_fragment = [], u_omit_host = False\<rparr>"

section \<open>Parsing\<close>

definition is_letter :: "char \<Rightarrow> bool" where
  "is_letter c \<longleftrightarrow> (let n = (of_char c :: nat) in 65 \<le> n \<and> n \<le> 90 \<or> 97 \<le> n \<and> n \<le> 122)"

definition is_dec :: "char \<Rightarrow> bool" where
  "is_dec c \<longleftrightarrow> (let n = (of_char c :: nat) in 48 \<le> n \<and> n \<le> 57)"

text \<open>\<^verbatim>\<open>getScheme\<close>: \<open>seen\<close> is what precedes, in order.\<close>

fun get_scheme_from :: "string \<Rightarrow> string \<Rightarrow> string \<Rightarrow> (string \<times> string) option" where
  "get_scheme_from raw seen [] = Some ([], raw)"
| "get_scheme_from raw seen (c # cs) =
     (if is_letter c then get_scheme_from raw (seen @ [c]) cs
      else if is_dec c \<or> c \<in> set ''+-.'' then
        (if seen = [] then Some ([], raw) else get_scheme_from raw (seen @ [c]) cs)
      else if c = CHR '':'' then (if seen = [] then None else Some (seen, cs))
      else Some ([], raw))"

definition get_scheme :: "string \<Rightarrow> (string \<times> string) option" where
  "get_scheme raw = get_scheme_from raw [] raw"

definition ascii_to_lower :: "char \<Rightarrow> char" where
  "ascii_to_lower c = (let n = (of_char c :: nat) in if 65 \<le> n \<and> n \<le> 90 then char_of (n + 32) else c)"

definition valid_userinfo :: "string \<Rightarrow> bool" where
  "valid_userinfo s \<longleftrightarrow>
     list_all (\<lambda>c. is_alnum c \<or> c \<in> set (''-._:~!$&'' @ [CHR 0x27] @ ''()*+,;=%@'')) s"

definition valid_optional_port :: "string \<Rightarrow> bool" where
  "valid_optional_port p \<longleftrightarrow> (case p of [] \<Rightarrow> True | c # ds \<Rightarrow> c = CHR '':'' \<and> list_all is_dec ds)"

text \<open>What precedes and what follows the last occurrence of a byte.\<close>

definition split_last :: "char \<Rightarrow> string \<Rightarrow> (string \<times> string) option" where
  "split_last c s = map_option (\<lambda>(b, a). (rev a, rev b)) (cut c (rev s))"

fun cut_zone :: "string \<Rightarrow> (string \<times> string) option" where
  "cut_zone [] = None"
| "cut_zone (c # cs) =
     (if prefix ''%25'' (c # cs) then Some ([], c # cs)
      else map_option (\<lambda>(b, a). (c # b, a)) (cut_zone cs))"

definition parse_bracket_host :: "(string \<Rightarrow> bool) \<Rightarrow> string \<Rightarrow> string option" where
  "parse_bracket_host ip6 host =
     (case split_last (CHR '']'') host of
        None \<Rightarrow> None
      | Some (opened, port) \<Rightarrow>
          if \<not> valid_optional_port port then None
          else
            let name = tl opened
            in case (case cut_zone name of
                       Some (addr, zone) \<Rightarrow>
                         (case (url_unescape EncodeHost addr, url_unescape EncodeZone zone) of
                            (Some a, Some z) \<Rightarrow> Some (a @ z)
                          | _ \<Rightarrow> None)
                     | None \<Rightarrow> url_unescape EncodeHost name) of
                 None \<Rightarrow> None
               | Some n \<Rightarrow> if ip6 n then Some (''['' @ n @ '']'' @ port) else None)"

text \<open>
  \<^verbatim>\<open>parseHost\<close>: a PostgreSQL URL may name several hosts with ports, so only its last colon starts a port.
\<close>

definition parse_host :: "(string \<Rightarrow> bool) \<Rightarrow> string \<Rightarrow> string \<Rightarrow> string option" where
  "parse_host ip6 scheme host =
     (if CHR ''['' \<in> set host then
        (if CHR ''['' \<in> set (tl host) then None else parse_bracket_host ip6 host)
      else
        case cut (CHR '':'') host of
          None \<Rightarrow> url_unescape EncodeHost host
        | Some (_, after_first) \<Rightarrow>
            let port = (if CHR '':'' \<in> set after_first \<and> scheme \<in> {''postgres'', ''postgresql''}
                        then (case split_last (CHR '':'') host of None \<Rightarrow> [] | Some (_, p) \<Rightarrow> p) else after_first)
            in if list_all is_dec port then url_unescape EncodeHost host else None)"

definition parse_authority :: "(string \<Rightarrow> bool) \<Rightarrow> string \<Rightarrow> string \<Rightarrow> (userinfo option \<times> string) option" where
  "parse_authority ip6 scheme authority =
     (case split_last (CHR ''@'') authority of
        None \<Rightarrow> map_option (Pair None) (parse_host ip6 scheme authority)
      | Some (info, host) \<Rightarrow>
     (case parse_host ip6 scheme host of
        None \<Rightarrow> None
      | Some h \<Rightarrow>
          if \<not> valid_userinfo info then None
          else case cut (CHR '':'') info of
            None \<Rightarrow>
              map_option (\<lambda>u. (Some \<lparr>ui_username = u, ui_password = None\<rparr>, h)) (url_unescape EncodeUserPassword info)
          | Some (name, pw) \<Rightarrow>
              (case (url_unescape EncodeUserPassword name, url_unescape EncodeUserPassword pw) of
                 (Some n, Some p) \<Rightarrow> Some (Some \<lparr>ui_username = n, ui_password = Some p\<rparr>, h)
               | _ \<Rightarrow> None)))"

definition set_path :: "string \<Rightarrow> go_url \<Rightarrow> go_url option" where
  "set_path p u =
     (case url_unescape EncodePath p of
        None \<Rightarrow> None
      | Some q \<Rightarrow> Some (u\<lparr>u_path := q, u_raw_path := (if p = url_escape EncodePath q then [] else p)\<rparr>))"

definition set_fragment :: "string \<Rightarrow> go_url \<Rightarrow> go_url option" where
  "set_fragment f u =
     (case url_unescape EncodeFragment f of
        None \<Rightarrow> None
      | Some g \<Rightarrow> Some (u\<lparr>u_fragment := g, u_raw_fragment := (if f = url_escape EncodeFragment g then [] else f)\<rparr>))"

text \<open>What is left of the query, and whether a lone question mark ended it.\<close>

definition split_query :: "string \<Rightarrow> string \<times> bool \<times> string" where
  "split_query rest =
     (if suffix ''?'' rest \<and> length (filter (\<lambda>c. c = CHR ''?'') rest) = 1 then (butlast rest, True, [])
      else (case cut (CHR ''?'') rest of None \<Rightarrow> (rest, False, []) | Some (p, q) \<Rightarrow> (p, False, q)))"

text \<open>The part from the scheme on: \<^verbatim>\<open>parse(rawURL, false)\<close>.\<close>

definition parse_hier :: "(string \<Rightarrow> bool) \<Rightarrow> string \<Rightarrow> go_url \<Rightarrow> go_url option" where
  "parse_hier ip6 rest u =
     (if \<not> prefix ''/'' rest \<and> u_scheme u \<noteq> [] then Some (u\<lparr>u_opaque := rest\<rparr>)
      else if \<not> prefix ''/'' rest \<and> CHR '':'' \<in> set (before_char (CHR ''/'') rest) then None
      else if (u_scheme u \<noteq> [] \<or> \<not> prefix ''///'' rest) \<and> prefix ''//'' rest then
        (let authority = before_char (CHR ''/'') (drop 2 rest);
             path = from_char (CHR ''/'') (drop 2 rest)
         in case parse_authority ip6 (u_scheme u) authority of
           None \<Rightarrow> None
         | Some (user, host) \<Rightarrow> set_path path (u\<lparr>u_user := user, u_host := host\<rparr>))
      else set_path rest (u\<lparr>u_omit_host := (u_scheme u \<noteq> [] \<and> prefix ''/'' rest)\<rparr>))"

definition parse_no_fragment :: "(string \<Rightarrow> bool) \<Rightarrow> string \<Rightarrow> go_url option" where
  "parse_no_fragment ip6 raw =
     (if \<not> list_all (\<lambda>c. \<not> is_ctl c) raw then None
      else if raw = ''*'' then Some (empty_url\<lparr>u_path := ''*''\<rparr>)
      else case get_scheme raw of
        None \<Rightarrow> None
      | Some (scheme, rest) \<Rightarrow>
          let (rest, force, query) = split_query rest
          in parse_hier ip6 rest
               (empty_url\<lparr>u_scheme := map ascii_to_lower scheme, u_force_query := force, u_raw_query := query\<rparr>))"

definition url_parse :: "(string \<Rightarrow> bool) \<Rightarrow> string \<Rightarrow> go_url option" where
  "url_parse ip6 raw =
     (let (u, frag) = (case cut (CHR ''#'') raw of None \<Rightarrow> (raw, []) | Some uf \<Rightarrow> uf)
      in case parse_no_fragment ip6 u of
        None \<Rightarrow> None
      | Some url \<Rightarrow> if frag = [] then Some url else set_fragment frag url)"

section \<open>Printing\<close>

definition escaped_part :: "encoding \<Rightarrow> string \<Rightarrow> string \<Rightarrow> string" where
  "escaped_part m raw plain =
     (if raw \<noteq> [] \<and> valid_encoded m raw \<and> url_unescape m raw = Some plain then raw
      else if m = EncodePath \<and> plain = ''*'' then ''*''
      else url_escape m plain)"

definition userinfo_string :: "userinfo \<Rightarrow> string" where
  "userinfo_string ui =
     (if ui_username ui \<noteq> [] \<or> (case ui_password ui of None \<Rightarrow> False | Some p \<Rightarrow> p \<noteq> [])
      then url_escape EncodeUserPassword (ui_username ui) @
        (case ui_password ui of None \<Rightarrow> [] | Some p \<Rightarrow> '':'' @ url_escape EncodeUserPassword p)
      else [])"

definition url_prefix :: "go_url \<Rightarrow> string" where
  "url_prefix u =
     (if u_scheme u \<noteq> [] then u_scheme u @ '':'' else []) @
     (if (u_scheme u \<noteq> [] \<or> u_host u \<noteq> [] \<or> u_user u \<noteq> None) \<and>
         \<not> (u_omit_host u \<and> u_host u = [] \<and> u_user u = None) then
        (if u_host u \<noteq> [] \<or> u_path u \<noteq> [] \<or> u_user u \<noteq> None then ''//'' else []) @
        (case u_user u of None \<Rightarrow> [] | Some ui \<Rightarrow> userinfo_string ui @ ''@'') @
        url_escape EncodeHost (u_host u)
      else [])"

definition url_string :: "go_url \<Rightarrow> string" where
  "url_string u =
     (if u_opaque u \<noteq> [] then (if u_scheme u \<noteq> [] then u_scheme u @ '':'' else []) @ u_opaque u
      else
        let path = escaped_part EncodePath (u_raw_path u) (u_path u);
            start = url_prefix u @ (if path \<noteq> [] \<and> hd path \<noteq> CHR ''/'' \<and> u_host u \<noteq> [] then ''/'' else [])
        in start @
           (if start = [] \<and> CHR '':'' \<in> set (before_char (CHR ''/'') path) then ''./'' else []) @ path) @
     (if u_force_query u \<or> u_raw_query u \<noteq> [] then ''?'' @ u_raw_query u else []) @
     (if u_fragment u \<noteq> [] then ''#'' @ escaped_part EncodeFragment (u_raw_fragment u) (u_fragment u) else [])"

end
