(* ===== verification/Admin.thy ===== *)
theory Admin
  imports Lists Writing Config
begin

text \<open>
  \<^verbatim>\<open>internal/admin/admin.go\<close> and \<^verbatim>\<open>assets.go\<close>: how the handlers are put together. The routing is that
  of \<^verbatim>\<open>http.ServeMux\<close> for the patterns of the source and a path in canonical form (the server's own mux
  redirects any other): a pattern matches its method, and HEAD where that is GET, and the unescaped
  segments of the path, \<open>{id}\<close> matching one; a path that is known under other methods only is answered 405.
\<close>

section \<open>The handler\<close>

definition new_handler ::
  "'s store \<Rightarrow> (string \<Rightarrow> zone option) \<Rightarrow> external \<Rightarrow> admin_config \<Rightarrow> 's handler" where
  "new_handler st zones ext cfg =
     \<lparr>h_store = st,
      h_sessions = new_sessions (secret_raw (ac_session_secret cfg)) (ac_session_ttl cfg) (ac_insecure_cookie cfg),
      h_hash = secret_raw (ac_password_hash cfg),
      h_zone = admin_location zones cfg,
      h_ext = ext\<rparr>"

text \<open>The state a server starts with: the limiter is part of the handler in the source.\<close>

definition new_server :: "'s \<Rightarrow> admin_config \<Rightarrow> 's server" where
  "new_server db cfg = \<lparr>sv_db = db, sv_logins = new_limiter (ac_login_attempts cfg) (ac_login_window cfg)\<rparr>"

section \<open>Assets\<close>

definition htmxFile :: string where
  "htmxFile = ''htmx-2.0.10.min.js''"

definition quoted :: "string \<Rightarrow> string" where
  "quoted s = CHR 0x27 # s @ [CHR 0x27]"

definition contentSecurityPolicy :: string where
  "contentSecurityPolicy =
     ''default-src '' @ quoted ''self'' @ ''; '' @
     ''script-src '' @ quoted ''self'' @ ''; '' @
     ''style-src '' @ quoted ''self'' @ ''; '' @
     ''img-src '' @ quoted ''self'' @ '' data:; '' @
     ''form-action '' @ quoted ''self'' @ ''; '' @
     ''frame-ancestors '' @ quoted ''none'' @ ''; '' @
     ''base-uri '' @ quoted ''none''"

text \<open>\<open>static\<close> is the embedded directory, whose files are not code.\<close>

definition serve_asset :: "(string \<Rightarrow> string option) \<Rightarrow> 's handler_func" where
  "serve_asset static r w sv =
     (let p = trim_prefix ''/admin/static/'' (url_path r);
          name = (if p = ''htmx.min.js'' then Some htmxFile
                  else if p = ''app.css'' then Some ''app.css'' else None);
          missing = (http_error ''404 page not found'' 404 w, sv)
      in case name of
        None \<Rightarrow> missing
      | Some n \<Rightarrow>
     (case static (''static/'' @ n) of
        None \<Rightarrow> missing
      | Some content \<Rightarrow>
          ((set_header ''Cache-Control'' ''no-cache''
             (set_header ''Content-Type''
               (if suffix ''.css'' n then ''text/css; charset=utf-8'' else ''text/javascript; charset=utf-8'') w))
           \<lparr>body := Asset content\<rparr>, sv)))"

definition secured :: "'s handler_func \<Rightarrow> 's handler_func" where
  "secured handle r w sv =
     handle r
       (set_header ''Referrer-Policy'' ''same-origin''
         (set_header ''X-Content-Type-Options'' ''nosniff''
           (set_header ''Content-Security-Policy'' contentSecurityPolicy w))) sv"

section \<open>Routes\<close>

datatype route =
    LoginForm | LoginPost | StaticFile
  | LogoutPost | AdminIndex
  | ListPosts | NewPost | CreatePost | EditPost | UpdatePost | AutosavePost
  | ListPages | NewPage | CreatePage | EditPage | UpdatePage | AutosavePage

datatype segment = Seg string | AnyId | EndSlash | AnyRest

text \<open>A pattern: its method, its segments, and what it leads to. \<open>EndSlash\<close> is the \<open>{$}\<close> of a pattern,
  \<open>AnyRest\<close> the final slash that matches a subtree.\<close>

definition public_patterns :: "(string \<times> segment list \<times> route) list" where
  "public_patterns =
    [(''GET'', [Seg ''admin'', Seg ''login''], LoginForm),
     (''POST'', [Seg ''admin'', Seg ''login''], LoginPost),
     (''GET'', [Seg ''admin'', Seg ''static'', AnyRest], StaticFile)]"

definition guarded_patterns :: "(string \<times> segment list \<times> route) list" where
  "guarded_patterns =
    [(''POST'', [Seg ''admin'', Seg ''logout''], LogoutPost),
     (''GET'', [Seg ''admin'', EndSlash], AdminIndex),
     (''GET'', [Seg ''admin'', Seg ''posts''], ListPosts),
     (''GET'', [Seg ''admin'', Seg ''posts'', Seg ''new''], NewPost),
     (''POST'', [Seg ''admin'', Seg ''posts''], CreatePost),
     (''GET'', [Seg ''admin'', Seg ''posts'', AnyId, Seg ''edit''], EditPost),
     (''POST'', [Seg ''admin'', Seg ''posts'', AnyId], UpdatePost),
     (''POST'', [Seg ''admin'', Seg ''posts'', AnyId, Seg ''autosave''], AutosavePost),
     (''GET'', [Seg ''admin'', Seg ''pages''], ListPages),
     (''GET'', [Seg ''admin'', Seg ''pages'', Seg ''new''], NewPage),
     (''POST'', [Seg ''admin'', Seg ''pages''], CreatePage),
     (''GET'', [Seg ''admin'', Seg ''pages'', AnyId, Seg ''edit''], EditPage),
     (''POST'', [Seg ''admin'', Seg ''pages'', AnyId], UpdatePage),
     (''POST'', [Seg ''admin'', Seg ''pages'', AnyId, Seg ''autosave''], AutosavePage)]"

text \<open>
  The segments after the leading slash; a trailing slash leaves a last empty one. The match
  returns what \<open>{id}\<close> stands for, empty without one.
\<close>

fun match_segments :: "segment list \<Rightarrow> string list \<Rightarrow> string option" where
  "match_segments [] [] = Some []"
| "match_segments [EndSlash] [s] = (if s = [] then Some [] else None)"
| "match_segments [AnyRest] (s # ss) = Some []"
| "match_segments (Seg a # ps) (s # ss) = (if a = s then match_segments ps ss else None)"
| "match_segments (AnyId # ps) (s # ss) =
     (if s = [] then None else case match_segments ps ss of None \<Rightarrow> None | Some _ \<Rightarrow> Some s)"
| "match_segments ps ss = None"

definition path_segments :: "request \<Rightarrow> string list" where
  "path_segments r =
     map (\<lambda>s. case path_unescape s of Some u \<Rightarrow> u | None \<Rightarrow> s)
       (drop 1 (split_on (CHR ''/'') (escaped_path r)))"

definition method_matches :: "string \<Rightarrow> request \<Rightarrow> bool" where
  "method_matches m r \<longleftrightarrow> req_method r = m \<or> m = ''GET'' \<and> req_method r = ''HEAD''"

definition find_route :: "(string \<times> segment list \<times> route) list \<Rightarrow> request \<Rightarrow> (route \<times> string) option" where
  "find_route ps r =
     (case List.map_filter (\<lambda>(m, segs, rt).
              if method_matches m r then map_option (Pair rt) (match_segments segs (path_segments r)) else None) ps of
        [] \<Rightarrow> None
      | m # _ \<Rightarrow> Some m)"

text \<open>The methods a path is known under, as the \<^verbatim>\<open>Allow\<close> header lists them.\<close>

definition allowed_methods :: "(string \<times> segment list \<times> route) list \<Rightarrow> request \<Rightarrow> string list" where
  "allowed_methods ps r =
     (let known = map fst (filter (\<lambda>(m, segs, rt). match_segments segs (path_segments r) \<noteq> None) ps)
      in (if ''GET'' \<in> set known then [''GET'', ''HEAD''] else []) @
         (if ''POST'' \<in> set known then [''POST''] else []))"

definition no_route :: "(string \<times> segment list \<times> route) list \<Rightarrow> 's handler_func" where
  "no_route ps r w sv =
     (case allowed_methods ps r of
        [] \<Rightarrow> (http_error ''404 page not found'' 404 w, sv)
      | ms \<Rightarrow> (http_error ''Method Not Allowed'' 405 (set_header ''Allow'' (join '', '' ms) w), sv))"

definition run_route ::
  "'s handler \<Rightarrow> (string \<Rightarrow> string option) \<Rightarrow> readings \<Rightarrow> route \<Rightarrow> 's handler_func" where
  "run_route h static now rt =
     (case rt of
        LoginForm \<Rightarrow> login_form_handler
      | LoginPost \<Rightarrow> login h now
      | StaticFile \<Rightarrow> serve_asset static
      | LogoutPost \<Rightarrow> logout h
      | AdminIndex \<Rightarrow> (\<lambda>r w sv. (http_redirect r ''/admin/posts'' 303 w, sv))
      | ListPosts \<Rightarrow> list_posts h now
      | NewPost \<Rightarrow> blank h (posts_resource (h_store h))
      | CreatePost \<Rightarrow> save h now (posts_resource (h_store h)) True
      | EditPost \<Rightarrow> edit h now (posts_resource (h_store h))
      | UpdatePost \<Rightarrow> save h now (posts_resource (h_store h)) False
      | AutosavePost \<Rightarrow> autosave h now (posts_resource (h_store h))
      | ListPages \<Rightarrow> list_pages h now
      | NewPage \<Rightarrow> blank h (pages_resource (h_store h))
      | CreatePage \<Rightarrow> save h now (pages_resource (h_store h)) True
      | EditPage \<Rightarrow> edit h now (pages_resource (h_store h))
      | UpdatePage \<Rightarrow> save h now (pages_resource (h_store h)) False
      | AutosavePage \<Rightarrow> autosave h now (pages_resource (h_store h)))"

definition dispatch ::
  "(route \<Rightarrow> 's handler_func) \<Rightarrow> (string \<times> segment list \<times> route) list \<Rightarrow> 's handler_func \<Rightarrow> 's handler_func" where
  "dispatch run ps otherwise r w sv =
     (case find_route ps r of
        Some (rt, i) \<Rightarrow> run rt (r\<lparr>path_id := i\<rparr>) w sv
      | None \<Rightarrow> otherwise r w sv)"

text \<open>What \<^verbatim>\<open>routes\<close> returns: the public patterns, everything else behind the session, all of it secured.\<close>

definition routes :: "'s handler \<Rightarrow> (string \<Rightarrow> string option) \<Rightarrow> readings \<Rightarrow> 's handler_func" where
  "routes h static now =
     secured
       (dispatch (run_route h static now) public_patterns
         (require_session h now
           (dispatch (run_route h static now) guarded_patterns (no_route guarded_patterns))))"

definition empty_response :: page_response where
  "empty_response = \<lparr>status = 200, headers = [], set_cookies = [], body = NoBody\<rparr>"

definition serve :: "'s handler \<Rightarrow> (string \<Rightarrow> string option) \<Rightarrow> readings \<Rightarrow> request \<Rightarrow> 's server \<Rightarrow> page_response \<times> 's server" where
  "serve h static now r sv = routes h static now r empty_response sv"

end
