(* ===== verification/Schema.thy ===== *)
theory Schema
  imports Store "HOL-Library.List_Lexorder" "HOL-Library.Char_ord"
begin

text \<open>
  The database of \<^verbatim>\<open>internal/database/migrations\<close>: the two tables with their constraints, the
  statements the store runs on them, and the interpretation of \<open>pop_connection\<close> on it. Case
  folding and slug order are those of the C locale; instants keep microseconds.
\<close>

section \<open>Constraints\<close>

definition slug_char :: "char \<Rightarrow> bool" where
  "slug_char c \<longleftrightarrow> c \<in> set ''abcdefghijklmnopqrstuvwxyz0123456789''"

text \<open>\<^verbatim>\<open>slug ~ '^[a-z0-9]+(-[a-z0-9]+)*$'\<close>\<close>

definition slug_format :: "string \<Rightarrow> bool" where
  "slug_format s \<longleftrightarrow> list_all (\<lambda>w. w \<noteq> [] \<and> list_all slug_char w) (split_on (CHR ''-'') s)"

text \<open>\<^verbatim>\<open>length(btrim(title)) > 0\<close>: \<^verbatim>\<open>btrim\<close> removes spaces only\<close>

definition btrim :: "string \<Rightarrow> string" where
  "btrim s = rev (dropWhile (\<lambda>c. c = CHR '' '') (rev (dropWhile (\<lambda>c. c = CHR '' '') s)))"

definition title_present :: "string \<Rightarrow> bool" where
  "title_present s \<longleftrightarrow> 0 < length (btrim s)"

record db =
  db_posts :: "row list"
  db_pages :: "row list"
  db_clock :: go_time
  db_down :: "go_error option" \<comment> \<open>the connection fails with this error\<close>

definition db_table :: "db \<Rightarrow> string \<Rightarrow> row list" where
  "db_table d t =
     (if t = post_table_name then db_posts d else if t = page_table_name then db_pages d else [])"

definition set_table :: "string \<Rightarrow> row list \<Rightarrow> db \<Rightarrow> db" where
  "set_table t rs d =
     (if t = post_table_name then d\<lparr>db_posts := rs\<rparr>
      else if t = page_table_name then d\<lparr>db_pages := rs\<rparr> else d)"

definition known_table :: "string \<Rightarrow> bool" where
  "known_table t \<longleftrightarrow> t = post_table_name \<or> t = page_table_name"

text \<open>
  Checks come before the unique indexes, and the primary key before the slug; \<open>others\<close> are the other
  rows of the table.
\<close>

definition row_error :: "string \<Rightarrow> row list \<Rightarrow> row \<Rightarrow> go_error option" where
  "row_error t others r =
     (if \<not> slug_format (r_slug r) then Some (PgError pgCheckViolation (t @ ''_slug_format''))
      else if \<not> title_present (r_title r) then Some (PgError pgCheckViolation (t @ ''_title_present''))
      else if r_id r \<in> r_id ` set others then Some (PgError pgUniqueViolation (t @ ''_pkey''))
      else if r_slug r \<in> r_slug ` set others then Some (PgError pgUniqueViolation (t @ ''_slug_key''))
      else None)"

section \<open>Statements\<close>

definition micros :: "go_time \<Rightarrow> go_time" where
  "micros t = 1000 * (t div 1000)"

definition ascii_lower :: "string \<Rightarrow> string" where
  "ascii_lower s = map (\<lambda>c. if CHR ''A'' \<le> c \<and> c \<le> CHR ''Z'' then char_of (of_char c + 32 :: nat) else c) s"

definition unknown_table :: "string \<Rightarrow> go_error" where
  "unknown_table t = PgError ''42P01'' []"

definition order_rows :: "order option \<Rightarrow> row list \<Rightarrow> row list" where
  "order_rows ord rs =
     (case ord of
        None \<Rightarrow> rs
      | Some NewestFirst \<Rightarrow> sort_key newest_key rs
      | Some SlugAsc \<Rightarrow> sort_key r_slug rs)"

definition schema_select :: "db \<Rightarrow> string \<Rightarrow> sql_query \<Rightarrow> go_error + row list" where
  "schema_select d t q =
     (case db_down d of
        Some e \<Rightarrow> Inl e
      | None \<Rightarrow>
          if \<not> known_table t then Inl (unknown_table t)
          else Inr (filter (satisfies ascii_lower (db_clock d) q) (db_table d t)))"

definition schema_first :: "db \<Rightarrow> string \<Rightarrow> sql_query \<Rightarrow> go_error + row" where
  "schema_first d t q =
     (case schema_select d t q of
        Inl e \<Rightarrow> Inl e
      | Inr [] \<Rightarrow> Inl ErrNoRows
      | Inr (r # _) \<Rightarrow> Inr r)"

definition schema_all :: "db \<Rightarrow> string \<Rightarrow> sql_query \<Rightarrow> go_error + row list" where
  "schema_all d t q =
     (case schema_select d t q of
        Inl e \<Rightarrow> Inl e
      | Inr rs \<Rightarrow> Inr (page_of (q_page q) (order_rows (q_order q) rs)))"

definition schema_create ::
  "db \<Rightarrow> string \<Rightarrow> (row \<Rightarrow> go_error + row) \<Rightarrow> row \<Rightarrow> (go_error + row) \<times> db" where
  "schema_create d t hook r =
     (case hook r of
        Inl e \<Rightarrow> (Inl e, d)
      | Inr r' \<Rightarrow>
     (case db_down d of
        Some e \<Rightarrow> (Inl e, d)
      | None \<Rightarrow>
          if \<not> known_table t then (Inl (unknown_table t), d)
          else if r_id r' = uuid_nil then (Inl (OtherError ''no identifier''), d)
          else let r'' = r'\<lparr>r_created_at := db_clock d, r_updated_at := db_clock d\<rparr>
               in case row_error t (db_table d t) r'' of
                    Some e \<Rightarrow> (Inl e, d)
                  | None \<Rightarrow> (Inr r'', set_table t (db_table d t @ [stored_row micros r'']) d)))"

text \<open>\<^verbatim>\<open>UPDATE\<close> by primary key, without the ID and the creation time\<close>

definition overwrite :: "row \<Rightarrow> row list \<Rightarrow> row list" where
  "overwrite r rs =
     map (\<lambda>x. if r_id x = r_id r then stored_row micros (r\<lparr>r_created_at := r_created_at x\<rparr>) else x) rs"

definition schema_update :: "db \<Rightarrow> string \<Rightarrow> row \<Rightarrow> (go_error + row) \<times> db" where
  "schema_update d t r =
     (case db_down d of
        Some e \<Rightarrow> (Inl e, d)
      | None \<Rightarrow>
          if \<not> known_table t then (Inl (unknown_table t), d)
          else let r' = r\<lparr>r_updated_at := db_clock d\<rparr>;
                   others = filter (\<lambda>x. r_id x \<noteq> r_id r) (db_table d t)
               in if r_id r \<notin> r_id ` set (db_table d t) then (Inr r', d)
                  else case row_error t others r' of
                    Some e \<Rightarrow> (Inl e, d)
                  | None \<Rightarrow> (Inr r', set_table t (overwrite r' (db_table d t)) d))"

definition schema_conn :: "db pop" where
  "schema_conn =
     \<lparr>pop_first = schema_first, pop_all = schema_all, pop_create = schema_create, pop_update = schema_update\<rparr>"

section \<open>The schema's invariant\<close>

definition table_ok :: "row list \<Rightarrow> bool" where
  "table_ok rs \<longleftrightarrow>
     distinct (map r_id rs) \<and> distinct (map r_slug rs) \<and>
     list_all (\<lambda>r. slug_format (r_slug r) \<and> title_present (r_title r) \<and> stored_row micros r = r) rs"

definition schema_valid :: "db \<Rightarrow> bool" where
  "schema_valid d \<longleftrightarrow> table_ok (db_posts d) \<and> table_ok (db_pages d) \<and>
     (case db_down d of
        None \<Rightarrow> True
      | Some e \<Rightarrow> foreign_error e \<and> errors_as_pg e = None \<and> \<not> errors_is e ErrNoRows)"

definition by_id :: "row list \<Rightarrow> uuid \<Rightarrow> row option" where
  "by_id rs = map_of (map (\<lambda>r. (r_id r, r)) rs)"

definition schema_rows :: "db \<Rightarrow> tables" where
  "schema_rows d t = by_id (db_table d t)"

lemma micros_idem [simp]: "micros (micros t) = micros t"
  by (simp add: micros_def)

lemma stored_row_idem [simp]: "stored_row micros (stored_row micros r) = stored_row micros r"
  by (simp add: stored_row_def option.map_comp comp_def)

lemma db_table_set [simp]:
  "known_table t \<Longrightarrow> db_table (set_table t rs d) t' = (if t' = t then rs else db_table d t')"
  "db_down (set_table t rs d) = db_down d" "db_clock (set_table t rs d) = db_clock d"
  by (auto simp: db_table_def set_table_def known_table_def)

lemma db_table_unknown: "\<not> known_table t \<Longrightarrow> db_table d t = []"
  by (simp add: db_table_def known_table_def)

lemma valid_table: "schema_valid d \<Longrightarrow> table_ok (db_table d t)"
  by (simp add: schema_valid_def db_table_def table_ok_def)

lemma valid_set_table: "schema_valid d \<Longrightarrow> table_ok rs \<Longrightarrow> schema_valid (set_table t rs d)"
  by (simp add: schema_valid_def set_table_def)

lemma by_id_simps [simp]:
  "by_id [] = Map.empty" "by_id (x # rs) = (by_id rs)(r_id x \<mapsto> x)"
  by (simp_all add: by_id_def)

lemma by_id_iff: "distinct (map r_id rs) \<Longrightarrow> by_id rs i = Some r \<longleftrightarrow> r \<in> set rs \<and> r_id r = i"
  by (auto simp: by_id_def comp_def)

lemma by_id_None: "by_id rs i = None \<longleftrightarrow> i \<notin> r_id ` set rs"
  by (auto simp: by_id_def map_of_eq_None_iff image_image)

lemma by_id_snoc: "r_id x \<notin> r_id ` set rs \<Longrightarrow> by_id (rs @ [x]) = (by_id rs)(r_id x \<mapsto> x)"
  by (induction rs) (auto simp: fun_upd_twist)

lemma schema_rows_iff:
  "schema_valid d \<Longrightarrow> schema_rows d t i = Some r \<longleftrightarrow> r \<in> set (db_table d t) \<and> r_id r = i"
  using valid_table [of d t] by (simp add: schema_rows_def table_ok_def by_id_iff)

lemma schema_rows_None: "schema_rows d t i = None \<longleftrightarrow> i \<notin> r_id ` set (db_table d t)"
  by (simp add: schema_rows_def by_id_None)

lemma row_error_None:
  "row_error t others r = None \<longleftrightarrow>
     slug_format (r_slug r) \<and> title_present (r_title r) \<and>
     r_id r \<notin> r_id ` set others \<and> r_slug r \<notin> r_slug ` set others"
  by (auto simp: row_error_def)

lemma row_error_pg: "row_error t others r = Some e \<Longrightarrow> foreign_error e \<and> errors_as_pg e \<noteq> None"
  by (auto simp: row_error_def foreign_error_def content_errors_def split: if_splits)

lemma table_ok_append:
  "table_ok rs \<Longrightarrow> row_error t rs r = None \<Longrightarrow> table_ok (rs @ [stored_row micros r])"
  by (auto simp: table_ok_def row_error_None)

lemma overwrite_simps [simp]:
  "overwrite r [] = []"
  "overwrite r (x # rs) =
     (if r_id x = r_id r then stored_row micros (r\<lparr>r_created_at := r_created_at x\<rparr>) else x) # overwrite r rs"
  by (simp_all add: overwrite_def)

lemma overwrite_ids [simp]: "map r_id (overwrite r rs) = map r_id rs"
  by (simp add: overwrite_def)

lemma overwrite_other: "r_id r \<notin> r_id ` set rs \<Longrightarrow> overwrite r rs = rs"
  by (induction rs) auto

lemma by_id_overwrite:
  "distinct (map r_id rs) \<Longrightarrow> by_id (overwrite r rs) =
     (case by_id rs (r_id r) of
        None \<Rightarrow> by_id rs
      | Some old \<Rightarrow> (by_id rs)(r_id r \<mapsto> stored_row micros (r\<lparr>r_created_at := r_created_at old\<rparr>)))"
proof (induction rs)
  case (Cons x rs)
  show ?case
  proof (cases "r_id x = r_id r")
    case True
    then have "overwrite r rs = rs" using Cons.prems by (intro overwrite_other) auto
    with True show ?thesis by (simp add: fun_upd_upd)
  next
    case False
    with Cons show ?thesis by (auto simp: fun_eq_iff split: option.split)
  qed
qed simp

lemma overwrite_slug_set: "r_slug ` set (overwrite r rs) \<subseteq> insert (r_slug r) (r_slug ` {x \<in> set rs. r_id x \<noteq> r_id r})"
  by (auto simp: overwrite_def)

lemma overwrite_slugs:
  assumes "distinct (map r_slug rs)" and "distinct (map r_id rs)"
    and "r_slug r \<notin> r_slug ` {x \<in> set rs. r_id x \<noteq> r_id r}"
  shows "distinct (map r_slug (overwrite r rs))"
  using assms
proof (induction rs)
  case (Cons x rs)
  have ih: "distinct (map r_slug (overwrite r rs))" using Cons by auto
  have out: "r_slug r \<notin> r_slug ` {y \<in> set rs. r_id y \<noteq> r_id r}" using Cons.prems(3) by auto
  show ?case
  proof (cases "r_id x = r_id r")
    case True
    then have "overwrite r rs = rs" "{y \<in> set rs. r_id y \<noteq> r_id r} = set rs"
      using Cons.prems(2) by (auto intro!: overwrite_other) (metis imageI)
    with True ih out show ?thesis by simp
  next
    case False
    then have "r_slug x \<noteq> r_slug r" using Cons.prems(3) by (force simp: image_iff)
    moreover have "r_slug x \<notin> r_slug ` set rs" using Cons.prems(1) by simp
    ultimately have "r_slug x \<notin> r_slug ` set (overwrite r rs)"
      using overwrite_slug_set [of r rs] by blast
    with False ih show ?thesis by simp
  qed
qed simp

lemma table_ok_overwrite:
  assumes "table_ok rs" and "row_error t (filter (\<lambda>x. r_id x \<noteq> r_id r) rs) r = None"
  shows "table_ok (overwrite r rs)"
proof -
  have "distinct (map r_slug (overwrite r rs))"
    using assms by (intro overwrite_slugs) (auto simp: table_ok_def row_error_None)
  moreover have "list_all (\<lambda>r. slug_format (r_slug r) \<and> title_present (r_title r) \<and> stored_row micros r = r)
      (overwrite r rs)"
    using assms by (auto simp: table_ok_def row_error_None overwrite_def list_all_iff)
  ultimately show ?thesis using assms by (simp add: table_ok_def overwrite_ids)
qed

section \<open>The laws\<close>

lemma schema_select_Inr:
  "schema_valid d \<Longrightarrow> schema_select d t q = Inr rs \<Longrightarrow>
     rs = filter (satisfies ascii_lower (db_clock d) q) (db_table d t)"
  by (auto simp: schema_select_def split: option.splits if_splits)

lemma schema_select_Inl:
  "schema_valid d \<Longrightarrow> schema_select d t q = Inl e \<Longrightarrow> foreign_error e \<and> \<not> errors_is e ErrNoRows"
  by (auto simp: schema_select_def schema_valid_def unknown_table_def foreign_error_def content_errors_def
      split: option.splits if_splits)

lemma order_rows_props:
  "set (order_rows ord rs) = set rs" "distinct (order_rows ord rs) = distinct rs"
  by (auto simp: order_rows_def split: option.splits order.splits)

lemma order_le_fun:
  "order_le le NewestFirst = (\<lambda>a b. newest_key a \<le> newest_key b)"
  "order_le le SlugAsc = (\<lambda>a b. le (r_slug a) (r_slug b))"
  by (auto intro!: ext)

lemma order_rows_sorted: "sorted_wrt (order_le (\<le>) ord) (order_rows (Some ord) rs)"
  using sorted_sort_key [of newest_key rs] sorted_sort_key [of r_slug rs]
  by (cases ord) (auto simp: order_rows_def sorted_map order_le_fun)

lemma schema_first_row:
  assumes "schema_valid d" and "schema_first d t q = Inr r"
  shows "schema_rows d t (r_id r) = Some r \<and> satisfies ascii_lower (db_clock d) q r"
proof -
  from assms(2) obtain rs where "schema_select d t q = Inr (r # rs)"
    by (auto simp: schema_first_def split: sum.splits list.splits)
  with assms(1) have "r # rs = filter (satisfies ascii_lower (db_clock d) q) (db_table d t)"
    by (rule schema_select_Inr)
  then have "r \<in> set (filter (satisfies ascii_lower (db_clock d) q) (db_table d t))"
    by (metis list.set_intros(1))
  with assms(1) show ?thesis by (simp add: schema_rows_iff)
qed

lemma schema_first_none:
  assumes "schema_valid d" and "schema_first d t q = Inl e" and "errors_is e ErrNoRows"
    and "schema_rows d t i = Some r"
  shows "\<not> satisfies ascii_lower (db_clock d) q r"
proof -
  from assms schema_select_Inl [OF assms(1)] have "schema_select d t q = Inr []"
    by (auto simp: schema_first_def split: sum.splits list.splits)
  with assms(1) have "filter (satisfies ascii_lower (db_clock d) q) (db_table d t) = []"
    by (metis schema_select_Inr)
  with assms show ?thesis by (auto simp: schema_rows_iff filter_empty_conv)
qed

lemma schema_first_error: "schema_valid d \<Longrightarrow> schema_first d t q = Inl e \<Longrightarrow> foreign_error e"
  using schema_select_Inl [of d t q e]
  by (auto simp: schema_first_def foreign_error_def content_errors_def split: sum.splits list.splits)

lemma schema_all_rows:
  assumes "schema_valid d" and "schema_all d t q = Inr rs"
  shows "\<exists>xs. distinct xs \<and>
    set xs = {r. schema_rows d t (r_id r) = Some r \<and> satisfies ascii_lower (db_clock d) q r} \<and>
    (\<forall>ord. q_order q = Some ord \<longrightarrow> sorted_wrt (order_le (\<le>) ord) xs) \<and> rs = page_of (q_page q) xs"
proof -
  let ?fs = "filter (satisfies ascii_lower (db_clock d) q) (db_table d t)"
  from assms have "rs = page_of (q_page q) (order_rows (q_order q) ?fs)"
    using schema_select_Inr [OF assms(1)] by (auto simp: schema_all_def split: sum.splits)
  moreover have "distinct ?fs"
    using valid_table [OF assms(1), of t] by (simp add: table_ok_def distinct_map)
  ultimately show ?thesis
    using assms(1)
    by (intro exI [of _ "order_rows (q_order q) ?fs"])
      (auto simp: order_rows_props schema_rows_iff order_rows_sorted)
qed

lemma schema_create_ok:
  assumes "schema_valid d" and "schema_create d t hook r = (Inr r'', d')"
  shows "\<exists>r'. hook r = Inr r' \<and> r_id r'' = r_id r' \<and>
    r'' = r'\<lparr>r_created_at := db_clock d, r_updated_at := db_clock d\<rparr> \<and>
    known_table t \<and> row_error t (db_table d t) r'' = None \<and>
    d' = set_table t (db_table d t @ [stored_row micros r'']) d"
  using assms(2)
  by (auto simp: schema_create_def Let_def split: sum.splits option.splits if_splits)

lemma schema_update_ok:
  assumes "schema_update d t r = (Inr r', d')"
  shows "r' = r\<lparr>r_updated_at := db_clock d\<rparr> \<and> known_table t \<and>
    (r_id r \<notin> r_id ` set (db_table d t) \<and> d' = d \<or>
     r_id r \<in> r_id ` set (db_table d t) \<and>
     row_error t (filter (\<lambda>x. r_id x \<noteq> r_id r) (db_table d t)) r' = None \<and>
     d' = set_table t (overwrite r' (db_table d t)) d)"
  using assms
  by (auto simp: schema_update_def Let_def split: sum.splits option.splits if_splits)

lemma schema_write_error:
  assumes "schema_valid d"
  shows "schema_create d t hook r = (Inl e, d') \<Longrightarrow> d' = d \<and> ((\<exists>h. hook r = Inl h \<and> e = h) \<or> foreign_error e)"
    and "schema_update d t r = (Inl e, d') \<Longrightarrow> d' = d \<and> foreign_error e"
  using assms
  by (auto simp: schema_create_def schema_update_def Let_def schema_valid_def unknown_table_def
      foreign_error_def content_errors_def dest: row_error_pg
      split: sum.splits option.splits if_splits)

lemma schema_rows_insert:
  assumes "known_table t" and "row_error t (db_table d t) r = None"
    and "r = r0\<lparr>r_created_at := at, r_updated_at := at\<rparr>"
  shows "schema_rows (set_table t (db_table d t @ [stored_row micros r]) d) =
    inserted micros at t r (schema_rows d)"
proof
  fix t'
  have "by_id (db_table d t @ [stored_row micros r]) = (by_id (db_table d t))(r_id r \<mapsto> stored_row micros r)"
    using by_id_snoc [of "stored_row micros r" "db_table d t"] assms(2) by (simp add: row_error_None)
  moreover have "r\<lparr>r_created_at := at, r_updated_at := at\<rparr> = r" by (simp add: assms(3))
  ultimately show "schema_rows (set_table t (db_table d t @ [stored_row micros r]) d) t' =
      inserted micros at t r (schema_rows d) t'"
    using assms(1) by (simp add: schema_rows_def inserted_def)
qed

lemma schema_rows_overwrite:
  assumes "schema_valid d" and "known_table t" and "r = r0\<lparr>r_updated_at := at\<rparr>"
  shows "schema_rows (set_table t (overwrite r (db_table d t)) d) = updated micros at t r (schema_rows d)"
proof
  fix t'
  have "distinct (map r_id (db_table d t))" using valid_table [OF assms(1)] by (simp add: table_ok_def)
  note new = by_id_overwrite [OF this, of r]
  have same: "r\<lparr>r_created_at := c, r_updated_at := at\<rparr> = r\<lparr>r_created_at := c\<rparr>" for c
    by (simp add: assms(3))
  show "schema_rows (set_table t (overwrite r (db_table d t)) d) t' =
      updated micros at t r (schema_rows d) t'"
    using assms(2)
    by (cases "by_id (db_table d t) (r_id r)") (simp_all add: schema_rows_def updated_def new same)
qed

lemma schema_valid_create:
  assumes "schema_valid d"
  shows "schema_valid (snd (schema_create d t hook r))"
proof (cases "schema_create d t hook r")
  case (Pair res d')
  show ?thesis
  proof (cases res)
    case (Inl e)
    with Pair assms show ?thesis using schema_write_error(1) [OF assms, of t hook r e d'] by simp
  next
    case (Inr r'')
    with Pair have "schema_create d t hook r = (Inr r'', d')" by simp
    from schema_create_ok [OF assms this] have
      "row_error t (db_table d t) r'' = None" "d' = set_table t (db_table d t @ [stored_row micros r'']) d"
      by blast+
    with Pair assms show ?thesis by (simp add: valid_set_table table_ok_append valid_table)
  qed
qed

lemma schema_valid_update:
  assumes "schema_valid d"
  shows "schema_valid (snd (schema_update d t r))"
proof (cases "schema_update d t r")
  case (Pair res d')
  show ?thesis
  proof (cases res)
    case (Inl e)
    with Pair assms show ?thesis using schema_write_error(2) [OF assms, of t r e d'] by simp
  next
    case (Inr r')
    with Pair have "schema_update d t r = (Inr r', d')" by simp
    from schema_update_ok [OF this]
    have "d' = d \<or> d' = set_table t (overwrite r' (db_table d t)) d \<and>
        row_error t (filter (\<lambda>x. r_id x \<noteq> r_id r') (db_table d t)) r' = None"
      by auto
    with Pair assms show ?thesis
      by (auto intro: valid_set_table table_ok_overwrite valid_table)
  qed
qed

lemma schema_conn_simps [simp]:
  "pop_first schema_conn = schema_first" "pop_all schema_conn = schema_all"
  "pop_create schema_conn = schema_create" "pop_update schema_conn = schema_update"
  by (simp_all add: schema_conn_def)

lemma schema_create_law:
  assumes "schema_valid d" and "schema_create d t hook r = (Inr r'', d')"
  shows "\<exists>r' at. hook r = Inr r' \<and> (r_id r' \<noteq> uuid_nil \<longrightarrow> r_id r'' = r_id r') \<and>
    r'' = r'\<lparr>r_id := r_id r'', r_created_at := at, r_updated_at := at\<rparr> \<and>
    schema_rows d t (r_id r'') = None \<and> schema_rows d' = inserted micros at t r'' (schema_rows d)"
proof -
  from schema_create_ok [OF assms] obtain r' where r': "hook r = Inr r'" "r_id r'' = r_id r'"
    "r'' = r'\<lparr>r_created_at := db_clock d, r_updated_at := db_clock d\<rparr>" "known_table t"
    "row_error t (db_table d t) r'' = None" "d' = set_table t (db_table d t @ [stored_row micros r'']) d"
    by blast
  then have "schema_rows d' = inserted micros (db_clock d) t r'' (schema_rows d)"
    using assms(1) by (simp add: schema_rows_insert)
  with r' show ?thesis
    by (intro exI [of _ r'] exI [of _ "db_clock d"]) (simp add: schema_rows_None row_error_None)
qed

lemma schema_update_law:
  assumes "schema_valid d" and "schema_update d t r = (Inr r', d')"
  shows "\<exists>at. r' = r\<lparr>r_updated_at := at\<rparr> \<and> schema_rows d' = updated micros at t r (schema_rows d)"
proof -
  let ?at = "db_clock d"
  have u: "r' = r\<lparr>r_updated_at := ?at\<rparr>" using schema_update_ok [OF assms(2)] by simp
  have eq: "updated micros ?at t r' T = updated micros ?at t r T" for T
    by (cases "T t (r_id r)") (simp_all add: u updated_def)
  from schema_update_ok [OF assms(2)]
  consider "r_id r \<notin> r_id ` set (db_table d t)" "d' = d"
    | "known_table t" "d' = set_table t (overwrite r' (db_table d t)) d"
    by auto
  then have "schema_rows d' = updated micros ?at t r (schema_rows d)"
  proof cases
    case 1
    then have "schema_rows d t (r_id r) = None" by (simp add: schema_rows_None)
    with 1 show ?thesis by (simp add: updated_def)
  next
    case 2
    then show ?thesis using schema_rows_overwrite [OF assms(1), of t r' ?at r] u eq by simp
  qed
  with u show ?thesis by blast
qed

interpretation schema: pop_connection schema_conn schema_valid schema_rows db_clock ascii_lower "(\<le>)" micros
proof
  fix d t i r assume "schema_valid d" "schema_rows d t i = Some r"
  then show "r_id r = i" and "stored_row micros r = r"
    using valid_table [of d t] by (auto simp: schema_rows_iff table_ok_def list_all_iff)
next
  fix d t q r assume "schema_valid d" "pop_first schema_conn d t q = Inr r"
  then show "schema_rows d t (r_id r) = Some r \<and> satisfies ascii_lower (db_clock d) q r"
    by (simp add: schema_first_row)
next
  fix d t q e assume "schema_valid d" "pop_first schema_conn d t q = Inl e"
  then show "foreign_error e" by (simp add: schema_first_error)
next
  fix d t q e i r
  assume "schema_valid d" "pop_first schema_conn d t q = Inl e" "errors_is e ErrNoRows" "schema_rows d t i = Some r"
  then show "\<not> satisfies ascii_lower (db_clock d) q r" by (simp add: schema_first_none)
next
  fix d t q rs assume "schema_valid d" "pop_all schema_conn d t q = Inr rs"
  then show "\<exists>xs. distinct xs \<and>
      set xs = {r. schema_rows d t (r_id r) = Some r \<and> satisfies ascii_lower (db_clock d) q r} \<and>
      (\<forall>ord. q_order q = Some ord \<longrightarrow> sorted_wrt (order_le (\<le>) ord) xs) \<and> rs = page_of (q_page q) xs"
    by (simp add: schema_all_rows)
next
  fix d t q e assume "schema_valid d" "pop_all schema_conn d t q = Inl e"
  then show "foreign_error e"
    using schema_select_Inl [of d t q e] by (auto simp: schema_all_def split: sum.splits)
next
  fix d t hook r r'' d' assume "schema_valid d" "pop_create schema_conn d t hook r = (Inr r'', d')"
  then show "\<exists>r' at. hook r = Inr r' \<and> (r_id r' \<noteq> uuid_nil \<longrightarrow> r_id r'' = r_id r') \<and>
      r'' = r'\<lparr>r_id := r_id r'', r_created_at := at, r_updated_at := at\<rparr> \<and>
      schema_rows d t (r_id r'') = None \<and> schema_rows d' = inserted micros at t r'' (schema_rows d)"
    using schema_create_law [of d t hook r r'' d'] by simp
next
  fix d t hook r e d'
  assume "schema_valid d" "pop_create schema_conn d t hook r = (Inl e, d')"
    and "\<And>h. hook r = Inl h \<Longrightarrow> foreign_error h"
  then show "foreign_error e \<and> (schema_rows d' = schema_rows d \<or>
      errors_as_pg e = None \<and> (\<exists>r' i at. hook r = Inr r' \<and> schema_rows d t i = None \<and>
        schema_rows d' = inserted micros at t (r'\<lparr>r_id := i\<rparr>) (schema_rows d)))"
    using schema_write_error(1) [of d t hook r e d'] by auto
next
  fix d t r r' d' assume "schema_valid d" "pop_update schema_conn d t r = (Inr r', d')"
  then show "\<exists>at. r' = r\<lparr>r_updated_at := at\<rparr> \<and> schema_rows d' = updated micros at t r (schema_rows d)"
    by (simp add: schema_update_law)
next
  fix d t r e d' assume "schema_valid d" "pop_update schema_conn d t r = (Inl e, d')"
  then show "foreign_error e \<and> (schema_rows d' = schema_rows d \<or>
      errors_as_pg e = None \<and> (\<exists>at. schema_rows d' = updated micros at t r (schema_rows d)))"
    using schema_write_error(2) [of d t r e d'] by auto
next
  fix d t hook r assume "schema_valid d"
  then show "schema_valid (snd (pop_create schema_conn d t hook r))" by (simp add: schema_valid_create)
next
  fix d t r assume "schema_valid d"
  then show "schema_valid (snd (pop_update schema_conn d t r))" by (simp add: schema_valid_update)
qed

end
