(* ===== verification/Content_Store.thy ===== *)
theory Content_Store
  imports Schema
begin

text \<open>
  What the content store promises its callers over any connection with the laws of
  \<open>pop_connection\<close>, and over the migrated database in particular.
\<close>

section \<open>Search\<close>

text \<open>
  What is relied on of the database's case folding: it leaves the characters a search pattern adds
  alone, and acts on the typed text as on any other.
\<close>

locale case_folding =
  fixes lower :: "string \<Rightarrow> string"
  assumes fold_pattern: "lower (''%'' @ escape_like t @ ''%'') = ''%'' @ escape_like (lower t) @ ''%''"
begin

lemma ilike_contains: "like (lower (''%'' @ escape_like t @ ''%'')) s \<longleftrightarrow> sublist (lower t) s"
  by (simp only: fold_pattern like_contains)

end

lemma ascii_lower_char:
  assumes "CHR ''A'' \<le> c" and "c \<le> CHR ''Z''"
  shows "char_of (of_char c + 32 :: nat) \<notin> {CHR 0x5C, CHR ''%'', CHR ''_''}"
    and "c \<notin> {CHR 0x5C, CHR ''%'', CHR ''_''}"
proof -
  let ?n = "of_char c :: nat"
  have n: "65 \<le> ?n" "?n \<le> 90" using assms by (simp_all add: less_eq_char_def)
  then have "take_bit 8 (?n + 32) = ?n + 32" by (intro take_bit_nat_eq_self) simp
  with n show "char_of (?n + 32) \<notin> {CHR 0x5C, CHR ''%'', CHR ''_''}"
    by (auto simp: char_of_eq_iff)
  from n show "c \<notin> {CHR 0x5C, CHR ''%'', CHR ''_''}" by auto
qed

definition lower_char :: "char \<Rightarrow> char" where
  "lower_char c = (if CHR ''A'' \<le> c \<and> c \<le> CHR ''Z'' then char_of (of_char c + 32 :: nat) else c)"

lemma ascii_lower_simps [simp]:
  "ascii_lower [] = []" "ascii_lower (c # s) = lower_char c # ascii_lower s"
  "ascii_lower (a @ b) = ascii_lower a @ ascii_lower b"
  by (simp_all add: ascii_lower_def lower_char_def)

lemma lower_char_special:
  "lower_char c \<in> {CHR 0x5C, CHR ''%'', CHR ''_''} \<longleftrightarrow> c \<in> {CHR 0x5C, CHR ''%'', CHR ''_''}"
  using ascii_lower_char [of c] by (simp add: lower_char_def)

lemma lower_char_fixed: "c \<in> {CHR 0x5C, CHR ''%'', CHR ''_''} \<Longrightarrow> lower_char c = c"
  using ascii_lower_char [of c] by (auto simp: lower_char_def)

lemma ascii_lower_escape: "ascii_lower (escape_like t) = escape_like (ascii_lower t)"
proof (induction t)
  case (Cons c t)
  show ?case
  proof (cases "c \<in> {CHR 0x5C, CHR ''%'', CHR ''_''}")
    case True
    then have "lower_char c = c" by (rule lower_char_fixed)
    moreover have "lower_char CHR 0x5C = CHR 0x5C" by (rule lower_char_fixed) simp
    ultimately show ?thesis using True Cons by simp
  next
    case False
    then show ?thesis using Cons lower_char_special [of c] by simp
  qed
qed simp

interpretation ascii: case_folding ascii_lower
proof
  fix t
  have "lower_char CHR ''%'' = CHR ''%''" by (rule lower_char_fixed) simp
  then show "ascii_lower (''%'' @ escape_like t @ ''%'') = ''%'' @ escape_like (ascii_lower t) @ ''%''"
    by (simp add: ascii_lower_escape)
qed

text \<open>The text a search looks for, and when a title or a slug contains it.\<close>

definition contains_text :: "(string \<Rightarrow> string) \<Rightarrow> string \<Rightarrow> string \<Rightarrow> string \<Rightarrow> bool" where
  "contains_text lower txt title slug \<longleftrightarrow>
     (let t = trim_space txt
      in t = [] \<or> sublist (lower t) (lower title) \<or> sublist (lower t) (lower slug))"

lemma sql_or_Some [simp]: "sql_or (Some a) (Some b) = Some (a \<or> b)"
  by (cases a; cases b) simp_all

lemma satisfies_matching:
  assumes "case_folding lower"
  shows "satisfies lower now (matching q txt) r \<longleftrightarrow>
    satisfies lower now q r \<and> contains_text lower txt (r_title r) (r_slug r)"
  using case_folding.ilike_contains [OF assms]
  by (auto simp: matching_def Let_def contains_text_def)

section \<open>Visibility\<close>

definition sees :: "audience \<Rightarrow> go_time \<Rightarrow> go_time option \<Rightarrow> bool" where
  "sees aud now pub \<longleftrightarrow> aud = Author \<or> (\<exists>t. pub = Some t \<and> t \<le> now)"

lemma sql_and_true: "sql_and a b = Some True \<longleftrightarrow> a = Some True \<and> b = Some True"
  by (cases "(a, b)" rule: sql_and.cases) auto

lemma satisfies_visible [simp]:
  "satisfies lower now (visible aud) r \<longleftrightarrow> sees aud now (r_published_at r)"
  by (auto simp: visible_def published_clause_def sees_def sql_and_true)

lemma sees_public_post: "sees Public now (post_published_at p) \<longleftrightarrow> post_is_published p now"
  by (auto simp: sees_def post_is_published_def split: option.splits)

lemma sees_public_page: "sees Public now (page_published_at g) \<longleftrightarrow> page_is_published g now"
  by (auto simp: sees_def page_is_published_def split: option.splits)

lemma post_of_row_simps [simp]:
  "post_id (post_of_row r) = r_id r" "post_slug (post_of_row r) = r_slug r"
  "post_title (post_of_row r) = r_title r" "post_body (post_of_row r) = r_body r"
  "post_published_at (post_of_row r) = r_published_at r" "post_created_at (post_of_row r) = r_created_at r"
  "post_updated_at (post_of_row r) = r_updated_at r"
  by (simp_all add: post_of_row_def)

lemma page_of_row_simps [simp]:
  "page_id (page_of_row r) = r_id r" "page_slug (page_of_row r) = r_slug r"
  "page_title (page_of_row r) = r_title r" "page_body (page_of_row r) = r_body r"
  "page_published_at (page_of_row r) = r_published_at r" "page_created_at (page_of_row r) = r_created_at r"
  "page_updated_at (page_of_row r) = r_updated_at r"
  by (simp_all add: page_of_row_def)

lemma row_of_post_simps [simp]:
  "r_id (row_of_post p) = post_id p" "r_slug (row_of_post p) = post_slug p"
  "r_title (row_of_post p) = post_title p" "r_body (row_of_post p) = post_body p"
  "r_published_at (row_of_post p) = post_published_at p" "r_created_at (row_of_post p) = post_created_at p"
  by (simp_all add: row_of_post_def)

lemma row_of_page_simps [simp]:
  "r_id (row_of_page g) = page_id g" "r_slug (row_of_page g) = page_slug g"
  "r_title (row_of_page g) = page_title g" "r_body (row_of_page g) = page_body g"
  "r_published_at (row_of_page g) = page_published_at g" "r_created_at (row_of_page g) = page_created_at g"
  by (simp_all add: row_of_page_def)

text \<open>What the tables hold, as writing.\<close>

definition posts_in :: "tables \<Rightarrow> post set" where
  "posts_in T = post_of_row ` {r. T post_table_name (r_id r) = Some r}"

definition pages_in :: "tables \<Rightarrow> page set" where
  "pages_in T = page_of_row ` {r. T page_table_name (r_id r) = Some r}"

lemma posts_in_iff: "p \<in> posts_in T \<longleftrightarrow> T post_table_name (post_id p) = Some (row_of_post p)"
  by (auto simp: posts_in_def image_iff) (metis row_of_post_simps(1) row_post_inverse)

lemma pages_in_iff: "g \<in> pages_in T \<longleftrightarrow> T page_table_name (page_id g) = Some (row_of_page g)"
  by (auto simp: pages_in_def image_iff) (metis row_of_page_simps(1) row_page_inverse)

section \<open>Reads\<close>

context pop_connection
begin

lemma first_visible:
  assumes "valid db" and "pop_first conn db t (q_and_where e (visible aud)) = Inr r"
  shows "rows db t (r_id r) = Some r \<and> sees aud (clock db) (r_published_at r) \<and>
    eval lower (clock db) r e = Some True"
  using first_row [OF assms] by simp

lemma first_not_found:
  assumes "valid db" and "pop_first conn db t (q_and_where e (visible aud)) = Inl err"
    and "errors_is (wrap err f as) ErrNotFound" and "rows db t i = Some r"
    and "eval lower (clock db) r e = Some True"
  shows "\<not> sees aud (clock db) (r_published_at r)"
proof -
  have "errors_is err ErrNoRows"
    using first_error [OF assms(1,2)] assms(3) foreign_wrap(1) by blast
  from first_none [OF assms(1,2) this assms(4)] show ?thesis using assms(5) by simp
qed

lemma post_by_id_Inr:
  assumes "valid db" and "post_by_id conn db i aud = Inr p"
  shows "p \<in> posts_in (rows db) \<and> post_id p = i \<and> sees aud (clock db) (post_published_at p)"
  using assms first_visible [of db post_table_name "IdEq i" aud]
  by (auto simp: post_by_id_def posts_in_iff split: sum.splits)

lemma post_by_slug_Inr:
  assumes "valid db" and "post_by_slug conn db s aud = Inr p"
  shows "p \<in> posts_in (rows db) \<and> post_slug p = s \<and> sees aud (clock db) (post_published_at p)"
  using assms first_visible [of db post_table_name "SlugEq s" aud]
  by (auto simp: post_by_slug_def posts_in_iff split: sum.splits)

lemma page_by_id_Inr:
  assumes "valid db" and "page_by_id conn db i aud = Inr g"
  shows "g \<in> pages_in (rows db) \<and> page_id g = i \<and> sees aud (clock db) (page_published_at g)"
  using assms first_visible [of db page_table_name "IdEq i" aud]
  by (auto simp: page_by_id_def pages_in_iff split: sum.splits)

lemma page_by_slug_Inr:
  assumes "valid db" and "page_by_slug conn db s aud = Inr g"
  shows "g \<in> pages_in (rows db) \<and> page_slug g = s \<and> sees aud (clock db) (page_published_at g)"
  using assms first_visible [of db page_table_name "SlugEq s" aud]
  by (auto simp: page_by_slug_def pages_in_iff split: sum.splits)

lemma post_by_id_not_found:
  assumes "valid db" and "post_by_id conn db i aud = Inl e" and "errors_is e ErrNotFound"
    and "p \<in> posts_in (rows db)" and "post_id p = i"
  shows "\<not> sees aud (clock db) (post_published_at p)"
  using assms first_not_found [of db post_table_name "IdEq i" aud _ _ _ i "row_of_post p"]
  by (auto simp: post_by_id_def posts_in_iff split: sum.splits)

lemma post_by_slug_not_found:
  assumes "valid db" and "post_by_slug conn db s aud = Inl e" and "errors_is e ErrNotFound"
    and "p \<in> posts_in (rows db)" and "post_slug p = s"
  shows "\<not> sees aud (clock db) (post_published_at p)"
  using assms first_not_found [of db post_table_name "SlugEq s" aud _ _ _ "post_id p" "row_of_post p"]
  by (auto simp: post_by_slug_def posts_in_iff split: sum.splits)

lemma page_by_id_not_found:
  assumes "valid db" and "page_by_id conn db i aud = Inl e" and "errors_is e ErrNotFound"
    and "g \<in> pages_in (rows db)" and "page_id g = i"
  shows "\<not> sees aud (clock db) (page_published_at g)"
  using assms first_not_found [of db page_table_name "IdEq i" aud _ _ _ i "row_of_page g"]
  by (auto simp: page_by_id_def pages_in_iff split: sum.splits)

lemma page_by_slug_not_found:
  assumes "valid db" and "page_by_slug conn db s aud = Inl e" and "errors_is e ErrNotFound"
    and "g \<in> pages_in (rows db)" and "page_slug g = s"
  shows "\<not> sees aud (clock db) (page_published_at g)"
  using assms first_not_found [of db page_table_name "SlugEq s" aud _ _ _ "page_id g" "row_of_page g"]
  by (auto simp: page_by_slug_def pages_in_iff split: sum.splits)

text \<open>A list read is one page of one arrangement of the writing that is visible and matches.\<close>

lemma find_posts_Inr:
  assumes "valid db" and "case_folding lower" and "find_posts conn db aud l = Inr ps"
  shows "\<exists>xs. distinct xs \<and>
    set xs = {p \<in> posts_in (rows db). sees aud (clock db) (post_published_at p) \<and>
      contains_text lower (l_text l) (post_title p) (post_slug p)} \<and>
    sorted_wrt (\<lambda>a b. newest_key (row_of_post a) \<le> newest_key (row_of_post b)) xs \<and>
    ps = page_of (Some (listing_page l, listing_per_page l)) xs"
proof -
  let ?q = "q_paginate (listing_page l) (listing_per_page l)
    (q_order_by NewestFirst (matching (visible aud) (l_text l)))"
  from assms(3) obtain rs where rs: "pop_all conn db post_table_name ?q = Inr rs" "ps = map post_of_row rs"
    by (auto simp: find_posts_def Let_def split: sum.splits)
  from all_rows [OF assms(1) rs(1)] obtain xs where xs: "distinct xs"
    "set xs = {r. rows db post_table_name (r_id r) = Some r \<and> satisfies lower (clock db) ?q r}"
    "sorted_wrt (order_le slug_le NewestFirst) xs" "rs = page_of (q_page ?q) xs"
    by (auto simp: q_paginate_def q_order_by_def)
  have "inj_on post_of_row (set xs)" by (rule inj_on_inverseI [of _ row_of_post]) simp
  then have "distinct (map post_of_row xs)" using xs(1) by (simp add: distinct_map)
  moreover have "set (map post_of_row xs) = {p \<in> posts_in (rows db).
      sees aud (clock db) (post_published_at p) \<and> contains_text lower (l_text l) (post_title p) (post_slug p)}"
    using satisfies_matching [OF assms(2)] by (auto simp: xs(2) posts_in_def)
  moreover have "sorted_wrt (\<lambda>a b. newest_key (row_of_post a) \<le> newest_key (row_of_post b)) (map post_of_row xs)"
    using xs(3) by (simp add: sorted_wrt_map order_le_fun)
  moreover have "ps = page_of (Some (listing_page l, listing_per_page l)) (map post_of_row xs)"
    using xs(4) rs(2) by (simp add: page_of_def q_paginate_def take_map drop_map)
  ultimately show ?thesis by blast
qed

lemma find_pages_Inr:
  assumes "valid db" and "case_folding lower" and "find_pages conn db aud l = Inr gs"
  shows "\<exists>xs. distinct xs \<and>
    set xs = {g \<in> pages_in (rows db). sees aud (clock db) (page_published_at g) \<and>
      contains_text lower (l_text l) (page_title g) (page_slug g)} \<and>
    sorted_wrt (\<lambda>a b. slug_le (page_slug a) (page_slug b)) xs \<and>
    gs = page_of (Some (listing_page l, listing_per_page l)) xs"
proof -
  let ?q = "q_paginate (listing_page l) (listing_per_page l)
    (q_order_by SlugAsc (matching (visible aud) (l_text l)))"
  from assms(3) obtain rs where rs: "pop_all conn db page_table_name ?q = Inr rs" "gs = map page_of_row rs"
    by (auto simp: find_pages_def Let_def split: sum.splits)
  from all_rows [OF assms(1) rs(1)] obtain xs where xs: "distinct xs"
    "set xs = {r. rows db page_table_name (r_id r) = Some r \<and> satisfies lower (clock db) ?q r}"
    "sorted_wrt (order_le slug_le SlugAsc) xs" "rs = page_of (q_page ?q) xs"
    by (auto simp: q_paginate_def q_order_by_def)
  have "inj_on page_of_row (set xs)" by (rule inj_on_inverseI [of _ row_of_page]) simp
  then have "distinct (map page_of_row xs)" using xs(1) by (simp add: distinct_map)
  moreover have "set (map page_of_row xs) = {g \<in> pages_in (rows db).
      sees aud (clock db) (page_published_at g) \<and> contains_text lower (l_text l) (page_title g) (page_slug g)}"
    using satisfies_matching [OF assms(2)] by (auto simp: xs(2) pages_in_def)
  moreover have "sorted_wrt (\<lambda>a b. slug_le (page_slug a) (page_slug b)) (map page_of_row xs)"
    using xs(3) by (simp add: sorted_wrt_map order_le_fun)
  moreover have "gs = page_of (Some (listing_page l, listing_per_page l)) (map page_of_row xs)"
    using xs(4) rs(2) by (simp add: page_of_def q_paginate_def take_map drop_map)
  ultimately show ?thesis by blast
qed

lemma page_of_subset: "set (page_of pg xs) \<subseteq> set xs"
  by (auto simp: page_of_def split: option.splits dest: in_set_takeD in_set_dropD)

end

context pop_connection
begin

lemma post_read_sees:
  assumes "valid db" and "case_folding lower"
    and "post_by_slug conn db slug aud = Inr p \<or> post_by_id conn db i aud = Inr p \<or>
      (\<exists>l xs. find_posts conn db aud l = Inr xs \<and> p \<in> set xs)"
  shows "p \<in> posts_in (rows db) \<and> sees aud (clock db) (post_published_at p)"
  using assms(3)
proof (elim disjE exE conjE)
  assume "post_by_slug conn db slug aud = Inr p"
  from post_by_slug_Inr [OF assms(1) this] show ?thesis by blast
next
  assume "post_by_id conn db i aud = Inr p"
  from post_by_id_Inr [OF assms(1) this] show ?thesis by blast
next
  fix l xs
  assume f: "find_posts conn db aud l = Inr xs" and mem: "p \<in> set xs"
  from find_posts_Inr [OF assms(1,2) f] obtain ys where
    "set ys = {p \<in> posts_in (rows db). sees aud (clock db) (post_published_at p) \<and>
      contains_text lower (l_text l) (post_title p) (post_slug p)}"
    "xs = page_of (Some (listing_page l, listing_per_page l)) ys"
    by (elim exE conjE)
  then have "p \<in> {p \<in> posts_in (rows db). sees aud (clock db) (post_published_at p) \<and>
      contains_text lower (l_text l) (post_title p) (post_slug p)}"
    using mem page_of_subset [of "Some (listing_page l, listing_per_page l)" ys] by (simp only: subset_iff)
  then show ?thesis by simp
qed

lemma page_read_sees:
  assumes "valid db" and "case_folding lower"
    and "page_by_slug conn db slug aud = Inr g \<or> page_by_id conn db i aud = Inr g \<or>
      (\<exists>l xs. find_pages conn db aud l = Inr xs \<and> g \<in> set xs)"
  shows "g \<in> pages_in (rows db) \<and> sees aud (clock db) (page_published_at g)"
  using assms(3)
proof (elim disjE exE conjE)
  assume "page_by_slug conn db slug aud = Inr g"
  from page_by_slug_Inr [OF assms(1) this] show ?thesis by blast
next
  assume "page_by_id conn db i aud = Inr g"
  from page_by_id_Inr [OF assms(1) this] show ?thesis by blast
next
  fix l xs
  assume f: "find_pages conn db aud l = Inr xs" and mem: "g \<in> set xs"
  from find_pages_Inr [OF assms(1,2) f] obtain ys where
    "set ys = {g \<in> pages_in (rows db). sees aud (clock db) (page_published_at g) \<and>
      contains_text lower (l_text l) (page_title g) (page_slug g)}"
    "xs = page_of (Some (listing_page l, listing_per_page l)) ys"
    by (elim exE conjE)
  then have "g \<in> {g \<in> pages_in (rows db). sees aud (clock db) (page_published_at g) \<and>
      contains_text lower (l_text l) (page_title g) (page_slug g)}"
    using mem page_of_subset [of "Some (listing_page l, listing_per_page l)" ys] by (simp only: subset_iff)
  then show ?thesis by simp
qed

end

section \<open>Writes\<close>

text \<open>A post as the database keeps it.\<close>

definition stored_post :: "(go_time \<Rightarrow> go_time) \<Rightarrow> post \<Rightarrow> post" where
  "stored_post st p = post_of_row (stored_row st (row_of_post p))"

definition stored_page :: "(go_time \<Rightarrow> go_time) \<Rightarrow> page \<Rightarrow> page" where
  "stored_page st g = page_of_row (stored_row st (row_of_page g))"

lemma stored_post_simps [simp]:
  "post_id (stored_post st p) = post_id p" "post_slug (stored_post st p) = post_slug p"
  "post_title (stored_post st p) = post_title p" "post_body (stored_post st p) = post_body p"
  "post_published_at (stored_post st p) = map_option st (post_published_at p)"
  by (simp_all add: stored_post_def)

lemma stored_page_simps [simp]:
  "page_id (stored_page st g) = page_id g" "page_slug (stored_page st g) = page_slug g"
  "page_title (stored_page st g) = page_title g" "page_body (stored_page st g) = page_body g"
  "page_published_at (stored_page st g) = map_option st (page_published_at g)"
  by (simp_all add: stored_page_def)

lemma row_of_post_update:
  "row_of_post p\<lparr>r_created_at := c, r_updated_at := u\<rparr> =
     row_of_post (p\<lparr>post_created_at := c, post_updated_at := u\<rparr>)"
  by (simp add: row_of_post_def)

lemma row_of_page_update:
  "row_of_page g\<lparr>r_created_at := c, r_updated_at := u\<rparr> =
     row_of_page (g\<lparr>page_created_at := c, page_updated_at := u\<rparr>)"
  by (simp add: row_of_page_def)

text \<open>Replacing a piece of writing, and adding one, in the sets of all writing.\<close>

definition replaced :: "('a \<Rightarrow> uuid) \<Rightarrow> 'a \<Rightarrow> 'a set \<Rightarrow> 'a set" where
  "replaced idf p ps = insert p {q \<in> ps. idf q \<noteq> idf p}"

lemma posts_in_inserted:
  "T post_table_name (post_id p) = None \<Longrightarrow>
   posts_in (inserted st at post_table_name (row_of_post p) T) =
     insert (stored_post st (p\<lparr>post_created_at := at, post_updated_at := at\<rparr>)) (posts_in T)"
  by (auto simp: posts_in_iff inserted_def row_of_post_update stored_post_def split: if_splits)

lemma pages_in_inserted:
  "T page_table_name (page_id g) = None \<Longrightarrow>
   pages_in (inserted st at page_table_name (row_of_page g) T) =
     insert (stored_page st (g\<lparr>page_created_at := at, page_updated_at := at\<rparr>)) (pages_in T)"
  by (auto simp: pages_in_iff inserted_def row_of_page_update stored_page_def split: if_splits)

lemma other_table_inserted:
  "pages_in (inserted st at post_table_name r T) = pages_in T"
  "posts_in (inserted st at page_table_name r T) = posts_in T"
  by (auto simp: pages_in_iff posts_in_iff inserted_def)

lemma posts_in_updated:
  "old \<in> posts_in T \<Longrightarrow> post_id old = post_id p \<Longrightarrow>
   posts_in (updated st at post_table_name (row_of_post p) T) =
     replaced post_id (stored_post st (p\<lparr>post_created_at := post_created_at old, post_updated_at := at\<rparr>))
       (posts_in T)"
  by (auto simp: posts_in_iff updated_def row_of_post_update stored_post_def replaced_def
      split: if_splits)

lemma pages_in_updated:
  "old \<in> pages_in T \<Longrightarrow> page_id old = page_id g \<Longrightarrow>
   pages_in (updated st at page_table_name (row_of_page g) T) =
     replaced page_id (stored_page st (g\<lparr>page_created_at := page_created_at old, page_updated_at := at\<rparr>))
       (pages_in T)"
  by (auto simp: pages_in_iff updated_def row_of_page_update stored_page_def replaced_def
      split: if_splits)

lemma other_table_updated:
  "pages_in (updated st at post_table_name r T) = pages_in T"
  "posts_in (updated st at page_table_name r T) = posts_in T"
  by (auto simp: pages_in_iff posts_in_iff updated_def split: option.splits)

lemma post_hook_Inr:
  "post_hook v7 (row_of_post p) = Inr r \<longleftrightarrow>
     (\<exists>i. assign_v7 v7 (post_id p) = Inr i \<and> r = row_of_post (p\<lparr>post_id := i\<rparr>))"
  by (auto simp: post_hook_def post_before_create_def split: sum.splits)

lemma page_hook_Inr:
  "page_hook v7 (row_of_page g) = Inr r \<longleftrightarrow>
     (\<exists>i. assign_v7 v7 (page_id g) = Inr i \<and> r = row_of_page (g\<lparr>page_id := i\<rparr>))"
  by (auto simp: page_hook_def page_before_create_def split: sum.splits)

text \<open>\<^verbatim>\<open>uuid.NewV7\<close> never returns the zero UUID, and its errors are not this package's.\<close>

definition v7_ok :: "go_error + uuid \<Rightarrow> bool" where
  "v7_ok v7 \<longleftrightarrow> (case v7 of Inl e \<Rightarrow> foreign_error e \<and> \<not> errors_is e ErrNoRows | Inr v \<Rightarrow> v \<noteq> uuid_nil)"

lemma assign_v7_ok:
  "v7_ok v7 \<Longrightarrow> assign_v7 v7 i = Inr j \<Longrightarrow> j \<noteq> uuid_nil \<and> (i \<noteq> uuid_nil \<longrightarrow> j = i) \<and> (i = uuid_nil \<longrightarrow> v7 = Inr j)"
  by (auto simp: assign_v7_def v7_ok_def split: if_splits sum.splits)

lemma assign_v7_error: "v7_ok v7 \<Longrightarrow> assign_v7 v7 i = Inl e \<Longrightarrow> foreign_error e \<and> \<not> errors_is e ErrNoRows"
  by (auto simp: assign_v7_def v7_ok_def foreign_error_def content_errors_def split: if_splits sum.splits)

lemma hook_foreign:
  "v7_ok v7 \<Longrightarrow> post_hook v7 r = Inl e \<Longrightarrow> foreign_error e"
  "v7_ok v7 \<Longrightarrow> page_hook v7 r = Inl e \<Longrightarrow> foreign_error e"
  by (auto simp: post_hook_def post_before_create_def page_hook_def page_before_create_def
      dest: assign_v7_error split: sum.splits)

context pop_connection
begin

lemma create_post_Inr:
  assumes "valid db" and "v7_ok (new_v7 db)" and "create_post new_v7 conn db p = (Inr p', db')"
  shows "\<exists>i at. assign_v7 (new_v7 db) (post_id p) = Inr i \<and> i \<notin> post_id ` posts_in (rows db) \<and>
    p' = p\<lparr>post_id := i, post_created_at := at, post_updated_at := at\<rparr> \<and>
    posts_in (rows db') = insert (stored_post st p') (posts_in (rows db)) \<and>
    pages_in (rows db') = pages_in (rows db)"
proof -
  from assms(3) obtain r where c: "pop_create conn db post_table_name (post_hook (new_v7 db)) (row_of_post p) = (Inr r, db')"
    and p': "p' = post_of_row r"
    by (auto simp: create_post_def split: prod.splits sum.splits)
  from create_ok [OF assms(1) c] obtain r' at where r':
    "post_hook (new_v7 db) (row_of_post p) = Inr r'" "r_id r' \<noteq> uuid_nil \<longrightarrow> r_id r = r_id r'"
    "r = r'\<lparr>r_id := r_id r, r_created_at := at, r_updated_at := at\<rparr>"
    "rows db post_table_name (r_id r) = None" "rows db' = inserted st at post_table_name r (rows db)"
    by blast
  from r'(1) obtain i where i: "assign_v7 (new_v7 db) (post_id p) = Inr i" "r' = row_of_post (p\<lparr>post_id := i\<rparr>)"
    by (auto simp: post_hook_Inr)
  with r'(2) have rid: "r_id r = i" using assign_v7_ok [OF assms(2) i(1)] by simp
  have p'': "p' = p\<lparr>post_id := i, post_created_at := at, post_updated_at := at\<rparr>"
    using p' r'(3) rid i(2) by (simp add: row_of_post_def post_of_row_def)
  have r: "r = row_of_post p'" by (simp add: p')
  have "i \<notin> post_id ` posts_in (rows db)" using r'(4) rid by (auto simp: posts_in_iff)
  moreover have "posts_in (rows db') = insert (stored_post st p') (posts_in (rows db))"
    using r'(4,5) rid p'' by (simp add: r posts_in_inserted)
  ultimately show ?thesis using i(1) p'' r'(5) by (auto simp: other_table_inserted)
qed

lemma create_page_Inr:
  assumes "valid db" and "v7_ok (new_v7 db)" and "create_page new_v7 conn db g = (Inr g', db')"
  shows "\<exists>i at. assign_v7 (new_v7 db) (page_id g) = Inr i \<and> i \<notin> page_id ` pages_in (rows db) \<and>
    g' = g\<lparr>page_id := i, page_created_at := at, page_updated_at := at\<rparr> \<and>
    pages_in (rows db') = insert (stored_page st g') (pages_in (rows db)) \<and>
    posts_in (rows db') = posts_in (rows db)"
proof -
  from assms(3) obtain r where c: "pop_create conn db page_table_name (page_hook (new_v7 db)) (row_of_page g) = (Inr r, db')"
    and g': "g' = page_of_row r"
    by (auto simp: create_page_def split: prod.splits sum.splits)
  from create_ok [OF assms(1) c] obtain r' at where r':
    "page_hook (new_v7 db) (row_of_page g) = Inr r'" "r_id r' \<noteq> uuid_nil \<longrightarrow> r_id r = r_id r'"
    "r = r'\<lparr>r_id := r_id r, r_created_at := at, r_updated_at := at\<rparr>"
    "rows db page_table_name (r_id r) = None" "rows db' = inserted st at page_table_name r (rows db)"
    by blast
  from r'(1) obtain i where i: "assign_v7 (new_v7 db) (page_id g) = Inr i" "r' = row_of_page (g\<lparr>page_id := i\<rparr>)"
    by (auto simp: page_hook_Inr)
  with r'(2) have rid: "r_id r = i" using assign_v7_ok [OF assms(2) i(1)] by simp
  have g'': "g' = g\<lparr>page_id := i, page_created_at := at, page_updated_at := at\<rparr>"
    using g' r'(3) rid i(2) by (simp add: row_of_page_def page_of_row_def)
  have r: "r = row_of_page g'" by (simp add: g')
  have "i \<notin> page_id ` pages_in (rows db)" using r'(4) rid by (auto simp: pages_in_iff)
  moreover have "pages_in (rows db') = insert (stored_page st g') (pages_in (rows db))"
    using r'(4,5) rid g'' by (simp add: r pages_in_inserted)
  ultimately show ?thesis using i(1) g'' r'(5) by (auto simp: other_table_inserted)
qed

lemma update_post_Inr:
  assumes "valid db" and "old \<in> posts_in (rows db)" and "post_id old = post_id p"
    and "update_post conn db p = (Inr p', db')"
  shows "\<exists>at. p' = p\<lparr>post_updated_at := at\<rparr> \<and>
    posts_in (rows db') = replaced post_id
      (stored_post st (p\<lparr>post_created_at := post_created_at old, post_updated_at := at\<rparr>)) (posts_in (rows db)) \<and>
    pages_in (rows db') = pages_in (rows db)"
proof -
  from assms(4) obtain r where u: "pop_update conn db post_table_name (row_of_post p) = (Inr r, db')"
    and p': "p' = post_of_row r"
    by (auto simp: update_post_def split: prod.splits sum.splits)
  from update_ok [OF assms(1) u] obtain at where
    "r = row_of_post p\<lparr>r_updated_at := at\<rparr>" "rows db' = updated st at post_table_name (row_of_post p) (rows db)"
    by blast
  then show ?thesis
    using posts_in_updated [OF assms(2,3)] p'
    by (intro exI [of _ at]) (simp add: other_table_updated post_of_row_def row_of_post_def)
qed

lemma update_page_Inr:
  assumes "valid db" and "old \<in> pages_in (rows db)" and "page_id old = page_id g"
    and "update_page conn db g = (Inr g', db')"
  shows "\<exists>at. g' = g\<lparr>page_updated_at := at\<rparr> \<and>
    pages_in (rows db') = replaced page_id
      (stored_page st (g\<lparr>page_created_at := page_created_at old, page_updated_at := at\<rparr>)) (pages_in (rows db)) \<and>
    posts_in (rows db') = posts_in (rows db)"
proof -
  from assms(4) obtain r where u: "pop_update conn db page_table_name (row_of_page g) = (Inr r, db')"
    and g': "g' = page_of_row r"
    by (auto simp: update_page_def split: prod.splits sum.splits)
  from update_ok [OF assms(1) u] obtain at where
    "r = row_of_page g\<lparr>r_updated_at := at\<rparr>" "rows db' = updated st at page_table_name (row_of_page g) (rows db)"
    by blast
  then show ?thesis
    using pages_in_updated [OF assms(2,3)] g'
    by (intro exI [of _ at]) (simp add: other_table_updated page_of_row_def row_of_page_def)
qed

end

definition rule_errors :: "go_error set" where
  "rule_errors = {ErrSlugTaken, ErrSlugInvalid, ErrTitleRequired}"

definition breaks_rule :: "go_error \<Rightarrow> bool" where
  "breaks_rule e \<longleftrightarrow> (\<exists>d \<in> rule_errors. errors_is e d)"

context pop_connection
begin

lemma wrap_breaks_rule:
  assumes "foreign_error e" and "breaks_rule (wrap e f as)"
  shows "errors_as_pg e \<noteq> None"
proof -
  from assms(2) obtain d where "d \<in> rule_errors" "errors_is (wrap e f as) d"
    by (auto simp: breaks_rule_def)
  then have "domain_error e = Some d" using foreign_wrap(2) [OF assms(1)] by (simp add: rule_errors_def)
  then show ?thesis by (auto simp: domain_error_def split: option.splits)
qed

lemma update_post_Inl:
  assumes "valid db" and "old \<in> posts_in (rows db)" and "post_id old = post_id p"
    and "update_post conn db p = (Inl e, db')"
  shows "pages_in (rows db') = pages_in (rows db) \<and>
    (posts_in (rows db') = posts_in (rows db) \<or> \<not> breaks_rule e \<and> (\<exists>at.
      posts_in (rows db') = replaced post_id
        (stored_post st (p\<lparr>post_created_at := post_created_at old, post_updated_at := at\<rparr>)) (posts_in (rows db))))"
proof -
  from assms(4) obtain e0 where u: "pop_update conn db post_table_name (row_of_post p) = (Inl e0, db')"
    and e: "e = wrap e0 ''updating post %q'' [StrArg (post_slug p)]"
    by (auto simp: update_post_def split: prod.splits sum.splits)
  from update_error [OF assms(1) u] show ?thesis
  proof (elim conjE disjE exE)
    assume "rows db' = rows db"
    then show ?thesis by simp
  next
    fix at
    assume "foreign_error e0" "errors_as_pg e0 = None"
      "rows db' = updated st at post_table_name (row_of_post p) (rows db)"
    then show ?thesis
      using posts_in_updated [OF assms(2,3)] wrap_breaks_rule [of e0] e
      by (auto simp: other_table_updated)
  qed
qed

lemma update_page_Inl:
  assumes "valid db" and "old \<in> pages_in (rows db)" and "page_id old = page_id g"
    and "update_page conn db g = (Inl e, db')"
  shows "posts_in (rows db') = posts_in (rows db) \<and>
    (pages_in (rows db') = pages_in (rows db) \<or> \<not> breaks_rule e \<and> (\<exists>at.
      pages_in (rows db') = replaced page_id
        (stored_page st (g\<lparr>page_created_at := page_created_at old, page_updated_at := at\<rparr>)) (pages_in (rows db))))"
proof -
  from assms(4) obtain e0 where u: "pop_update conn db page_table_name (row_of_page g) = (Inl e0, db')"
    and e: "e = wrap e0 ''updating page %q'' [StrArg (page_slug g)]"
    by (auto simp: update_page_def split: prod.splits sum.splits)
  from update_error [OF assms(1) u] show ?thesis
  proof (elim conjE disjE exE)
    assume "rows db' = rows db"
    then show ?thesis by simp
  next
    fix at
    assume "foreign_error e0" "errors_as_pg e0 = None"
      "rows db' = updated st at page_table_name (row_of_page g) (rows db)"
    then show ?thesis
      using pages_in_updated [OF assms(2,3)] wrap_breaks_rule [of e0] e
      by (auto simp: other_table_updated)
  qed
qed

lemma create_post_Inl:
  assumes "valid db" and "v7_ok (new_v7 db)" and "create_post new_v7 conn db p = (Inl e, db')"
  shows "pages_in (rows db') = pages_in (rows db) \<and>
    (posts_in (rows db') = posts_in (rows db) \<or> \<not> breaks_rule e \<and> (\<exists>i at. i \<notin> post_id ` posts_in (rows db) \<and>
      posts_in (rows db') =
        insert (stored_post st (p\<lparr>post_id := i, post_created_at := at, post_updated_at := at\<rparr>)) (posts_in (rows db))))"
proof -
  from assms(3) obtain e0 where
    c: "pop_create conn db post_table_name (post_hook (new_v7 db)) (row_of_post p) = (Inl e0, db')"
    and e: "e = wrap e0 ''creating post %q'' [StrArg (post_slug p)]"
    by (auto simp: create_post_def split: prod.splits sum.splits)
  have "foreign_error e0 \<and> (rows db' = rows db \<or>
      errors_as_pg e0 = None \<and> (\<exists>r' i at. post_hook (new_v7 db) (row_of_post p) = Inr r' \<and>
        rows db post_table_name i = None \<and> rows db' = inserted st at post_table_name (r'\<lparr>r_id := i\<rparr>) (rows db)))"
    using create_error [OF assms(1) c] hook_foreign(1) [OF assms(2)] by blast
  then show ?thesis
  proof (elim conjE disjE exE)
    assume "rows db' = rows db"
    then show ?thesis by simp
  next
    fix r' i at
    assume f: "foreign_error e0" "errors_as_pg e0 = None" and r': "post_hook (new_v7 db) (row_of_post p) = Inr r'"
      and new: "rows db post_table_name i = None"
      and db': "rows db' = inserted st at post_table_name (r'\<lparr>r_id := i\<rparr>) (rows db)"
    from r' obtain j where "r' = row_of_post (p\<lparr>post_id := j\<rparr>)" by (auto simp: post_hook_Inr)
    then have "r'\<lparr>r_id := i\<rparr> = row_of_post (p\<lparr>post_id := i\<rparr>)" by (simp add: row_of_post_def)
    with db' new have "posts_in (rows db') = insert (stored_post st
        (p\<lparr>post_id := i, post_created_at := at, post_updated_at := at\<rparr>)) (posts_in (rows db))"
      by (simp add: posts_in_inserted)
    moreover have "i \<notin> post_id ` posts_in (rows db)" using new by (auto simp: posts_in_iff)
    moreover have "\<not> breaks_rule e" using wrap_breaks_rule [OF f(1)] f(2) e by blast
    ultimately show ?thesis using db' by (auto simp: other_table_inserted)
  qed
qed

lemma create_page_Inl:
  assumes "valid db" and "v7_ok (new_v7 db)" and "create_page new_v7 conn db g = (Inl e, db')"
  shows "posts_in (rows db') = posts_in (rows db) \<and>
    (pages_in (rows db') = pages_in (rows db) \<or> \<not> breaks_rule e \<and> (\<exists>i at. i \<notin> page_id ` pages_in (rows db) \<and>
      pages_in (rows db') =
        insert (stored_page st (g\<lparr>page_id := i, page_created_at := at, page_updated_at := at\<rparr>)) (pages_in (rows db))))"
proof -
  from assms(3) obtain e0 where
    c: "pop_create conn db page_table_name (page_hook (new_v7 db)) (row_of_page g) = (Inl e0, db')"
    and e: "e = wrap e0 ''creating page %q'' [StrArg (page_slug g)]"
    by (auto simp: create_page_def split: prod.splits sum.splits)
  have "foreign_error e0 \<and> (rows db' = rows db \<or>
      errors_as_pg e0 = None \<and> (\<exists>r' i at. page_hook (new_v7 db) (row_of_page g) = Inr r' \<and>
        rows db page_table_name i = None \<and> rows db' = inserted st at page_table_name (r'\<lparr>r_id := i\<rparr>) (rows db)))"
    using create_error [OF assms(1) c] hook_foreign(2) [OF assms(2)] by blast
  then show ?thesis
  proof (elim conjE disjE exE)
    assume "rows db' = rows db"
    then show ?thesis by simp
  next
    fix r' i at
    assume f: "foreign_error e0" "errors_as_pg e0 = None" and r': "page_hook (new_v7 db) (row_of_page g) = Inr r'"
      and new: "rows db page_table_name i = None"
      and db': "rows db' = inserted st at page_table_name (r'\<lparr>r_id := i\<rparr>) (rows db)"
    from r' obtain j where "r' = row_of_page (g\<lparr>page_id := j\<rparr>)" by (auto simp: page_hook_Inr)
    then have "r'\<lparr>r_id := i\<rparr> = row_of_page (g\<lparr>page_id := i\<rparr>)" by (simp add: row_of_page_def)
    with db' new have "pages_in (rows db') = insert (stored_page st
        (g\<lparr>page_id := i, page_created_at := at, page_updated_at := at\<rparr>)) (pages_in (rows db))"
      by (simp add: pages_in_inserted)
    moreover have "i \<notin> page_id ` pages_in (rows db)" using new by (auto simp: pages_in_iff)
    moreover have "\<not> breaks_rule e" using wrap_breaks_rule [OF f(1)] f(2) e by blast
    ultimately show ?thesis using db' by (auto simp: other_table_inserted)
  qed
qed

lemma valid_store_writes:
  assumes "valid db"
  shows "valid (snd (create_post new_v7 conn db p))" and "valid (snd (update_post conn db p))"
    and "valid (snd (create_page new_v7 conn db g))" and "valid (snd (update_page conn db g))"
proof -
  show "valid (snd (create_post new_v7 conn db p))"
    using valid_create [OF assms, of post_table_name "post_hook (new_v7 db)" "row_of_post p"]
    by (auto simp: create_post_def split: prod.splits sum.splits)
  show "valid (snd (create_page new_v7 conn db g))"
    using valid_create [OF assms, of page_table_name "page_hook (new_v7 db)" "row_of_page g"]
    by (auto simp: create_page_def split: prod.splits sum.splits)
  show "valid (snd (update_post conn db p))"
    using valid_update [OF assms, of post_table_name "row_of_post p"]
    by (auto simp: update_post_def split: prod.splits sum.splits)
  show "valid (snd (update_page conn db g))"
    using valid_update [OF assms, of page_table_name "row_of_page g"]
    by (auto simp: update_page_def split: prod.splits sum.splits)
qed

end

end
