(* ===== verification/Interfaces.thy ===== *)
theory Interfaces
  imports Writing Content_Store
begin

text \<open>
  The contracts the handlers are proved against: \<open>admin_store\<close> is what the Store interface of
  \<^verbatim>\<open>admin.go\<close> promises, \<open>writing_resource\<close> what the \<^verbatim>\<open>resource\<close> of \<^verbatim>\<open>writing.go\<close> does. The content store
  keeps the first over any connection, and the posts and pages of a store that keeps the first keep
  the second.
\<close>

section \<open>The Store interface\<close>

definition same_post :: "(go_time \<Rightarrow> go_time) \<Rightarrow> post \<Rightarrow> post \<Rightarrow> bool" where
  "same_post st p q \<longleftrightarrow>
     post_id q = post_id p \<and> post_slug q = post_slug p \<and> post_title q = post_title p \<and>
     post_body q = post_body p \<and> post_published_at q = map_option st (post_published_at p)"

definition same_page :: "(go_time \<Rightarrow> go_time) \<Rightarrow> page \<Rightarrow> page \<Rightarrow> bool" where
  "same_page st p q \<longleftrightarrow>
     page_id q = page_id p \<and> page_slug q = page_slug p \<and> page_title q = page_title p \<and>
     page_body q = page_body p \<and> page_published_at q = map_option st (page_published_at p)"

text \<open>
  \<open>ok\<close> holds of the states the store can be in, \<open>posts\<close> and \<open>pages\<close> are what it holds, and \<open>stored\<close> is what
  a written instant is kept as. A write that fails may have happened, unless a rule was broken.
\<close>

locale admin_store =
  fixes st :: "'s store"
    and ok :: "'s \<Rightarrow> bool"
    and posts :: "'s \<Rightarrow> post set"
    and pages :: "'s \<Rightarrow> page set"
    and stored :: "go_time \<Rightarrow> go_time"
  assumes post_unique: "ok s \<Longrightarrow> p \<in> posts s \<Longrightarrow> q \<in> posts s \<Longrightarrow> post_id p = post_id q \<Longrightarrow> p = q"
    and page_unique: "ok s \<Longrightarrow> g \<in> pages s \<Longrightarrow> k \<in> pages s \<Longrightarrow> page_id g = page_id k \<Longrightarrow> g = k"
    and post_dates: "ok s \<Longrightarrow> p \<in> posts s \<Longrightarrow> map_option stored (post_published_at p) = post_published_at p"
    and page_dates: "ok s \<Longrightarrow> g \<in> pages s \<Longrightarrow> map_option stored (page_published_at g) = page_published_at g"
    and post_found: "ok s \<Longrightarrow> st_post_by_id st s i Author = Inr p \<Longrightarrow> p \<in> posts s \<and> post_id p = i"
    and page_found: "ok s \<Longrightarrow> st_page_by_id st s i Author = Inr g \<Longrightarrow> g \<in> pages s \<and> page_id g = i"
    and post_absent: "ok s \<Longrightarrow> st_post_by_id st s i Author = Inl e \<Longrightarrow> errors_is e ErrNotFound \<Longrightarrow>
      i \<notin> post_id ` posts s"
    and page_absent: "ok s \<Longrightarrow> st_page_by_id st s i Author = Inl e \<Longrightarrow> errors_is e ErrNotFound \<Longrightarrow>
      i \<notin> page_id ` pages s"
    and post_created: "ok s \<Longrightarrow> post_id p = uuid_nil \<Longrightarrow> st_create_post st s p = (Inr p', s') \<Longrightarrow>
      pages s' = pages s \<and> post_id p' \<notin> post_id ` posts s \<and>
      (\<exists>q. same_post stored (p\<lparr>post_id := post_id p'\<rparr>) q \<and> posts s' = insert q (posts s))"
    and page_created: "ok s \<Longrightarrow> page_id g = uuid_nil \<Longrightarrow> st_create_page st s g = (Inr g', s') \<Longrightarrow>
      posts s' = posts s \<and> page_id g' \<notin> page_id ` pages s \<and>
      (\<exists>q. same_page stored (g\<lparr>page_id := page_id g'\<rparr>) q \<and> pages s' = insert q (pages s))"
    and post_create_failed: "ok s \<Longrightarrow> post_id p = uuid_nil \<Longrightarrow> st_create_post st s p = (Inl e, s') \<Longrightarrow>
      pages s' = pages s \<and> (posts s' = posts s \<or> \<not> breaks_rule e \<and>
        (\<exists>i q. i \<notin> post_id ` posts s \<and> same_post stored (p\<lparr>post_id := i\<rparr>) q \<and> posts s' = insert q (posts s)))"
    and page_create_failed: "ok s \<Longrightarrow> page_id g = uuid_nil \<Longrightarrow> st_create_page st s g = (Inl e, s') \<Longrightarrow>
      posts s' = posts s \<and> (pages s' = pages s \<or> \<not> breaks_rule e \<and>
        (\<exists>i q. i \<notin> page_id ` pages s \<and> same_page stored (g\<lparr>page_id := i\<rparr>) q \<and> pages s' = insert q (pages s)))"
    and post_updated: "ok s \<Longrightarrow> post_id p \<in> post_id ` posts s \<Longrightarrow> st_update_post st s p = (Inr p', s') \<Longrightarrow>
      pages s' = pages s \<and> (\<exists>q. same_post stored p q \<and> posts s' = replaced post_id q (posts s))"
    and page_updated: "ok s \<Longrightarrow> page_id g \<in> page_id ` pages s \<Longrightarrow> st_update_page st s g = (Inr g', s') \<Longrightarrow>
      posts s' = posts s \<and> (\<exists>q. same_page stored g q \<and> pages s' = replaced page_id q (pages s))"
    and post_update_failed: "ok s \<Longrightarrow> post_id p \<in> post_id ` posts s \<Longrightarrow> st_update_post st s p = (Inl e, s') \<Longrightarrow>
      pages s' = pages s \<and> (posts s' = posts s \<or> \<not> breaks_rule e \<and>
        (\<exists>q. same_post stored p q \<and> posts s' = replaced post_id q (posts s)))"
    and page_update_failed: "ok s \<Longrightarrow> page_id g \<in> page_id ` pages s \<Longrightarrow> st_update_page st s g = (Inl e, s') \<Longrightarrow>
      posts s' = posts s \<and> (pages s' = pages s \<or> \<not> breaks_rule e \<and>
        (\<exists>q. same_page stored g q \<and> pages s' = replaced page_id q (pages s)))"
    and ok_writes: "ok s \<Longrightarrow> ok (snd (st_create_post st s p)) \<and> ok (snd (st_update_post st s p)) \<and>
      ok (snd (st_create_page st s g)) \<and> ok (snd (st_update_page st s g))"

section \<open>The content store keeps it\<close>

locale content_connection = pop_connection conn valid rows clock lower slug_le st
  for conn :: "'db pop" and valid rows clock lower slug_le st +
  fixes new_v7 :: "'db \<Rightarrow> go_error + uuid"
  assumes v7: "v7_ok (new_v7 db)"
begin

lemma same_post_stored: "same_post st p (stored_post st (p\<lparr>post_created_at := c, post_updated_at := u\<rparr>))"
  by (simp add: same_post_def)

lemma same_page_stored: "same_page st p (stored_page st (p\<lparr>page_created_at := c, page_updated_at := u\<rparr>))"
  by (simp add: same_page_def)

lemma posts_in_dates: "valid db \<Longrightarrow> p \<in> posts_in (rows db) \<Longrightarrow>
    map_option st (post_published_at p) = post_published_at p"
  using rows_stored [of db post_table_name "post_id p" "row_of_post p"]
  by (metis posts_in_iff row_of_post_simps(5) stored_row_simps(5))

lemma pages_in_dates: "valid db \<Longrightarrow> g \<in> pages_in (rows db) \<Longrightarrow>
    map_option st (page_published_at g) = page_published_at g"
  using rows_stored [of db page_table_name "page_id g" "row_of_page g"]
  by (metis pages_in_iff row_of_page_simps(5) stored_row_simps(5))

end

context content_connection
begin

lemma post_created_law:
  assumes "valid s" and "create_post new_v7 conn s p = (Inr p', s')"
  shows "pages_in (rows s') = pages_in (rows s) \<and> post_id p' \<notin> post_id ` posts_in (rows s) \<and>
    (\<exists>q. same_post st (p\<lparr>post_id := post_id p'\<rparr>) q \<and> posts_in (rows s') = insert q (posts_in (rows s)))"
proof -
  from create_post_Inr [OF assms(1) v7 assms(2)] obtain i at where
    i: "i \<notin> post_id ` posts_in (rows s)" and
    p': "p' = p\<lparr>post_id := i, post_created_at := at, post_updated_at := at\<rparr>" and
    rows: "posts_in (rows s') = insert (stored_post st p') (posts_in (rows s))" "pages_in (rows s') = pages_in (rows s)"
    by blast
  have "same_post st (p\<lparr>post_id := post_id p'\<rparr>) (stored_post st p')" by (simp add: same_post_def p')
  with i p' rows show ?thesis by auto
qed

lemma post_create_failed_law:
  assumes "valid s" and "create_post new_v7 conn s p = (Inl e, s')"
  shows "pages_in (rows s') = pages_in (rows s) \<and> (posts_in (rows s') = posts_in (rows s) \<or> \<not> breaks_rule e \<and>
    (\<exists>i q. i \<notin> post_id ` posts_in (rows s) \<and> same_post st (p\<lparr>post_id := i\<rparr>) q \<and>
       posts_in (rows s') = insert q (posts_in (rows s))))"
proof -
  from create_post_Inl [OF assms(1) v7 assms(2)] have o: "pages_in (rows s') = pages_in (rows s)"
    and "posts_in (rows s') = posts_in (rows s) \<or> \<not> breaks_rule e \<and> (\<exists>i at. i \<notin> post_id ` posts_in (rows s) \<and>
      posts_in (rows s') = insert (stored_post st (p\<lparr>post_id := i, post_created_at := at, post_updated_at := at\<rparr>))
        (posts_in (rows s)))"
    by blast+
  then show ?thesis
  proof (elim disjE conjE exE)
    fix i at
    assume "\<not> breaks_rule e" "i \<notin> post_id ` posts_in (rows s)"
      and rows: "posts_in (rows s') = insert (stored_post st (p\<lparr>post_id := i, post_created_at := at, post_updated_at := at\<rparr>))
        (posts_in (rows s))"
    moreover have "same_post st (p\<lparr>post_id := i\<rparr>)
        (stored_post st (p\<lparr>post_id := i, post_created_at := at, post_updated_at := at\<rparr>))"
      by (simp add: same_post_def)
    ultimately show ?thesis using o by blast
  qed (simp add: o)
qed

lemma post_updated_law:
  assumes "valid s" and "post_id p \<in> post_id ` posts_in (rows s)" and "update_post conn s p = (Inr p', s')"
  shows "pages_in (rows s') = pages_in (rows s) \<and>
    (\<exists>q. same_post st p q \<and> posts_in (rows s') = replaced post_id q (posts_in (rows s)))"
proof -
  from assms(2) obtain old where old: "old \<in> posts_in (rows s)" "post_id old = post_id p" by auto
  from update_post_Inr [OF assms(1) old assms(3)] show ?thesis using same_post_stored by blast
qed

lemma post_update_failed_law:
  assumes "valid s" and "post_id p \<in> post_id ` posts_in (rows s)" and "update_post conn s p = (Inl e, s')"
  shows "pages_in (rows s') = pages_in (rows s) \<and> (posts_in (rows s') = posts_in (rows s) \<or> \<not> breaks_rule e \<and>
    (\<exists>q. same_post st p q \<and> posts_in (rows s') = replaced post_id q (posts_in (rows s))))"
proof -
  from assms(2) obtain old where old: "old \<in> posts_in (rows s)" "post_id old = post_id p" by auto
  from update_post_Inl [OF assms(1) old assms(3)] show ?thesis using same_post_stored by blast
qed

lemma page_created_law:
  assumes "valid s" and "create_page new_v7 conn s p = (Inr p', s')"
  shows "posts_in (rows s') = posts_in (rows s) \<and> page_id p' \<notin> page_id ` pages_in (rows s) \<and>
    (\<exists>q. same_page st (p\<lparr>page_id := page_id p'\<rparr>) q \<and> pages_in (rows s') = insert q (pages_in (rows s)))"
proof -
  from create_page_Inr [OF assms(1) v7 assms(2)] obtain i at where
    i: "i \<notin> page_id ` pages_in (rows s)" and
    p': "p' = p\<lparr>page_id := i, page_created_at := at, page_updated_at := at\<rparr>" and
    rows: "pages_in (rows s') = insert (stored_page st p') (pages_in (rows s))" "posts_in (rows s') = posts_in (rows s)"
    by blast
  have "same_page st (p\<lparr>page_id := page_id p'\<rparr>) (stored_page st p')" by (simp add: same_page_def p')
  with i p' rows show ?thesis by auto
qed

lemma page_create_failed_law:
  assumes "valid s" and "create_page new_v7 conn s p = (Inl e, s')"
  shows "posts_in (rows s') = posts_in (rows s) \<and> (pages_in (rows s') = pages_in (rows s) \<or> \<not> breaks_rule e \<and>
    (\<exists>i q. i \<notin> page_id ` pages_in (rows s) \<and> same_page st (p\<lparr>page_id := i\<rparr>) q \<and>
       pages_in (rows s') = insert q (pages_in (rows s))))"
proof -
  from create_page_Inl [OF assms(1) v7 assms(2)] have o: "posts_in (rows s') = posts_in (rows s)"
    and "pages_in (rows s') = pages_in (rows s) \<or> \<not> breaks_rule e \<and> (\<exists>i at. i \<notin> page_id ` pages_in (rows s) \<and>
      pages_in (rows s') = insert (stored_page st (p\<lparr>page_id := i, page_created_at := at, page_updated_at := at\<rparr>))
        (pages_in (rows s)))"
    by blast+
  then show ?thesis
  proof (elim disjE conjE exE)
    fix i at
    assume "\<not> breaks_rule e" "i \<notin> page_id ` pages_in (rows s)"
      and rows: "pages_in (rows s') = insert (stored_page st (p\<lparr>page_id := i, page_created_at := at, page_updated_at := at\<rparr>))
        (pages_in (rows s))"
    moreover have "same_page st (p\<lparr>page_id := i\<rparr>)
        (stored_page st (p\<lparr>page_id := i, page_created_at := at, page_updated_at := at\<rparr>))"
      by (simp add: same_page_def)
    ultimately show ?thesis using o by blast
  qed (simp add: o)
qed

lemma page_updated_law:
  assumes "valid s" and "page_id p \<in> page_id ` pages_in (rows s)" and "update_page conn s p = (Inr p', s')"
  shows "posts_in (rows s') = posts_in (rows s) \<and>
    (\<exists>q. same_page st p q \<and> pages_in (rows s') = replaced page_id q (pages_in (rows s)))"
proof -
  from assms(2) obtain old where old: "old \<in> pages_in (rows s)" "page_id old = page_id p" by auto
  from update_page_Inr [OF assms(1) old assms(3)] show ?thesis using same_page_stored by blast
qed

lemma page_update_failed_law:
  assumes "valid s" and "page_id p \<in> page_id ` pages_in (rows s)" and "update_page conn s p = (Inl e, s')"
  shows "posts_in (rows s') = posts_in (rows s) \<and> (pages_in (rows s') = pages_in (rows s) \<or> \<not> breaks_rule e \<and>
    (\<exists>q. same_page st p q \<and> pages_in (rows s') = replaced page_id q (pages_in (rows s))))"
proof -
  from assms(2) obtain old where old: "old \<in> pages_in (rows s)" "page_id old = page_id p" by auto
  from update_page_Inl [OF assms(1) old assms(3)] show ?thesis using same_page_stored by blast
qed

end

lemma content_store_simps [simp]:
  "st_find_posts (content_store new_v7 conn) = find_posts conn"
  "st_find_pages (content_store new_v7 conn) = find_pages conn"
  "st_post_by_id (content_store new_v7 conn) = post_by_id conn"
  "st_page_by_id (content_store new_v7 conn) = page_by_id conn"
  "st_create_post (content_store new_v7 conn) = create_post new_v7 conn"
  "st_update_post (content_store new_v7 conn) = update_post conn"
  "st_create_page (content_store new_v7 conn) = create_page new_v7 conn"
  "st_update_page (content_store new_v7 conn) = update_page conn"
  by (simp_all add: content_store_def)

sublocale content_connection \<subseteq> admin: admin_store "content_store new_v7 conn" valid "\<lambda>s. posts_in (rows s)" "\<lambda>s. pages_in (rows s)" st
proof
  fix s p q
  show "p \<in> posts_in (rows s) \<Longrightarrow> q \<in> posts_in (rows s) \<Longrightarrow> post_id p = post_id q \<Longrightarrow> p = q"
    by (metis option.inject posts_in_iff row_post_inverse(2))
next
  fix s p q
  show "p \<in> pages_in (rows s) \<Longrightarrow> q \<in> pages_in (rows s) \<Longrightarrow> page_id p = page_id q \<Longrightarrow> p = q"
    by (metis option.inject pages_in_iff row_page_inverse(2))
next
  fix s p i
  assume v: "valid s"
  show "st_post_by_id (content_store new_v7 conn) s i Author = Inr p \<Longrightarrow> p \<in> posts_in (rows s) \<and> post_id p = i"
    using post_by_id_Inr [OF v, of i Author p] by simp
next
  fix s p i
  assume v: "valid s"
  show "st_page_by_id (content_store new_v7 conn) s i Author = Inr p \<Longrightarrow> p \<in> pages_in (rows s) \<and> page_id p = i"
    using page_by_id_Inr [OF v, of i Author p] by simp
next
  fix s e i
  assume v: "valid s"
  show "st_post_by_id (content_store new_v7 conn) s i Author = Inl e \<Longrightarrow> errors_is e ErrNotFound \<Longrightarrow>
      i \<notin> post_id ` posts_in (rows s)"
    using post_by_id_not_found [OF v, of i Author e] by (auto simp: sees_def)
next
  fix s e i
  assume v: "valid s"
  show "st_page_by_id (content_store new_v7 conn) s i Author = Inl e \<Longrightarrow> errors_is e ErrNotFound \<Longrightarrow>
      i \<notin> page_id ` pages_in (rows s)"
    using page_by_id_not_found [OF v, of i Author e] by (auto simp: sees_def)
next
  fix s p
  show "valid s \<Longrightarrow> p \<in> posts_in (rows s) \<Longrightarrow> map_option st (post_published_at p) = post_published_at p"
    by (rule posts_in_dates)
next
  fix s p
  show "valid s \<Longrightarrow> p \<in> pages_in (rows s) \<Longrightarrow> map_option st (page_published_at p) = page_published_at p"
    by (rule pages_in_dates)
next
  fix s p p' s'
  assume "valid s" "st_create_post (content_store new_v7 conn) s p = (Inr p', s')"
  then show "pages_in (rows s') = pages_in (rows s) \<and> post_id p' \<notin> post_id ` posts_in (rows s) \<and>
      (\<exists>q. same_post st (p\<lparr>post_id := post_id p'\<rparr>) q \<and> posts_in (rows s') = insert q (posts_in (rows s)))"
    unfolding content_store_simps by (rule post_created_law)
next
  fix s p e s'
  assume "valid s" "st_create_post (content_store new_v7 conn) s p = (Inl e, s')"
  then show "pages_in (rows s') = pages_in (rows s) \<and> (posts_in (rows s') = posts_in (rows s) \<or> \<not> breaks_rule e \<and>
      (\<exists>i q. i \<notin> post_id ` posts_in (rows s) \<and> same_post st (p\<lparr>post_id := i\<rparr>) q \<and>
         posts_in (rows s') = insert q (posts_in (rows s))))"
    unfolding content_store_simps by (rule post_create_failed_law)
next
  fix s p p' s'
  assume "valid s" "post_id p \<in> post_id ` posts_in (rows s)"
    "st_update_post (content_store new_v7 conn) s p = (Inr p', s')"
  then show "pages_in (rows s') = pages_in (rows s) \<and>
      (\<exists>q. same_post st p q \<and> posts_in (rows s') = replaced post_id q (posts_in (rows s)))"
    unfolding content_store_simps by (rule post_updated_law)
next
  fix s p e s'
  assume "valid s" "post_id p \<in> post_id ` posts_in (rows s)"
    "st_update_post (content_store new_v7 conn) s p = (Inl e, s')"
  then show "pages_in (rows s') = pages_in (rows s) \<and> (posts_in (rows s') = posts_in (rows s) \<or> \<not> breaks_rule e \<and>
      (\<exists>q. same_post st p q \<and> posts_in (rows s') = replaced post_id q (posts_in (rows s))))"
    unfolding content_store_simps by (rule post_update_failed_law)
next
  fix s p p' s'
  assume "valid s" "st_create_page (content_store new_v7 conn) s p = (Inr p', s')"
  then show "posts_in (rows s') = posts_in (rows s) \<and> page_id p' \<notin> page_id ` pages_in (rows s) \<and>
      (\<exists>q. same_page st (p\<lparr>page_id := page_id p'\<rparr>) q \<and> pages_in (rows s') = insert q (pages_in (rows s)))"
    unfolding content_store_simps by (rule page_created_law)
next
  fix s p e s'
  assume "valid s" "st_create_page (content_store new_v7 conn) s p = (Inl e, s')"
  then show "posts_in (rows s') = posts_in (rows s) \<and> (pages_in (rows s') = pages_in (rows s) \<or> \<not> breaks_rule e \<and>
      (\<exists>i q. i \<notin> page_id ` pages_in (rows s) \<and> same_page st (p\<lparr>page_id := i\<rparr>) q \<and>
         pages_in (rows s') = insert q (pages_in (rows s))))"
    unfolding content_store_simps by (rule page_create_failed_law)
next
  fix s p p' s'
  assume "valid s" "page_id p \<in> page_id ` pages_in (rows s)"
    "st_update_page (content_store new_v7 conn) s p = (Inr p', s')"
  then show "posts_in (rows s') = posts_in (rows s) \<and>
      (\<exists>q. same_page st p q \<and> pages_in (rows s') = replaced page_id q (pages_in (rows s)))"
    unfolding content_store_simps by (rule page_updated_law)
next
  fix s p e s'
  assume "valid s" "page_id p \<in> page_id ` pages_in (rows s)"
    "st_update_page (content_store new_v7 conn) s p = (Inl e, s')"
  then show "posts_in (rows s') = posts_in (rows s) \<and> (pages_in (rows s') = pages_in (rows s) \<or> \<not> breaks_rule e \<and>
      (\<exists>q. same_page st p q \<and> pages_in (rows s') = replaced page_id q (pages_in (rows s))))"
    unfolding content_store_simps by (rule page_update_failed_law)
next
  fix s p g
  assume "valid s"
  then show "valid (snd (st_create_post (content_store new_v7 conn) s p)) \<and>
      valid (snd (st_update_post (content_store new_v7 conn) s p)) \<and>
      valid (snd (st_create_page (content_store new_v7 conn) s g)) \<and>
      valid (snd (st_update_page (content_store new_v7 conn) s g))"
    unfolding content_store_simps by (intro conjI valid_store_writes)
qed

section \<open>Resources\<close>

definition same_record :: "(go_time \<Rightarrow> go_time) \<Rightarrow> wrecord \<Rightarrow> wrecord \<Rightarrow> bool" where
  "same_record st r q \<longleftrightarrow>
     rec_id q = rec_id r \<and> rec_slug q = rec_slug r \<and> rec_title q = rec_title r \<and>
     rec_body q = rec_body r \<and> rec_published_at q = map_option st (rec_published_at r)"

text \<open>What an update writes onto the stored record.\<close>

definition written :: "wrecord \<Rightarrow> bool \<Rightarrow> wrecord \<Rightarrow> wrecord" where
  "written rc with_date old = (if with_date then rc else rc\<lparr>rec_published_at := rec_published_at old\<rparr>)"

context admin_store
begin

abbreviation post_records :: "'s \<Rightarrow> wrecord set" where
  "post_records s \<equiv> record_of_post ` posts s"

lemma post_record_simps [simp]:
  "rec_id (record_of_post p) = post_id p" "rec_slug (record_of_post p) = post_slug p"
  "rec_title (record_of_post p) = post_title p" "rec_body (record_of_post p) = post_body p"
  "rec_published_at (record_of_post p) = post_published_at p"
  by (simp_all add: record_of_post_def)

lemma post_replaced_records:
  "record_of_post ` replaced post_id q ps = replaced rec_id (record_of_post q) (record_of_post ` ps)"
  by (auto simp: replaced_def)

lemma post_written:
  assumes "same_post stored (write_post rc wd p) q" and "post_id p = rec_id rc"
  shows "same_record stored (written rc wd (record_of_post p)) (record_of_post q)"
  using assms by (cases wd) (simp_all add: same_post_def same_record_def written_def write_post_def Let_def)

lemma post_write_id [simp]: "post_id (write_post rc wd p) = post_id p"
  by (simp add: write_post_def Let_def)

lemma post_res_updated:
  assumes "ok s" and "res_update (posts_resource st) s rc wd = (Inr u, s')"
  shows "pages s' = pages s \<and> (\<exists>old \<in> post_records s. \<exists>q. rec_id old = rec_id rc \<and>
    same_record stored (written rc wd old) q \<and> post_records s' = replaced rec_id q (post_records s))"
proof -
  from assms(2) obtain p p' where read: "st_post_by_id st s (rec_id rc) Author = Inr p"
    and wr: "st_update_post st s (write_post rc wd p) = (Inr p', s')"
    by (auto simp: posts_resource_def split: sum.splits prod.splits)
  from post_found [OF assms(1) read] have p: "p \<in> posts s" "post_id p = rec_id rc" by auto
  from p(1) have "post_id (write_post rc wd p) \<in> post_id ` posts s" by simp
  from post_updated [OF assms(1) this wr] obtain q where
    q: "pages s' = pages s" "same_post stored (write_post rc wd p) q" "posts s' = replaced post_id q (posts s)" by blast
  have "same_record stored (written rc wd (record_of_post p)) (record_of_post q)"
    using q(2) p(2) by (rule post_written)
  moreover have "post_records s' = replaced rec_id (record_of_post q) (post_records s)"
    by (simp only: q(3) post_replaced_records)
  moreover have "rec_id (record_of_post p) = rec_id rc" using p(2) by simp
  ultimately show ?thesis using q(1) p(1) by blast
qed

lemma post_res_update_failed:
  assumes "ok s" and "res_update (posts_resource st) s rc wd = (Inl e, s')"
  shows "pages s' = pages s \<and> (post_records s' = post_records s \<or> \<not> breaks_rule e \<and>
    (\<exists>old \<in> post_records s. \<exists>q. rec_id old = rec_id rc \<and>
      same_record stored (written rc wd old) q \<and> post_records s' = replaced rec_id q (post_records s)))"
proof (cases "st_post_by_id st s (rec_id rc) Author")
  case (Inl e0)
  with assms(2) show ?thesis by (simp add: posts_resource_def)
next
  case (Inr p)
  with assms(2) have wr: "st_update_post st s (write_post rc wd p) = (Inl e, s')"
    by (auto simp: posts_resource_def split: sum.splits prod.splits)
  from post_found [OF assms(1) Inr] have p: "p \<in> posts s" "post_id p = rec_id rc" by auto
  from p(1) have "post_id (write_post rc wd p) \<in> post_id ` posts s" by simp
  from post_update_failed [OF assms(1) this wr] have o: "pages s' = pages s" and
    "posts s' = posts s \<or> \<not> breaks_rule e \<and>
      (\<exists>q. same_post stored (write_post rc wd p) q \<and> posts s' = replaced post_id q (posts s))" by blast+
  then show ?thesis
  proof (elim disjE conjE exE)
    fix q
    assume b: "\<not> breaks_rule e" and q: "same_post stored (write_post rc wd p) q" "posts s' = replaced post_id q (posts s)"
    have "same_record stored (written rc wd (record_of_post p)) (record_of_post q)"
      using q(1) p(2) by (rule post_written)
    moreover have "post_records s' = replaced rec_id (record_of_post q) (post_records s)"
      by (simp only: q(2) post_replaced_records)
    moreover have "rec_id (record_of_post p) = rec_id rc" using p(2) by simp
    ultimately show ?thesis using o b p(1) by blast
  qed (simp add: o)
qed

lemma post_res_created:
  assumes "ok s" and "res_create (posts_resource st) s rc = (Inr rc', s')"
  shows "pages s' = pages s \<and> rc' = rc\<lparr>rec_id := rec_id rc'\<rparr> \<and> rec_id rc' \<notin> rec_id ` post_records s \<and>
    (\<exists>q. same_record stored rc' q \<and> post_records s' = insert q (post_records s))"
proof -
  let ?p = "\<lparr>post_id = uuid_nil, post_slug = rec_slug rc, post_title = rec_title rc, post_body = rec_body rc,
    post_published_at = rec_published_at rc, post_created_at = zero_time, post_updated_at = zero_time\<rparr>"
  from assms(2) obtain p' where wr: "st_create_post st s ?p = (Inr p', s')" and rc': "rc' = rc\<lparr>rec_id := post_id p'\<rparr>"
    by (auto simp: posts_resource_def split: sum.splits prod.splits)
  from post_created [OF assms(1) _ wr] obtain q where
    "pages s' = pages s" "post_id p' \<notin> post_id ` posts s" "same_post stored (?p\<lparr>post_id := post_id p'\<rparr>) q"
    "posts s' = insert q (posts s)" by auto
  then show ?thesis
    by (intro conjI exI [of _ "record_of_post q"])
      (simp_all add: rc' same_post_def same_record_def image_image)
qed

lemma post_res_create_failed:
  assumes "ok s" and "res_create (posts_resource st) s rc = (Inl e, s')"
  shows "pages s' = pages s \<and> (post_records s' = post_records s \<or> \<not> breaks_rule e \<and>
    (\<exists>i q. i \<notin> rec_id ` post_records s \<and> same_record stored (rc\<lparr>rec_id := i\<rparr>) q \<and>
       post_records s' = insert q (post_records s)))"
proof -
  let ?p = "\<lparr>post_id = uuid_nil, post_slug = rec_slug rc, post_title = rec_title rc, post_body = rec_body rc,
    post_published_at = rec_published_at rc, post_created_at = zero_time, post_updated_at = zero_time\<rparr>"
  from assms(2) have wr: "st_create_post st s ?p = (Inl e, s')"
    by (auto simp: posts_resource_def split: sum.splits prod.splits)
  from post_create_failed [OF assms(1) _ wr] have o: "pages s' = pages s" and
    "posts s' = posts s \<or> \<not> breaks_rule e \<and>
      (\<exists>i q. i \<notin> post_id ` posts s \<and> same_post stored (?p\<lparr>post_id := i\<rparr>) q \<and> posts s' = insert q (posts s))" by simp_all
  then show ?thesis
  proof (elim disjE conjE exE)
    fix i q
    assume "\<not> breaks_rule e" "i \<notin> post_id ` posts s" "same_post stored (?p\<lparr>post_id := i\<rparr>) q" "posts s' = insert q (posts s)"
    then show ?thesis using o
      by (intro conjI disjI2 exI [of _ i] exI [of _ "record_of_post q"])
        (simp_all add: same_post_def same_record_def image_image)
  qed (simp add: o)
qed

lemma post_res_ok:
  assumes "ok s"
  shows "ok (snd (res_create (posts_resource st) s rc)) \<and> ok (snd (res_update (posts_resource st) s rc wd))"
proof -
  have "ok (snd (st_create_post st s p))" "ok (snd (st_update_post st s p))" for p
    using ok_writes [OF assms] by blast+
  then show ?thesis
    using assms by (auto simp: posts_resource_def split: sum.split prod.split)
      (metis snd_conv)+
qed

end

context admin_store
begin

abbreviation page_records :: "'s \<Rightarrow> wrecord set" where
  "page_records s \<equiv> record_of_page ` pages s"

lemma page_record_simps [simp]:
  "rec_id (record_of_page p) = page_id p" "rec_slug (record_of_page p) = page_slug p"
  "rec_title (record_of_page p) = page_title p" "rec_body (record_of_page p) = page_body p"
  "rec_published_at (record_of_page p) = page_published_at p"
  by (simp_all add: record_of_page_def)

lemma page_replaced_records:
  "record_of_page ` replaced page_id q ps = replaced rec_id (record_of_page q) (record_of_page ` ps)"
  by (auto simp: replaced_def)

lemma page_written:
  assumes "same_page stored (write_page rc wd p) q" and "page_id p = rec_id rc"
  shows "same_record stored (written rc wd (record_of_page p)) (record_of_page q)"
  using assms by (cases wd) (simp_all add: same_page_def same_record_def written_def write_page_def Let_def)

lemma page_write_id [simp]: "page_id (write_page rc wd p) = page_id p"
  by (simp add: write_page_def Let_def)

lemma page_res_updated:
  assumes "ok s" and "res_update (pages_resource st) s rc wd = (Inr u, s')"
  shows "posts s' = posts s \<and> (\<exists>old \<in> page_records s. \<exists>q. rec_id old = rec_id rc \<and>
    same_record stored (written rc wd old) q \<and> page_records s' = replaced rec_id q (page_records s))"
proof -
  from assms(2) obtain p p' where read: "st_page_by_id st s (rec_id rc) Author = Inr p"
    and wr: "st_update_page st s (write_page rc wd p) = (Inr p', s')"
    by (auto simp: pages_resource_def split: sum.splits prod.splits)
  from page_found [OF assms(1) read] have p: "p \<in> pages s" "page_id p = rec_id rc" by auto
  from p(1) have "page_id (write_page rc wd p) \<in> page_id ` pages s" by simp
  from page_updated [OF assms(1) this wr] obtain q where
    q: "posts s' = posts s" "same_page stored (write_page rc wd p) q" "pages s' = replaced page_id q (pages s)" by blast
  have "same_record stored (written rc wd (record_of_page p)) (record_of_page q)"
    using q(2) p(2) by (rule page_written)
  moreover have "page_records s' = replaced rec_id (record_of_page q) (page_records s)"
    by (simp only: q(3) page_replaced_records)
  moreover have "rec_id (record_of_page p) = rec_id rc" using p(2) by simp
  ultimately show ?thesis using q(1) p(1) by blast
qed

lemma page_res_update_failed:
  assumes "ok s" and "res_update (pages_resource st) s rc wd = (Inl e, s')"
  shows "posts s' = posts s \<and> (page_records s' = page_records s \<or> \<not> breaks_rule e \<and>
    (\<exists>old \<in> page_records s. \<exists>q. rec_id old = rec_id rc \<and>
      same_record stored (written rc wd old) q \<and> page_records s' = replaced rec_id q (page_records s)))"
proof (cases "st_page_by_id st s (rec_id rc) Author")
  case (Inl e0)
  with assms(2) show ?thesis by (simp add: pages_resource_def)
next
  case (Inr p)
  with assms(2) have wr: "st_update_page st s (write_page rc wd p) = (Inl e, s')"
    by (auto simp: pages_resource_def split: sum.splits prod.splits)
  from page_found [OF assms(1) Inr] have p: "p \<in> pages s" "page_id p = rec_id rc" by auto
  from p(1) have "page_id (write_page rc wd p) \<in> page_id ` pages s" by simp
  from page_update_failed [OF assms(1) this wr] have o: "posts s' = posts s" and
    "pages s' = pages s \<or> \<not> breaks_rule e \<and>
      (\<exists>q. same_page stored (write_page rc wd p) q \<and> pages s' = replaced page_id q (pages s))" by blast+
  then show ?thesis
  proof (elim disjE conjE exE)
    fix q
    assume b: "\<not> breaks_rule e" and q: "same_page stored (write_page rc wd p) q" "pages s' = replaced page_id q (pages s)"
    have "same_record stored (written rc wd (record_of_page p)) (record_of_page q)"
      using q(1) p(2) by (rule page_written)
    moreover have "page_records s' = replaced rec_id (record_of_page q) (page_records s)"
      by (simp only: q(2) page_replaced_records)
    moreover have "rec_id (record_of_page p) = rec_id rc" using p(2) by simp
    ultimately show ?thesis using o b p(1) by blast
  qed (simp add: o)
qed

lemma page_res_created:
  assumes "ok s" and "res_create (pages_resource st) s rc = (Inr rc', s')"
  shows "posts s' = posts s \<and> rc' = rc\<lparr>rec_id := rec_id rc'\<rparr> \<and> rec_id rc' \<notin> rec_id ` page_records s \<and>
    (\<exists>q. same_record stored rc' q \<and> page_records s' = insert q (page_records s))"
proof -
  let ?p = "\<lparr>page_id = uuid_nil, page_slug = rec_slug rc, page_title = rec_title rc, page_body = rec_body rc,
    page_published_at = rec_published_at rc, page_created_at = zero_time, page_updated_at = zero_time\<rparr>"
  from assms(2) obtain p' where wr: "st_create_page st s ?p = (Inr p', s')" and rc': "rc' = rc\<lparr>rec_id := page_id p'\<rparr>"
    by (auto simp: pages_resource_def split: sum.splits prod.splits)
  from page_created [OF assms(1) _ wr] obtain q where
    "posts s' = posts s" "page_id p' \<notin> page_id ` pages s" "same_page stored (?p\<lparr>page_id := page_id p'\<rparr>) q"
    "pages s' = insert q (pages s)" by auto
  then show ?thesis
    by (intro conjI exI [of _ "record_of_page q"])
      (simp_all add: rc' same_page_def same_record_def image_image)
qed

lemma page_res_create_failed:
  assumes "ok s" and "res_create (pages_resource st) s rc = (Inl e, s')"
  shows "posts s' = posts s \<and> (page_records s' = page_records s \<or> \<not> breaks_rule e \<and>
    (\<exists>i q. i \<notin> rec_id ` page_records s \<and> same_record stored (rc\<lparr>rec_id := i\<rparr>) q \<and>
       page_records s' = insert q (page_records s)))"
proof -
  let ?p = "\<lparr>page_id = uuid_nil, page_slug = rec_slug rc, page_title = rec_title rc, page_body = rec_body rc,
    page_published_at = rec_published_at rc, page_created_at = zero_time, page_updated_at = zero_time\<rparr>"
  from assms(2) have wr: "st_create_page st s ?p = (Inl e, s')"
    by (auto simp: pages_resource_def split: sum.splits prod.splits)
  from page_create_failed [OF assms(1) _ wr] have o: "posts s' = posts s" and
    "pages s' = pages s \<or> \<not> breaks_rule e \<and>
      (\<exists>i q. i \<notin> page_id ` pages s \<and> same_page stored (?p\<lparr>page_id := i\<rparr>) q \<and> pages s' = insert q (pages s))" by simp_all
  then show ?thesis
  proof (elim disjE conjE exE)
    fix i q
    assume "\<not> breaks_rule e" "i \<notin> page_id ` pages s" "same_page stored (?p\<lparr>page_id := i\<rparr>) q" "pages s' = insert q (pages s)"
    then show ?thesis using o
      by (intro conjI disjI2 exI [of _ i] exI [of _ "record_of_page q"])
        (simp_all add: same_page_def same_record_def image_image)
  qed (simp add: o)
qed

lemma page_res_ok:
  assumes "ok s"
  shows "ok (snd (res_create (pages_resource st) s rc)) \<and> ok (snd (res_update (pages_resource st) s rc wd))"
proof -
  have "ok (snd (st_create_page st s p))" "ok (snd (st_update_page st s p))" for p
    using ok_writes [OF assms] by blast+
  then show ?thesis
    using assms by (auto simp: pages_resource_def split: sum.split prod.split)
      (metis snd_conv)+
qed

end

text \<open>
  \<open>records\<close> is the writing the resource reaches and \<open>others\<close> the rest of what is stored.
\<close>

locale writing_resource =
  fixes res :: "'s resource"
    and ok :: "'s \<Rightarrow> bool"
    and records :: "'s \<Rightarrow> wrecord set"
    and others :: "'s \<Rightarrow> 'o"
    and stored :: "go_time \<Rightarrow> go_time"
  assumes unique: "ok s \<Longrightarrow> r \<in> records s \<Longrightarrow> q \<in> records s \<Longrightarrow> rec_id r = rec_id q \<Longrightarrow> r = q"
    and dates: "ok s \<Longrightarrow> r \<in> records s \<Longrightarrow> map_option stored (rec_published_at r) = rec_published_at r"
    and found: "ok s \<Longrightarrow> res_by_id res s i = Inr r \<Longrightarrow> r \<in> records s \<and> rec_id r = i"
    and absent: "ok s \<Longrightarrow> res_by_id res s i = Inl e \<Longrightarrow> errors_is e ErrNotFound \<Longrightarrow> i \<notin> rec_id ` records s"
    and created: "ok s \<Longrightarrow> res_create res s rc = (Inr rc', s') \<Longrightarrow>
      others s' = others s \<and> rc' = rc\<lparr>rec_id := rec_id rc'\<rparr> \<and> rec_id rc' \<notin> rec_id ` records s \<and>
      (\<exists>q. same_record stored rc' q \<and> records s' = insert q (records s))"
    and create_failed: "ok s \<Longrightarrow> res_create res s rc = (Inl e, s') \<Longrightarrow>
      others s' = others s \<and> (records s' = records s \<or> \<not> breaks_rule e \<and>
        (\<exists>i q. i \<notin> rec_id ` records s \<and> same_record stored (rc\<lparr>rec_id := i\<rparr>) q \<and> records s' = insert q (records s)))"
    and was_updated: "ok s \<Longrightarrow> res_update res s rc wd = (Inr u, s') \<Longrightarrow>
      others s' = others s \<and> (\<exists>old \<in> records s. \<exists>q. rec_id old = rec_id rc \<and>
        same_record stored (written rc wd old) q \<and> records s' = replaced rec_id q (records s))"
    and update_failed: "ok s \<Longrightarrow> res_update res s rc wd = (Inl e, s') \<Longrightarrow>
      others s' = others s \<and> (records s' = records s \<or> \<not> breaks_rule e \<and>
        (\<exists>old \<in> records s. \<exists>q. rec_id old = rec_id rc \<and>
          same_record stored (written rc wd old) q \<and> records s' = replaced rec_id q (records s)))"
    and ok_writes: "ok s \<Longrightarrow> ok (snd (res_create res s rc)) \<and> ok (snd (res_update res s rc wd))"

sublocale admin_store \<subseteq> post_res: writing_resource "posts_resource st" ok "\<lambda>s. record_of_post ` posts s" pages stored
proof
  fix s r q
  assume "ok s" "r \<in> post_records s" "q \<in> post_records s" "rec_id r = rec_id q"
  then obtain x y where "x \<in> posts s" "y \<in> posts s" "post_id x = post_id y" "r = record_of_post x" "q = record_of_post y"
    by auto
  then show "r = q" using post_unique [OF \<open>ok s\<close>] by blast
next
  fix s r
  assume "ok s" "r \<in> post_records s"
  then show "map_option stored (rec_published_at r) = rec_published_at r" using post_dates [of s] by auto
next
  fix s i r
  assume "ok s" "res_by_id (posts_resource st) s i = Inr r"
  then show "r \<in> post_records s \<and> rec_id r = i"
    using post_found [of s i] by (auto simp: posts_resource_def split: sum.splits)
next
  fix s i e
  assume "ok s" "res_by_id (posts_resource st) s i = Inl e" "errors_is e ErrNotFound"
  then show "i \<notin> rec_id ` post_records s"
    using post_absent [of s i e] by (auto simp: posts_resource_def split: sum.splits)
qed (fact post_res_created post_res_create_failed post_res_updated post_res_update_failed post_res_ok)+

sublocale admin_store \<subseteq> page_res: writing_resource "pages_resource st" ok "\<lambda>s. record_of_page ` pages s" posts stored
proof
  fix s r q
  assume "ok s" "r \<in> page_records s" "q \<in> page_records s" "rec_id r = rec_id q"
  then obtain x y where "x \<in> pages s" "y \<in> pages s" "page_id x = page_id y" "r = record_of_page x" "q = record_of_page y"
    by auto
  then show "r = q" using page_unique [OF \<open>ok s\<close>] by blast
next
  fix s r
  assume "ok s" "r \<in> page_records s"
  then show "map_option stored (rec_published_at r) = rec_published_at r" using page_dates [of s] by auto
next
  fix s i r
  assume "ok s" "res_by_id (pages_resource st) s i = Inr r"
  then show "r \<in> page_records s \<and> rec_id r = i"
    using page_found [of s i] by (auto simp: pages_resource_def split: sum.splits)
next
  fix s i e
  assume "ok s" "res_by_id (pages_resource st) s i = Inl e" "errors_is e ErrNotFound"
  then show "i \<notin> rec_id ` page_records s"
    using page_absent [of s i e] by (auto simp: pages_resource_def split: sum.splits)
qed (fact page_res_created page_res_create_failed page_res_updated page_res_update_failed page_res_ok)+

section \<open>On the migrated database\<close>

text \<open>
  A UUIDv7 from the clock: its 48 bits of milliseconds, the version and the variant. (The bits the
  library draws at random are zero here.)
\<close>

unbundle bit_operations_syntax

definition clock_v7 :: "db \<Rightarrow> go_error + uuid" where
  "clock_v7 d = Inr (push_bit 80 (of_int (db_clock d div 1000000)) OR 0x70008000000000000000)"

lemma clock_v7_ok: "v7_ok (clock_v7 d)"
proof -
  let ?c = "0x70008000000000000000 :: uuid"
  have "bit ?c 63" by simp
  then have "bit (push_bit 80 (of_int (db_clock d div 1000000)) OR ?c) 63" by (simp only: bit_or_iff simp_thms)
  then have "push_bit 80 (of_int (db_clock d div 1000000)) OR ?c \<noteq> 0" by (metis bit_0_eq bot_apply bot_bool_def)
  then show ?thesis unfolding v7_ok_def clock_v7_def sum.case .
qed

interpretation schema_content: content_connection schema_conn schema_valid schema_rows db_clock ascii_lower "(\<le>)" micros clock_v7
  by unfold_locales (rule clock_v7_ok)

context admin_store
begin

lemma post_resource: "writing_resource (posts_resource st) ok (\<lambda>s. record_of_post ` posts s) pages stored"
  by (rule post_res.writing_resource_axioms)

lemma page_resource: "writing_resource (pages_resource st) ok (\<lambda>s. record_of_page ` pages s) posts stored"
  by (rule page_res.writing_resource_axioms)

end

end
