(* ===== verification/Content_Facts.thy ===== *)
theory Content_Facts
  imports Content_Store
begin

text \<open>The properties of the content store, and the database the examples use.\<close>

section \<open>An example database\<close>

definition sample_row :: "uuid \<Rightarrow> string \<Rightarrow> string \<Rightarrow> go_time option \<Rightarrow> go_time \<Rightarrow> row" where
  "sample_row i slug title pub created =
     \<lparr>r_id = i, r_slug = slug, r_title = title, r_body = ''...'', r_published_at = pub,
      r_created_at = created, r_updated_at = created\<rparr>"

text \<open>A live post, one scheduled for later, a draft, and a live page; it is two seconds past the epoch.\<close>

definition sample_db :: db where
  "sample_db =
     \<lparr>db_posts = [sample_row 1 ''live'' ''Live'' (Some 1000000) 1000,
                  sample_row 2 ''planned'' ''50% Planned'' (Some 9000000000) 2000,
                  sample_row 3 ''draft'' ''Draft'' None 3000],
      db_pages = [sample_row 4 ''about'' ''About'' (Some 1000000) 1000],
      db_clock = 2000000000, db_down = None\<rparr>"

lemma sample_valid: "schema_valid sample_db"
  by code_simp

lemma sample_connection:
  "pop_connection schema_conn schema_valid schema_rows db_clock ascii_lower (\<le>) micros"
  by (rule schema.pop_connection_axioms)

definition sample_v7 :: "db \<Rightarrow> go_error + uuid" where
  "sample_v7 d = Inr 7"

lemma sample_v7_ok: "v7_ok (sample_v7 d)"
  by (simp add: v7_ok_def sample_v7_def)

section \<open>Reads\<close>

text \<open>
  C4: no public read, by slug, by ID or of a list, returns writing that is not published at the moment
  of the read: neither a draft nor anything scheduled.
\<close>

theorem public_reads_show_published:
  assumes "pop_connection conn valid rows clock lower slug_le st" and "case_folding lower" and "valid db"
  shows "(post_by_slug conn db slug Public = Inr p \<or> post_by_id conn db i Public = Inr p \<or>
      (\<exists>l ps. find_posts conn db Public l = Inr ps \<and> p \<in> set ps) \<longrightarrow> post_is_published p (clock db)) \<and>
    (page_by_slug conn db slug Public = Inr g \<or> page_by_id conn db i Public = Inr g \<or>
      (\<exists>l gs. find_pages conn db Public l = Inr gs \<and> g \<in> set gs) \<longrightarrow> page_is_published g (clock db))"
  unfolding sees_public_post [symmetric] sees_public_page [symmetric]
  using pop_connection.post_read_sees [OF assms(1,3,2)] pop_connection.page_read_sees [OF assms(1,3,2)]
  by (intro conjI impI) fast+

theorem public_reads_show_published_witness:
  "\<exists>p. find_posts schema_conn sample_db Public \<lparr>l_text = [], l_page = 1, l_per_page = 0\<rparr> = Inr [p] \<and>
     post_slug p = ''live'' \<and> post_is_published p 2000000000"
proof -
  let ?l = "\<lparr>l_text = [], l_page = 1, l_per_page = 0\<rparr>"
  let ?p = "post_of_row (sample_row 1 ''live'' ''Live'' (Some 1000000) 1000)"
  have f: "find_posts schema_conn sample_db Public ?l = Inr [?p]" by code_simp
  then have "\<exists>l ps. find_posts schema_conn sample_db Public l = Inr ps \<and> ?p \<in> set ps" by force
  then have "post_is_published ?p (db_clock sample_db)"
    using public_reads_show_published [OF sample_connection ascii.case_folding_axioms sample_valid, where p = ?p]
    by blast
  with f show ?thesis by (intro exI [of _ ?p]) (simp add: sample_row_def sample_db_def)
qed

text \<open>A lookup answers exactly when it returns one of the candidates, and says not found of none.\<close>

definition answers_exactly :: "go_error + 'a \<Rightarrow> 'a set \<Rightarrow> bool" where
  "answers_exactly res S \<longleftrightarrow>
     (case res of Inr x \<Rightarrow> x \<in> S | Inl e \<Rightarrow> errors_is e ErrNotFound \<longrightarrow> S = {})"

text \<open>
  C13: a lookup by ID or by slug returns the writing stored under it, and answers \<^verbatim>\<open>ErrNotFound\<close> only if
  nothing is stored under it that the audience may see, which for the Author means nothing at all.
\<close>

theorem lookups_are_exact:
  assumes "pop_connection conn valid rows clock lower slug_le st" and "valid db"
  shows "answers_exactly (post_by_id conn db i aud)
      {p \<in> posts_in (rows db). post_id p = i \<and> sees aud (clock db) (post_published_at p)} \<and>
    answers_exactly (post_by_slug conn db slug aud)
      {p \<in> posts_in (rows db). post_slug p = slug \<and> sees aud (clock db) (post_published_at p)} \<and>
    answers_exactly (page_by_id conn db i aud)
      {g \<in> pages_in (rows db). page_id g = i \<and> sees aud (clock db) (page_published_at g)} \<and>
    answers_exactly (page_by_slug conn db slug aud)
      {g \<in> pages_in (rows db). page_slug g = slug \<and> sees aud (clock db) (page_published_at g)}"
proof (intro conjI)
  show "answers_exactly (post_by_id conn db i aud)
      {p \<in> posts_in (rows db). post_id p = i \<and> sees aud (clock db) (post_published_at p)}"
    using pop_connection.post_by_id_Inr [OF assms] pop_connection.post_by_id_not_found [OF assms]
    by (auto simp: answers_exactly_def split: sum.split)
  show "answers_exactly (post_by_slug conn db slug aud)
      {p \<in> posts_in (rows db). post_slug p = slug \<and> sees aud (clock db) (post_published_at p)}"
    using pop_connection.post_by_slug_Inr [OF assms] pop_connection.post_by_slug_not_found [OF assms]
    by (auto simp: answers_exactly_def split: sum.split)
  show "answers_exactly (page_by_id conn db i aud)
      {g \<in> pages_in (rows db). page_id g = i \<and> sees aud (clock db) (page_published_at g)}"
    using pop_connection.page_by_id_Inr [OF assms] pop_connection.page_by_id_not_found [OF assms]
    by (auto simp: answers_exactly_def split: sum.split)
  show "answers_exactly (page_by_slug conn db slug aud)
      {g \<in> pages_in (rows db). page_slug g = slug \<and> sees aud (clock db) (page_published_at g)}"
    using pop_connection.page_by_slug_Inr [OF assms] pop_connection.page_by_slug_not_found [OF assms]
    by (auto simp: answers_exactly_def split: sum.split)
qed

theorem lookups_are_exact_witness:
  "post_by_id schema_conn sample_db 3 Public = Inl (Errorf ''post %s: %w'' [UuidArg 3] ErrNotFound) \<and>
   post_by_id schema_conn sample_db 3 Author =
     Inr (post_of_row (sample_row 3 ''draft'' ''Draft'' None 3000)) \<and>
   {p \<in> posts_in (schema_rows sample_db). post_id p = 3 \<and> sees Public 2000000000 (post_published_at p)} = {}"
proof -
  have a: "post_by_id schema_conn sample_db 3 Public = Inl (Errorf ''post %s: %w'' [UuidArg 3] ErrNotFound)"
    by code_simp
  have b: "post_by_id schema_conn sample_db 3 Author =
      Inr (post_of_row (sample_row 3 ''draft'' ''Draft'' None 3000))" by code_simp
  from lookups_are_exact [OF sample_connection sample_valid, of 3 Public "[]"]
  have "answers_exactly (post_by_id schema_conn sample_db 3 Public)
      {p \<in> posts_in (schema_rows sample_db). post_id p = 3 \<and> sees Public (db_clock sample_db) (post_published_at p)}"
    by (rule conjunct1)
  moreover have "db_clock sample_db = 2000000000" by (simp add: sample_db_def)
  ultimately show ?thesis using a b by (simp add: answers_exactly_def)
qed

lemma sorted_key_unique:
  fixes f :: "'a \<Rightarrow> 'b::linorder"
  assumes "sorted_wrt (\<lambda>a b. f a \<le> f b) xs" and "sorted_wrt (\<lambda>a b. f a \<le> f b) ys"
    and "distinct xs" and "distinct ys" and "set xs = set ys" and "inj_on f (set xs)"
  shows "xs = ys"
proof -
  have "map f xs = map f ys"
    using assms by (intro sorted_distinct_set_unique) (auto simp: sorted_map distinct_map)
  with assms(5,6) show ?thesis by (intro map_inj_on [of f xs ys]) auto
qed

lemma newest_key_eq:
  "newest_key a = newest_key b \<longleftrightarrow> r_published_at a = r_published_at b \<and> r_created_at a = r_created_at b"
  by (cases "r_published_at a"; cases "r_published_at b") (auto simp: newest_key_def)

text \<open>Every page of a list is cut from one arrangement of what is visible and matches.\<close>

lemma posts_arranged:
  assumes "pop_connection conn valid rows clock lower slug_le st" and "case_folding lower" and "valid db"
    and "inj_on (\<lambda>p. (post_published_at p, post_created_at p)) (posts_in (rows db))"
    and "find_posts conn db aud \<lparr>l_text = txt, l_page = n, l_per_page = per\<rparr> = Inr ps0"
  shows "\<exists>xs. distinct xs \<and>
    set xs = {p \<in> posts_in (rows db). sees aud (clock db) (post_published_at p) \<and>
      contains_text lower txt (post_title p) (post_slug p)} \<and>
    sorted_wrt (\<lambda>a b. newest_key (row_of_post a) \<le> newest_key (row_of_post b)) xs \<and>
    (\<forall>k m ps. 1 \<le> k \<and> 1 \<le> m \<and> find_posts conn db aud \<lparr>l_text = txt, l_page = k, l_per_page = m\<rparr> = Inr ps \<longrightarrow>
       ps = take (nat m) (drop (nat ((k - 1) * m)) xs))"
proof -
  let ?S = "{p \<in> posts_in (rows db). sees aud (clock db) (post_published_at p) \<and>
      contains_text lower txt (post_title p) (post_slug p)}"
  let ?le = "\<lambda>a b. newest_key (row_of_post a) \<le> newest_key (row_of_post b)"
  note find = pop_connection.find_posts_Inr [OF assms(1,3,2)]
  from find [OF assms(5)] obtain xs where xs: "distinct xs" "set xs = ?S" "sorted_wrt ?le xs"
    by auto
  have inj: "inj_on (\<lambda>p. newest_key (row_of_post p)) ?S"
    using assms(4) by (auto simp: inj_on_def newest_key_eq)
  have "ps = take (nat m) (drop (nat ((k - 1) * m)) xs)"
    if f: "1 \<le> k" "1 \<le> m" "find_posts conn db aud \<lparr>l_text = txt, l_page = k, l_per_page = m\<rparr> = Inr ps" for k m ps
  proof -
    from find [OF f(3)] obtain ys where ys: "distinct ys" "set ys = ?S" "sorted_wrt ?le ys"
      "ps = page_of (Some (k, m)) ys"
      using f(1,2) by (auto simp: listing_page_def listing_per_page_def)
    have "ys = xs" using xs ys inj by (intro sorted_key_unique [of "\<lambda>p. newest_key (row_of_post p)"]) auto
    with ys(4) show ?thesis by (simp add: page_of_def)
  qed
  with xs show ?thesis by blast
qed

text \<open>
  C14: the pages of a list, taken together, are one arrangement of exactly the posts the audience may
  see whose title or slug contains the searched text, ignoring case and with no character of the text
  acting as a wildcard: newest first, drafts before everything else, nothing twice and nothing missed,
  whenever no two of them were published and created at the same instants.
\<close>

theorem find_posts_pages:
  assumes "pop_connection conn valid rows clock lower slug_le st" and "case_folding lower" and "valid db"
    and "inj_on (\<lambda>p. (post_published_at p, post_created_at p)) (posts_in (rows db))"
    and "find_posts conn db aud \<lparr>l_text = txt, l_page = n, l_per_page = per\<rparr> = Inr ps0"
  shows "\<exists>xs. distinct xs \<and>
    set xs = {p \<in> posts_in (rows db). sees aud (clock db) (post_published_at p) \<and>
      contains_text lower txt (post_title p) (post_slug p)} \<and>
    sorted_wrt (\<lambda>a b. newest_key (row_of_post a) \<le> newest_key (row_of_post b)) xs \<and>
    (\<forall>k m ps. 1 \<le> k \<and> 1 \<le> m \<and> find_posts conn db aud \<lparr>l_text = txt, l_page = k, l_per_page = m\<rparr> = Inr ps \<longrightarrow>
       ps = take (nat m) (drop (nat ((k - 1) * m)) xs))"
  using assms by (rule posts_arranged)

lemma sample_keys: "inj_on (\<lambda>p. (post_published_at p, post_created_at p)) (posts_in (schema_rows sample_db))"
proof (rule inj_onI)
  fix p q
  assume "p \<in> posts_in (schema_rows sample_db)" "q \<in> posts_in (schema_rows sample_db)"
    and eq: "(post_published_at p, post_created_at p) = (post_published_at q, post_created_at q)"
  then have "row_of_post p \<in> set (db_posts sample_db)" "row_of_post q \<in> set (db_posts sample_db)"
    by (auto simp: posts_in_iff schema_rows_iff [OF sample_valid] db_table_def)
  with eq have "row_of_post p = row_of_post q"
    by (auto simp: sample_db_def sample_row_def row_of_post_def)
  then show "p = q" by (metis row_post_inverse(2))
qed

theorem find_posts_pages_witness:
  "find_posts schema_conn sample_db Author \<lparr>l_text = '' 0% PLAN '', l_page = 1, l_per_page = 2\<rparr> =
     Inr [post_of_row (sample_row 2 ''planned'' ''50% Planned'' (Some 9000000000) 2000)] \<and>
   (\<exists>xs. map post_slug (take 3 xs) = [''draft'', ''planned'', ''live''] \<and>
     find_posts schema_conn sample_db Author \<lparr>l_text = [], l_page = 1, l_per_page = 2\<rparr> = Inr (take 2 xs) \<and>
     find_posts schema_conn sample_db Author \<lparr>l_text = [], l_page = 2, l_per_page = 2\<rparr> = Inr (take 2 (drop 2 xs)))"
proof -
  let ?find = "\<lambda>t k m. find_posts schema_conn sample_db Author \<lparr>l_text = t, l_page = k, l_per_page = m\<rparr>"
  let ?d = "post_of_row (sample_row 3 ''draft'' ''Draft'' None 3000)"
  let ?p = "post_of_row (sample_row 2 ''planned'' ''50% Planned'' (Some 9000000000) 2000)"
  let ?l = "post_of_row (sample_row 1 ''live'' ''Live'' (Some 1000000) 1000)"
  have search: "?find '' 0% PLAN '' 1 2 = Inr [?p]" by code_simp
  have f: "?find [] 1 3 = Inr [?d, ?p, ?l]" and g: "?find [] 1 2 = Inr [?d, ?p]" and h: "?find [] 2 2 = Inr [?l]"
    by code_simp+
  from find_posts_pages [OF sample_connection ascii.case_folding_axioms sample_valid sample_keys f]
  obtain xs where xs: "\<And>k m ps. 1 \<le> k \<and> 1 \<le> m \<and> ?find [] k m = Inr ps \<Longrightarrow>
      ps = take (nat m) (drop (nat ((k - 1) * m)) xs)" by blast
  have "take 3 xs = [?d, ?p, ?l]" using xs [of 1 3] f by auto
  then have "map post_slug (take 3 xs) = [''draft'', ''planned'', ''live'']" by (simp add: sample_row_def)
  moreover have "?find [] 1 2 = Inr (take 2 xs)" "?find [] 2 2 = Inr (take 2 (drop 2 xs))"
    using xs [of 1 2] xs [of 2 2] g h by auto
  ultimately show ?thesis by (intro conjI exI [of _ xs] search)
qed

section \<open>Writes\<close>

text \<open>The rule of the schema a piece of writing breaks, given the slugs of the others in its table.\<close>

definition rule_broken :: "string set \<Rightarrow> string \<Rightarrow> string \<Rightarrow> go_error option" where
  "rule_broken taken slug title =
     (if \<not> slug_format slug then Some ErrSlugInvalid
      else if \<not> title_present title then Some ErrTitleRequired
      else if slug \<in> taken then Some ErrSlugTaken
      else None)"

definition error_of :: "('e + 'a) \<times> 's \<Rightarrow> 'e option" where
  "error_of res = (case fst res of Inl e \<Rightarrow> Some e | Inr _ \<Rightarrow> None)"

lemma row_error_rule:
  assumes "r_id r \<notin> r_id ` set others" and "t = post_table_name \<or> t = page_table_name"
  shows "map_option (\<lambda>e. wrap e f as) (row_error t others r) =
    map_option (Errorf (f @ '': %w'') as) (rule_broken (r_slug ` set others) (r_slug r) (r_title r))"
  using assms
  by (auto simp: row_error_def rule_broken_def wrap_def domain_error_def pgCheckViolation_def
      pgUniqueViolation_def post_table_name_def page_table_name_def suffix_def)

lemma schema_posts: "schema_valid d \<Longrightarrow> posts_in (schema_rows d) = post_of_row ` set (db_table d post_table_name)"
  by (auto simp: posts_in_def schema_rows_iff)

lemma schema_pages: "schema_valid d \<Longrightarrow> pages_in (schema_rows d) = page_of_row ` set (db_table d page_table_name)"
  by (auto simp: pages_in_def schema_rows_iff)

lemma schema_create_error:
  assumes "db_down d = None" and "known_table t" and "hook r = Inr r'" and "r_id r' \<noteq> uuid_nil"
  shows "error_of (schema_create d t hook r) = row_error t (db_table d t) r'"
  using assms by (simp add: schema_create_def error_of_def Let_def row_error_def split: option.split)

lemma schema_update_error:
  assumes "db_down d = None" and "known_table t" and "r_id r \<in> r_id ` set (db_table d t)"
  shows "error_of (schema_update d t r) = row_error t (filter (\<lambda>x. r_id x \<noteq> r_id r) (db_table d t)) r"
  using assms by (simp add: schema_update_def error_of_def Let_def row_error_def split: option.split)

lemma error_of_store:
  "error_of (create_post new_v7 conn db p) = map_option (\<lambda>e. wrap e ''creating post %q'' [StrArg (post_slug p)])
     (error_of (pop_create conn db post_table_name (post_hook (new_v7 db)) (row_of_post p)))"
  "error_of (create_page new_v7 conn db g) = map_option (\<lambda>e. wrap e ''creating page %q'' [StrArg (page_slug g)])
     (error_of (pop_create conn db page_table_name (page_hook (new_v7 db)) (row_of_page g)))"
  "error_of (update_post conn db p) = map_option (\<lambda>e. wrap e ''updating post %q'' [StrArg (post_slug p)])
     (error_of (pop_update conn db post_table_name (row_of_post p)))"
  "error_of (update_page conn db g) = map_option (\<lambda>e. wrap e ''updating page %q'' [StrArg (page_slug g)])
     (error_of (pop_update conn db page_table_name (row_of_page g)))"
  by (auto simp: error_of_def create_post_def create_page_def update_post_def update_page_def
      split: prod.split sum.split)

text \<open>
  C15: creating a post and changing one succeed exactly when the slug is well formed, the title is not
  blank and no other post has the slug; otherwise the error is the one of the first rule broken, with the slug
  it happened on. So the three rules live in the schema alone and come back in this package's words.
\<close>

theorem post_rules_have_errors:
  assumes "schema_valid d" and "db_down d = None" and "v7_ok (new_v7 d)"
    and "assign_v7 (new_v7 d) (post_id p) = Inr i" and "i \<notin> post_id ` posts_in (schema_rows d)"
    and "post_id q \<in> post_id ` posts_in (schema_rows d)"
  shows "error_of (create_post new_v7 schema_conn d p) =
      map_option (Errorf ''creating post %q: %w'' [StrArg (post_slug p)])
        (rule_broken (post_slug ` posts_in (schema_rows d)) (post_slug p) (post_title p)) \<and>
    error_of (update_post schema_conn d q) =
      map_option (Errorf ''updating post %q: %w'' [StrArg (post_slug q)])
        (rule_broken (post_slug ` {x \<in> posts_in (schema_rows d). post_id x \<noteq> post_id q}) (post_slug q) (post_title q))"
proof
  let ?T = "db_table d post_table_name"
  let ?p = "row_of_post (p\<lparr>post_id := i\<rparr>)"
  have i: "i \<noteq> uuid_nil" using assign_v7_ok [OF assms(3,4)] by simp
  have hook: "post_hook (new_v7 d) (row_of_post p) = Inr ?p" using assms(4) by (auto simp: post_hook_Inr)
  have new: "r_id ?p \<notin> r_id ` set ?T" using assms(5) by (simp add: schema_posts [OF assms(1)] image_image)
  have known: "known_table post_table_name" by (simp add: known_table_def)
  have "error_of (schema_create d post_table_name (post_hook (new_v7 d)) (row_of_post p)) =
      row_error post_table_name ?T ?p"
    using i by (intro schema_create_error assms(2) known hook) simp
  then show "error_of (create_post new_v7 schema_conn d p) =
      map_option (Errorf ''creating post %q: %w'' [StrArg (post_slug p)])
        (rule_broken (post_slug ` posts_in (schema_rows d)) (post_slug p) (post_title p))"
    using row_error_rule [OF new, of post_table_name "''creating post %q''" "[StrArg (post_slug p)]"]
    by (simp add: error_of_store schema_posts [OF assms(1)] image_image)
  let ?O = "filter (\<lambda>x. r_id x \<noteq> r_id (row_of_post q)) ?T"
  have others: "post_slug ` {x \<in> posts_in (schema_rows d). post_id x \<noteq> post_id q} = r_slug ` set ?O"
    by (force simp: schema_posts [OF assms(1)])
  have "r_id (row_of_post q) \<in> r_id ` set ?T" using assms(6) by (simp add: schema_posts [OF assms(1)] image_image)
  then have "error_of (schema_update d post_table_name (row_of_post q)) =
      row_error post_table_name ?O (row_of_post q)"
    by (rule schema_update_error [OF assms(2) known])
  moreover have "r_id (row_of_post q) \<notin> r_id ` set ?O" by auto
  ultimately show "error_of (update_post schema_conn d q) =
      map_option (Errorf ''updating post %q: %w'' [StrArg (post_slug q)])
        (rule_broken (post_slug ` {x \<in> posts_in (schema_rows d). post_id x \<noteq> post_id q}) (post_slug q) (post_title q))"
    using row_error_rule [of "row_of_post q" ?O post_table_name "''updating post %q''" "[StrArg (post_slug q)]"]
    by (simp only: error_of_store schema_conn_simps others) simp
qed

definition new_post :: "string \<Rightarrow> string \<Rightarrow> post" where
  "new_post slug title =
     \<lparr>post_id = uuid_nil, post_slug = slug, post_title = title, post_body = [], post_published_at = None,
      post_created_at = 0, post_updated_at = 0\<rparr>"

lemma sample_posts: "posts_in (schema_rows sample_db) = post_of_row ` set (db_posts sample_db)"
  by (simp add: schema_posts [OF sample_valid] db_table_def)

lemma sample_post_ids: "post_id ` posts_in (schema_rows sample_db) = {1, 2, 3}"
  unfolding sample_posts by (simp add: image_image sample_db_def sample_row_def)

lemma sample_post_slugs: "post_slug ` posts_in (schema_rows sample_db) = {''live'', ''planned'', ''draft''}"
  unfolding sample_posts by (simp add: image_image sample_db_def sample_row_def)

theorem post_rules_have_errors_witness:
  "error_of (create_post sample_v7 schema_conn sample_db (new_post ''live'' ''Again'')) =
     Some (Errorf ''creating post %q: %w'' [StrArg ''live''] ErrSlugTaken) \<and>
   error_of (create_post sample_v7 schema_conn sample_db (new_post ''Not a slug'' [])) =
     Some (Errorf ''creating post %q: %w'' [StrArg ''Not a slug''] ErrSlugInvalid) \<and>
   error_of (create_post sample_v7 schema_conn sample_db (new_post ''fresh'' '' '')) =
     Some (Errorf ''creating post %q: %w'' [StrArg ''fresh''] ErrTitleRequired) \<and>
   error_of (create_post sample_v7 schema_conn sample_db (new_post ''fresh'' ''Fresh'')) = None"
proof -
  have v: "assign_v7 (sample_v7 sample_db) (post_id (new_post s t)) = Inr 7" for s t
    by (simp add: assign_v7_def sample_v7_def new_post_def)
  have seven: "(7 :: uuid) \<notin> post_id ` posts_in (schema_rows sample_db)" by (simp add: sample_post_ids)
  have q: "post_id (new_post [] []\<lparr>post_id := 1\<rparr>) \<in> post_id ` posts_in (schema_rows sample_db)"
    by (simp add: sample_post_ids new_post_def)
  have "db_down sample_db = None" by (simp add: sample_db_def)
  note rules = conjunct1 [OF post_rules_have_errors [of sample_db sample_v7, OF sample_valid this sample_v7_ok [of sample_db] v seven q]]
  show ?thesis
    unfolding rules
    by (simp add: sample_post_slugs new_post_def rule_broken_def slug_format_def title_present_def btrim_def
        slug_char_def)
qed

text \<open>
  Creating a post gives it the UUIDv7 generated for it, or the ID the caller pinned, never one
  already in use; the row is then found under that ID with the content it was created with, and every
  other post and page is as before.
\<close>

theorem create_post_assigns_id:
  assumes "pop_connection conn valid rows clock lower slug_le st" and "valid db" and "v7_ok (new_v7 db)"
    and "create_post new_v7 conn db p = (Inr p', db')"
  shows "(if post_id p = uuid_nil then new_v7 db = Inr (post_id p') else post_id p' = post_id p) \<and>
    post_id p' \<notin> post_id ` posts_in (rows db) \<and>
    (post_slug p', post_title p', post_body p', post_published_at p') =
      (post_slug p, post_title p, post_body p, post_published_at p) \<and>
    posts_in (rows db') = insert (stored_post st p') (posts_in (rows db)) \<and>
    pages_in (rows db') = pages_in (rows db) \<and>
    (\<forall>q. post_by_id conn db' (post_id p') Author = Inr q \<longrightarrow> q = stored_post st p')"
proof -
  from pop_connection.create_post_Inr [OF assms] obtain i at where
    i: "assign_v7 (new_v7 db) (post_id p) = Inr i" "i \<notin> post_id ` posts_in (rows db)" and
    p': "p' = p\<lparr>post_id := i, post_created_at := at, post_updated_at := at\<rparr>" and
    rows: "posts_in (rows db') = insert (stored_post st p') (posts_in (rows db))"
      "pages_in (rows db') = pages_in (rows db)" by blast
  have valid: "valid db'"
    using pop_connection.valid_store_writes(1) [OF assms(1,2), of new_v7 p] assms(4) by simp
  have "q = stored_post st p'" if "post_by_id conn db' (post_id p') Author = Inr q" for q
    using pop_connection.post_by_id_Inr [OF assms(1) valid that] i(2) p' by (auto simp: rows(1))
  moreover have "if post_id p = uuid_nil then new_v7 db = Inr (post_id p') else post_id p' = post_id p"
    using assign_v7_ok [OF assms(3) i(1)] p' by simp
  ultimately show ?thesis using i p' rows by simp
qed

theorem create_post_assigns_id_witness:
  "\<exists>p' d'. create_post sample_v7 schema_conn sample_db (new_post ''fresh'' ''Fresh'') = (Inr p', d') \<and>
     post_id p' = 7 \<and> posts_in (schema_rows d') = insert (stored_post micros p') (posts_in (schema_rows sample_db))"
proof -
  let ?r = "create_post sample_v7 schema_conn sample_db (new_post ''fresh'' ''Fresh'')"
  have "error_of ?r = None" by code_simp
  then obtain p' d' where c: "?r = (Inr p', d')"
    by (cases ?r; cases "fst ?r") (auto simp: error_of_def)
  from create_post_assigns_id [OF sample_connection sample_valid sample_v7_ok c] c show ?thesis
    by (intro exI [of _ p'] exI [of _ d']) (simp add: new_post_def sample_v7_def)
qed

text \<open>
  Changing a post changes that post and nothing else, keeps the time it was created, and what is read
  back under its ID is what was written, to the precision the database keeps of an instant.
\<close>

theorem update_post_round_trip:
  assumes "pop_connection conn valid rows clock lower slug_le st" and "valid db"
    and "old \<in> posts_in (rows db)" and "post_id p = post_id old"
    and "update_post conn db p = (Inr p', db')"
  shows "pages_in (rows db') = pages_in (rows db) \<and>
    {q \<in> posts_in (rows db'). post_id q \<noteq> post_id p} = {q \<in> posts_in (rows db). post_id q \<noteq> post_id p} \<and>
    (\<forall>q. post_by_id conn db' (post_id p) Author = Inr q \<longrightarrow>
       (post_slug q, post_title q, post_body q) = (post_slug p, post_title p, post_body p) \<and>
       post_published_at q = map_option st (post_published_at p) \<and> post_created_at q = st (post_created_at old))"
proof -
  from pop_connection.update_post_Inr [OF assms(1-3) assms(4) [symmetric] assms(5)] obtain at where
    rows: "posts_in (rows db') = replaced post_id
      (stored_post st (p\<lparr>post_created_at := post_created_at old, post_updated_at := at\<rparr>)) (posts_in (rows db))"
      "pages_in (rows db') = pages_in (rows db)" by blast
  have valid: "valid db'"
    using pop_connection.valid_store_writes(2) [OF assms(1,2), of p] assms(5) by simp
  have "q = stored_post st (p\<lparr>post_created_at := post_created_at old, post_updated_at := at\<rparr>)"
    if "post_by_id conn db' (post_id p) Author = Inr q" for q
    using pop_connection.post_by_id_Inr [OF assms(1) valid that] by (auto simp: rows(1) replaced_def)
  moreover have "post_created_at (stored_post st (p\<lparr>post_created_at := c, post_updated_at := at\<rparr>)) = st c" for c
    by (simp add: stored_post_def stored_row_def)
  ultimately show ?thesis using rows by (auto simp: replaced_def)
qed

theorem update_post_round_trip_witness:
  "\<exists>p' d'. update_post schema_conn sample_db
       (post_of_row (sample_row 3 ''draft'' ''Retitled'' (Some 1999) 3000)) = (Inr p', d') \<and>
     (\<forall>q. post_by_id schema_conn d' 3 Author = Inr q \<longrightarrow>
        post_title q = ''Retitled'' \<and> post_published_at q = Some 1000)"
proof -
  let ?p = "post_of_row (sample_row 3 ''draft'' ''Retitled'' (Some 1999) 3000)"
  let ?old = "post_of_row (sample_row 3 ''draft'' ''Draft'' None 3000)"
  let ?r = "update_post schema_conn sample_db ?p"
  have old: "?old \<in> posts_in (schema_rows sample_db)" unfolding sample_posts by (simp add: sample_db_def)
  have "post_id ?p = post_id ?old" by (simp add: sample_row_def)
  moreover have "error_of ?r = None" by code_simp
  then obtain p' d' where u: "?r = (Inr p', d')"
    by (cases ?r; cases "fst ?r") (auto simp: error_of_def)
  ultimately show ?thesis
    using update_post_round_trip [OF sample_connection sample_valid old _ u]
    by (intro exI [of _ p'] exI [of _ d']) (simp add: sample_row_def micros_def)
qed

end
