(* ===== verification/Admin_Facts.thy ===== *)
theory Admin_Facts
  imports Admin Interfaces Content_Facts
begin

text \<open>The properties of the Admin handlers.\<close>

section \<open>The editor over any resource\<close>

definition published_by :: "go_time \<Rightarrow> wrecord \<Rightarrow> bool" where
  "published_by t rc \<longleftrightarrow> (\<exists>d. rec_published_at rc = Some d \<and> d \<le> t)"

text \<open>The record a form's texts make of a stored one.\<close>

definition retyped :: "request \<Rightarrow> wrecord \<Rightarrow> wrecord" where
  "retyped r rc =
     rc\<lparr>rec_slug := post_form_value r ''slug'', rec_title := post_form_value r ''title'',
        rec_body := post_form_value r ''body''\<rparr>"

lemma submitted_form:
  "fst (submitted h now r res is_new) =
     (posted_form h r res is_new)\<lparr>form_autosave := form_autosave (fst (submitted h now r res is_new))\<rparr>"
  by (auto simp: submitted_def Let_def posted_form_def split: option.split sum.split)

lemma submitted_texts [simp]:
  "form_slug (fst (submitted h now r res is_new)) = post_form_value r ''slug''"
  "form_title (fst (submitted h now r res is_new)) = post_form_value r ''title''"
  "form_body_text (fst (submitted h now r res is_new)) = post_form_value r ''body''"
  by (subst submitted_form, simp add: posted_form_def)+

lemma same_record_refl_dates:
  "same_record st (written (retyped r rc) False old) q \<Longrightarrow> map_option st (rec_published_at old) = rec_published_at old \<Longrightarrow>
     q = (retyped r rc)\<lparr>rec_published_at := rec_published_at old\<rparr>"
  by (cases q) (auto simp: same_record_def written_def retyped_def)

lemma field_errors_rule: "field_errors e = Some fs \<Longrightarrow> breaks_rule e \<and> (\<exists>m. fs = [m])"
  by (auto simp: field_errors_def breaks_rule_def rule_errors_def split: if_splits)

lemma field_errors_none: "field_errors e = None \<longleftrightarrow> \<not> breaks_rule e"
  by (auto simp: field_errors_def breaks_rule_def rule_errors_def)

context writing_resource
begin

text \<open>What an autosave can do to the records.\<close>

lemma autosave_effect:
  assumes "ok (sv_db sv)" and "autosave h now res r w sv = (w', sv')"
  shows "sv_logins sv' = sv_logins sv \<and> others (sv_db sv') = others (sv_db sv) \<and>
    (records (sv_db sv') = records (sv_db sv) \<or>
     (\<exists>rc \<in> records (sv_db sv). ex_uuid_from_string (h_ext h) (path_id r) = Some (rec_id rc) \<and>
        \<not> published_by (now AtPublishedCheck) rc \<and>
        records (sv_db sv') = replaced rec_id (retyped r rc) (records (sv_db sv))))"
proof (cases "parse_form_error r")
  case True
  with assms(2) show ?thesis by (simp add: autosave_def)
next
  case False
  show ?thesis
  proof (cases "load h res r w (sv_db sv)")
    case (Inl w0)
    with assms(2) False show ?thesis by (simp add: autosave_def)
  next
    case (Inr rc)
    then obtain i where i: "ex_uuid_from_string (h_ext h) (path_id r) = Some i" "res_by_id res (sv_db sv) i = Inr rc"
      by (auto simp: load_def split: option.splits sum.splits)
    from found [OF assms(1) i(2)] have rc: "rc \<in> records (sv_db sv)" "rec_id rc = i" by auto
    show ?thesis
    proof (cases "published_by (now AtPublishedCheck) rc")
      case True
      then have "case rec_published_at rc of None \<Rightarrow> False | Some t \<Rightarrow> \<not> now AtPublishedCheck < t"
        by (auto simp: published_by_def)
      with assms(2) False Inr show ?thesis by (simp add: autosave_def Let_def)
    next
      case draft: False
      obtain x s' where u: "res_update res (sv_db sv) (retyped r rc) False = (x, s')" by fastforce
      have "\<not> (case rec_published_at rc of None \<Rightarrow> False | Some t \<Rightarrow> \<not> now AtPublishedCheck < t)"
        using draft by (auto simp: published_by_def split: option.splits)
      moreover obtain posted a b where p: "submitted h now r res False = (posted, a, b)"
        by (cases "submitted h now r res False")
      moreover have "rc\<lparr>rec_slug := form_slug posted, rec_title := form_title posted,
          rec_body := form_body_text posted\<rparr> = retyped r rc"
        using submitted_texts [of h now r res False] by (simp add: p retyped_def)
      ultimately have sv': "sv' = sv\<lparr>sv_db := s'\<rparr>"
        using assms(2) False Inr u
        by (auto simp: autosave_def Let_def split: sum.splits option.splits)
      have new: "q = retyped r rc"
        if "old \<in> records (sv_db sv)" "rec_id old = rec_id (retyped r rc)"
          "same_record stored (written (retyped r rc) False old) q" for old q
      proof -
        have "old = rc" using unique [OF assms(1) that(1) rc(1)] that(2) by (simp add: retyped_def)
        then show ?thesis
          using same_record_refl_dates [OF that(3)] dates [OF assms(1) rc(1)] by (simp add: retyped_def)
      qed
      have "others s' = others (sv_db sv) \<and> (records s' = records (sv_db sv) \<or>
          records s' = replaced rec_id (retyped r rc) (records (sv_db sv)))"
      proof (cases x)
        case (Inl e)
        with u update_failed [OF assms(1), of "retyped r rc" False e s'] new show ?thesis by blast
      next
        case (Inr v)
        with u was_updated [OF assms(1), of "retyped r rc" False v s'] new show ?thesis by blast
      qed
      then show ?thesis using i(1) rc draft sv' by auto
    qed
  qed
qed

end

section \<open>Autosave\<close>

text \<open>
  The records after a write keep every date, and keep the whole of what was published at an instant.
\<close>

definition keeps_published :: "go_time \<Rightarrow> wrecord set \<Rightarrow> wrecord set \<Rightarrow> bool" where
  "keeps_published now R R' \<longleftrightarrow>
     rec_id ` R' = rec_id ` R \<and>
     (\<forall>rc \<in> R. \<exists>rc' \<in> R'. rec_id rc' = rec_id rc \<and> rec_published_at rc' = rec_published_at rc \<and>
        (published_by now rc \<longrightarrow> rc' = rc))"

lemma keeps_published_refl: "keeps_published t R R"
  by (auto simp: keeps_published_def)

context writing_resource
begin

lemma autosave_keeps:
  assumes "ok (sv_db sv)" and "autosave h now res r w sv = (w', sv')"
  shows "keeps_published (now AtPublishedCheck) (records (sv_db sv)) (records (sv_db sv'))"
proof -
  let ?R = "records (sv_db sv)"
  from autosave_effect [OF assms] consider "records (sv_db sv') = ?R"
    | rc where "rc \<in> ?R" "\<not> published_by (now AtPublishedCheck) rc"
        "records (sv_db sv') = replaced rec_id (retyped r rc) ?R"
    by blast
  then show ?thesis
  proof cases
    case 1
    then show ?thesis by (simp add: keeps_published_refl)
  next
    case (2 rc)
    have id: "rec_id (retyped r rc) = rec_id rc" and date: "rec_published_at (retyped r rc) = rec_published_at rc"
      by (simp_all add: retyped_def)
    have "\<exists>q' \<in> replaced rec_id (retyped r rc) ?R. rec_id q' = rec_id q \<and>
        rec_published_at q' = rec_published_at q \<and> (published_by (now AtPublishedCheck) q \<longrightarrow> q' = q)"
      if "q \<in> ?R" for q
    proof (cases "rec_id q = rec_id rc")
      case True
      then have "q = rc" using unique [OF assms(1) that 2(1)] by simp
      then show ?thesis using 2(2) id date by (auto simp: replaced_def)
    next
      case False
      then show ?thesis using that id by (auto simp: replaced_def)
    qed
    moreover have "rec_id ` replaced rec_id (retyped r rc) ?R = rec_id ` ?R"
      using 2(1) id by (force simp: replaced_def image_iff)
    ultimately show ?thesis by (simp add: keeps_published_def 2(3))
  qed
qed

end

text \<open>
  Autosave never publishes anything, unpublishes anything or changes what is already published: every
  post and page keeps its Publication Date, and whatever is published when the handler looks keeps its
  slug, title and text too.
\<close>

theorem autosave_keeps_published:
  assumes "admin_store (h_store h) ok posts pages stored" and "ok (sv_db sv)"
  shows "(let sv' = snd (autosave h now (posts_resource (h_store h)) r w sv)
      in pages (sv_db sv') = pages (sv_db sv) \<and>
         keeps_published (now AtPublishedCheck) (record_of_post ` posts (sv_db sv)) (record_of_post ` posts (sv_db sv'))) \<and>
    (let sv' = snd (autosave h now (pages_resource (h_store h)) r w sv)
      in posts (sv_db sv') = posts (sv_db sv) \<and>
         keeps_published (now AtPublishedCheck) (record_of_page ` pages (sv_db sv)) (record_of_page ` pages (sv_db sv')))"
proof -
  note P = admin_store.post_resource [OF assms(1)] and G = admin_store.page_resource [OF assms(1)]
  show ?thesis
    using writing_resource.autosave_keeps [OF P assms(2)] writing_resource.autosave_effect [OF P assms(2)]
      writing_resource.autosave_keeps [OF G assms(2)] writing_resource.autosave_effect [OF G assms(2)]
    by (auto simp: Let_def prod_eq_iff)
qed

section \<open>A server for the examples\<close>

text \<open>The first nine identifiers are written as a digit.\<close>

definition sample_ids :: "(string \<times> uuid) list" where
  "sample_ids = [(''1'', 1), (''2'', 2), (''3'', 3), (''4'', 4), (''5'', 5), (''6'', 6), (''7'', 7), (''8'', 8), (''9'', 9)]"

definition sample_ext :: external where
  "sample_ext =
     \<lparr>ex_idkey = sample_idkey,
      ex_uuid_from_string = map_of sample_ids,
      ex_uuid_string = (\<lambda>u. case map_of (map prod.swap sample_ids) u of Some s \<Rightarrow> s | None \<Rightarrow> ''0'')\<rparr>"

definition sample_config :: admin_config where
  "sample_config =
     \<lparr>ac_password_hash = encode_hash \<lparr>ah_memory = 8, ah_time = 1, ah_threads = 1, ah_salt = ''salt'', ah_key = ''open''\<rparr>,
      ac_session_secret = ''secret'', ac_session_ttl = 3600 * nanos_per_second, ac_insecure_cookie = False,
      ac_timezone = ''UTC'', ac_login_attempts = 3, ac_login_window = 60 * nanos_per_second\<rparr>"

lemma sample_config_code [code]:
  "sample_config =
     \<lparr>ac_password_hash = ''$argon2id$v=19$m=8,t=1,p=1$c2FsdA$b3Blbg'',
      ac_session_secret = ''secret'', ac_session_ttl = 3600 * nanos_per_second, ac_insecure_cookie = False,
      ac_timezone = ''UTC'', ac_login_attempts = 3, ac_login_window = 60 * nanos_per_second\<rparr>"
proof -
  have "encode_hash \<lparr>ah_memory = 8, ah_time = 1, ah_threads = 1, ah_salt = ''salt'', ah_key = ''open''\<rparr> =
      ''$argon2id$v=19$m=8,t=1,p=1$c2FsdA$b3Blbg''" by code_simp
  then show ?thesis by (simp add: sample_config_def)
qed

definition sample_handler :: "db handler" where
  "sample_handler = new_handler (content_store clock_v7 schema_conn) (\<lambda>_. None) sample_ext sample_config"

definition sample_server :: "db server" where
  "sample_server = new_server sample_db sample_config"

definition sample_now :: readings where
  "sample_now site = 2000000000"

lemma sample_store: "admin_store (h_store sample_handler) schema_valid (\<lambda>s. posts_in (schema_rows s))
    (\<lambda>s. pages_in (schema_rows s)) micros"
  using schema_content.admin.admin_store_axioms by (simp add: sample_handler_def new_handler_def)

lemma sample_server_db: "sv_db sample_server = sample_db"
  by (simp add: sample_server_def new_server_def)

definition posted :: "string \<Rightarrow> string \<Rightarrow> request" where
  "posted i form = sample_request\<lparr>req_method := ''POST'', form_body := form, path_id := i\<rparr>"

theorem autosave_keeps_published_witness:
  "let sv' = snd (autosave sample_handler sample_now (posts_resource (h_store sample_handler))
               (posted ''3'' ''slug=draft&title=Retitled&body=text&published_at=1970-01-01T00:00'')
               empty_response sample_server)
   in map r_title (db_posts (sv_db sv')) = [''Live'', ''50% Planned'', ''Retitled''] \<and>
      keeps_published 2000000000 (record_of_post ` posts_in (schema_rows sample_db))
        (record_of_post ` posts_in (schema_rows (sv_db sv')))"
proof -
  let ?r = "posted ''3'' ''slug=draft&title=Retitled&body=text&published_at=1970-01-01T00:00''"
  let ?sv = "snd (autosave sample_handler sample_now (posts_resource (h_store sample_handler)) ?r
    empty_response sample_server)"
  have "map r_title (db_posts (sv_db ?sv)) = [''Live'', ''50% Planned'', ''Retitled'']" by code_simp
  moreover have "schema_valid (sv_db sample_server)" by (simp add: sample_server_db sample_valid)
  from conjunct1 [OF autosave_keeps_published [OF sample_store this, where now = sample_now and r = ?r and w = empty_response]]
  have "keeps_published 2000000000 (record_of_post ` posts_in (schema_rows sample_db))
      (record_of_post ` posts_in (schema_rows (sv_db ?sv)))"
    by (simp add: Let_def sample_now_def sample_server_db)
  ultimately show ?thesis by (simp add: Let_def)
qed

section \<open>Saving\<close>

text \<open>The write a save makes, and the form and record it makes it with.\<close>

definition attempt :: "'s resource \<Rightarrow> bool \<Rightarrow> 's \<Rightarrow> wrecord \<Rightarrow> (go_error + wrecord) \<times> 's" where
  "attempt res is_new s rc =
     (if is_new then res_create res s rc
      else case res_update res s rc True of
          (Inl e, s') \<Rightarrow> (Inl e, s')
        | (Inr _, s') \<Rightarrow> (Inr rc, s'))"

definition publish_now :: "request \<Rightarrow> bool" where
  "publish_now r \<longleftrightarrow> post_form_value r ''action'' = ''publish_now''"

definition chosen :: "'s handler \<Rightarrow> readings \<Rightarrow> request \<Rightarrow> form \<Rightarrow> wrecord \<Rightarrow> form \<times> wrecord" where
  "chosen h now r f rc =
     (if publish_now r
      then (f\<lparr>form_published_at := format_editor (h_zone h) (now AtPublishNow)\<rparr>,
            rc\<lparr>rec_published_at := Some (now AtPublishNow)\<rparr>)
      else (f, rc))"

definition save_done :: "'s handler \<Rightarrow> request \<Rightarrow> 's resource \<Rightarrow> uuid \<Rightarrow> page_response \<Rightarrow> page_response" where
  "save_done h r res i w =
     (if is_htmx r then (set_header ''HX-Redirect'' (editor_path h res i) w)\<lparr>status := 204\<rparr>
      else http_redirect r (editor_path h res i) 303 w)"

lemma save_bad_form: "parse_form_error r \<Longrightarrow> save h now res n r w sv = (http_error ''bad request'' 400 w, sv)"
  by (simp add: save_def)

lemma save_bad_fields:
  "\<not> parse_form_error r \<Longrightarrow> submitted h now r res n = (f, rc, Some err) \<Longrightarrow>
     save h now res n r w sv = (invalid r res f [(''published_at'', err)] w, sv)"
  by (simp add: save_def)

lemma save_written:
  assumes "\<not> parse_form_error r" and "submitted h now r res n = (f, rc, None)"
    and "chosen h now r f rc = (f', rc')" and "attempt res n (sv_db sv) rc' = (result, s')"
  shows "save h now res n r w sv =
    (case result of
       Inl err \<Rightarrow>
         (case field_errors err of
            Some errs \<Rightarrow> (invalid r res f' errs w, sv\<lparr>sv_db := s'\<rparr>)
          | None \<Rightarrow> (if errors_is err ErrNotFound then not_found w else fail w, sv\<lparr>sv_db := s'\<rparr>))
     | Inr rc'' \<Rightarrow> (save_done h r res (rec_id rc'') w, sv\<lparr>sv_db := s'\<rparr>))"
  using assms
  by (cases result) (simp_all add: save_def chosen_def attempt_def save_done_def publish_now_def Let_def split: option.split)

lemma invalid_simps [simp]:
  "status (invalid r res f errs w) = 422" "set_cookies (invalid r res f errs w) = set_cookies w"
  "body (invalid r res f errs w) =
     Html (if is_htmx r then EditorForm (f\<lparr>form_errors := errs\<rparr>)
           else Layout (''Edit '' @ res_kind res) (res_nav res) (Editor (f\<lparr>form_errors := errs\<rparr>)))"
  by (simp_all add: invalid_def Let_def)

lemma save_done_status [simp]: "status (save_done h r res i w) = (if is_htmx r then 204 else 303)"
  by (simp add: save_done_def)

lemma replaced_fresh: "idf q \<notin> idf ` S \<Longrightarrow> replaced idf q S = insert q S"
  by (auto simp: replaced_def) (metis imageI)

text \<open>A form with exactly the texts of the request; the date may be the one of publishing now.\<close>

definition as_typed :: "'s handler \<Rightarrow> readings \<Rightarrow> request \<Rightarrow> form \<Rightarrow> bool" where
  "as_typed h now r f \<longleftrightarrow>
     form_slug f = post_form_value r ''slug'' \<and> form_title f = post_form_value r ''title'' \<and>
     form_body_text f = post_form_value r ''body'' \<and>
     (form_published_at f = post_form_value r ''published_at'' \<or>
      publish_now r \<and> form_published_at f = format_editor (h_zone h) (now AtPublishNow))"

lemma submitted_published_text:
  "submitted h now r res n = (f, x) \<Longrightarrow> form_published_at f = post_form_value r ''published_at''"
  using arg_cong [OF submitted_form [of h now r res n], of form_published_at] by (simp add: posted_form_def)

lemma submitted_as_typed:
  assumes "submitted h now r res n = (f, rc, e)"
  shows "as_typed h now r f" "as_typed h now r (fst (chosen h now r f rc))"
  using submitted_texts [of h now r res n] submitted_published_text [OF assms] assms
  by (simp_all add: as_typed_def chosen_def)

text \<open>The record a good form makes: its texts, its ID, its date.\<close>

lemma submitted_record:
  assumes "submitted h now r res n = (f, rc, None)"
  shows "rec_slug rc = post_form_value r ''slug'' \<and> rec_title rc = post_form_value r ''title'' \<and>
    rec_body rc = post_form_value r ''body'' \<and>
    parse_published_at h (post_form_value r ''published_at'') = Inr (rec_published_at rc) \<and>
    (if n then rec_id rc = uuid_nil else ex_uuid_from_string (h_ext h) (path_id r) = Some (rec_id rc))"
  using assms by (auto simp: submitted_def posted_form_def Let_def split: option.splits sum.splits if_splits)

context writing_resource
begin

lemma attempt_Inr:
  assumes "ok s" and "attempt res n s rc = (Inr rc', s')"
  shows "others s' = others s \<and> rc' = rc\<lparr>rec_id := rec_id rc'\<rparr> \<and>
    (if n then rec_id rc' \<notin> rec_id ` records s else rc' = rc \<and> rec_id rc \<in> rec_id ` records s) \<and>
    (\<exists>q. same_record stored rc' q \<and> records s' = replaced rec_id q (records s))"
proof (cases n)
  case True
  with created [OF assms(1), of rc rc' s'] assms(2) obtain q where
    c: "others s' = others s" "rc' = rc\<lparr>rec_id := rec_id rc'\<rparr>" "rec_id rc' \<notin> rec_id ` records s"
      "same_record stored rc' q" "records s' = insert q (records s)"
    by (auto simp: attempt_def)
  moreover have "records s' = replaced rec_id q (records s)"
    using c(3-5) by (subst replaced_fresh) (auto simp: same_record_def)
  ultimately show ?thesis using True by auto
next
  case False
  with assms(2) obtain u where "res_update res s rc True = (Inr u, s')" and "rc' = rc"
    by (auto simp: attempt_def split: prod.splits sum.splits)
  from was_updated [OF assms(1) this(1)] obtain old q where
    "others s' = others s" "old \<in> records s" "rec_id old = rec_id rc"
    "same_record stored rc q" "records s' = replaced rec_id q (records s)"
    by (auto simp: written_def)
  moreover from this have "rec_id rc \<in> rec_id ` records s" by (metis imageI)
  ultimately show ?thesis using False \<open>rc' = rc\<close> by auto
qed

lemma attempt_Inl:
  assumes "ok s" and "attempt res n s rc = (Inl e, s')" and "breaks_rule e"
  shows "others s' = others s \<and> records s' = records s"
proof (cases n)
  case True
  with create_failed [OF assms(1), of rc e s'] assms(2,3) show ?thesis by (auto simp: attempt_def)
next
  case False
  with assms(2) have "res_update res s rc True = (Inl e, s')"
    by (auto simp: attempt_def split: prod.splits sum.splits)
  with update_failed [OF assms(1), of rc True e s'] assms(3) show ?thesis by auto
qed

end

context writing_resource
begin

text \<open>What a save can do, by what it answers.\<close>

lemma save_rejected:
  assumes "ok (sv_db sv)" and "status (fst (save h now res n r w sv)) = 422"
  shows "(let (w', sv') = save h now res n r w sv
    in sv_logins sv' = sv_logins sv \<and> records (sv_db sv') = records (sv_db sv) \<and>
       others (sv_db sv') = others (sv_db sv) \<and>
       (\<exists>f m. as_typed h now r f \<and>
          body w' = Html (if is_htmx r then EditorForm (f\<lparr>form_errors := [m]\<rparr>)
            else Layout (''Edit '' @ res_kind res) (res_nav res) (Editor (f\<lparr>form_errors := [m]\<rparr>)))))"
proof -
  have parsed: "\<not> parse_form_error r" using assms(2) by (auto simp: save_bad_form)
  obtain f rc e where sub: "submitted h now r res n = (f, rc, e)" by (cases "submitted h now r res n")
  show ?thesis
  proof (cases e)
    case (Some err)
    then show ?thesis
      using submitted_as_typed(1) [OF sub] sub by (auto simp: save_bad_fields [OF parsed] Let_def)
  next
    case None
    obtain f' rc' where ch: "chosen h now r f rc = (f', rc')" by (cases "chosen h now r f rc")
    obtain result s' where at: "attempt res n (sv_db sv) rc' = (result, s')" by (cases "attempt res n (sv_db sv) rc'")
    note save = save_written [OF parsed sub [unfolded None] ch at, of w]
    show ?thesis
    proof (cases result)
      case (Inr rc'')
      with assms(2) save show ?thesis by (simp split: if_splits)
    next
      case (Inl err)
      show ?thesis
      proof (cases "field_errors err")
        case None
        with assms(2) save Inl show ?thesis by (simp split: if_splits)
      next
        case (Some errs)
        with field_errors_rule obtain m where m: "breaks_rule err" "errs = [m]" by blast
        have "as_typed h now r f'" using submitted_as_typed(2) [OF sub] ch by simp
        with attempt_Inl [OF assms(1) at [unfolded Inl] m(1)] save Inl Some m(2)
        show ?thesis by (cases m) (simp add: Let_def, rule exI [of _ f'], auto)
      qed
    qed
  qed
qed

lemma save_accepted:
  assumes "ok (sv_db sv)" and "status (fst (save h now res n r w sv)) \<in> {303, 204}"
  shows "(let (w', sv') = save h now res n r w sv
    in sv_logins sv' = sv_logins sv \<and> others (sv_db sv') = others (sv_db sv) \<and>
       (\<exists>i q date. w' = save_done h r res i w \<and>
          parse_published_at h (post_form_value r ''published_at'') = Inr date \<and>
          q = \<lparr>rec_id = i, rec_slug = post_form_value r ''slug'', rec_title = post_form_value r ''title'',
               rec_body = post_form_value r ''body'',
               rec_published_at = map_option stored (if publish_now r then Some (now AtPublishNow) else date)\<rparr> \<and>
          (if n then i \<notin> rec_id ` records (sv_db sv)
           else ex_uuid_from_string (h_ext h) (path_id r) = Some i \<and> i \<in> rec_id ` records (sv_db sv)) \<and>
          records (sv_db sv') = replaced rec_id q (records (sv_db sv))))"
proof -
  have parsed: "\<not> parse_form_error r" using assms(2) by (auto simp: save_bad_form)
  obtain f rc e where sub: "submitted h now r res n = (f, rc, e)" by (cases "submitted h now r res n")
  with assms(2) have "e = None" by (cases e) (auto simp: save_bad_fields [OF parsed])
  with sub have sub: "submitted h now r res n = (f, rc, None)" by simp
  obtain f' rc' where ch: "chosen h now r f rc = (f', rc')" by (cases "chosen h now r f rc")
  obtain result s' where at: "attempt res n (sv_db sv) rc' = (result, s')" by (cases "attempt res n (sv_db sv) rc'")
  note save = save_written [OF parsed sub ch at, of w]
  show ?thesis
  proof (cases result)
    case (Inl err)
    with assms(2) save show ?thesis by (auto split: option.splits if_splits)
  next
    case (Inr rc'')
    from attempt_Inr [OF assms(1) at [unfolded Inr]] obtain q where
      q: "others s' = others (sv_db sv)" "rc'' = rc'\<lparr>rec_id := rec_id rc''\<rparr>"
        "if n then rec_id rc'' \<notin> rec_id ` records (sv_db sv) else rc'' = rc' \<and> rec_id rc' \<in> rec_id ` records (sv_db sv)"
        "same_record stored rc'' q" "records s' = replaced rec_id q (records (sv_db sv))" by blast
    note rc = submitted_record [OF sub]
    have "q = \<lparr>rec_id = rec_id rc'', rec_slug = post_form_value r ''slug'', rec_title = post_form_value r ''title'',
        rec_body = post_form_value r ''body'', rec_published_at =
          map_option stored (if publish_now r then Some (now AtPublishNow) else rec_published_at rc)\<rparr>"
      using q(2,4) rc ch by (cases q; cases rc'') (auto simp: same_record_def chosen_def split: if_splits)
    moreover have "\<not> n \<longrightarrow> ex_uuid_from_string (h_ext h) (path_id r) = Some (rec_id rc'')"
      using q(3) rc ch by (auto simp: chosen_def split: if_splits)
    ultimately show ?thesis using save Inr q rc by (auto simp: Let_def)
  qed
qed

end

text \<open>The two editors of the site: the posts and the pages of a store, as records.\<close>

definition editor_of ::
  "'s handler \<Rightarrow> ('s \<Rightarrow> post set) \<Rightarrow> ('s \<Rightarrow> page set) \<Rightarrow> 's resource \<Rightarrow> ('s \<Rightarrow> wrecord set) \<Rightarrow> bool" where
  "editor_of h posts pages res recs \<longleftrightarrow>
     res = posts_resource (h_store h) \<and> recs = (\<lambda>s. record_of_post ` posts s) \<or>
     res = pages_resource (h_store h) \<and> recs = (\<lambda>s. record_of_page ` pages s)"

text \<open>
  C16: a save that is refused with 422, because of the date or because of a rule of the schema, changes
  nothing and loses nothing: the answer holds the editor with exactly the texts that were typed and one
  message next to a field, bare for htmx and inside the layout otherwise.
\<close>

theorem rejected_save_keeps_the_text:
  assumes "admin_store (h_store h) ok posts pages stored" and "editor_of h posts pages res recs"
    and "ok (sv_db sv)" and "status (fst (save h now res is_new r w sv)) = 422"
  shows "recs (sv_db (snd (save h now res is_new r w sv))) = recs (sv_db sv) \<and>
    (\<exists>f m. as_typed h now r f \<and> body (fst (save h now res is_new r w sv)) =
       Html (if is_htmx r then EditorForm (f\<lparr>form_errors := [m]\<rparr>)
         else Layout (''Edit '' @ res_kind res) (res_nav res) (Editor (f\<lparr>form_errors := [m]\<rparr>))))"
  using assms(2) unfolding editor_of_def
proof (elim disjE conjE)
  assume R: "res = posts_resource (h_store h)" "recs = (\<lambda>s. record_of_post ` posts s)"
  show ?thesis
    using writing_resource.save_rejected [OF admin_store.post_resource [OF assms(1)] assms(3), of h now is_new r w, unfolded Let_def case_prod_beta, OF assms(4) [unfolded R]]
    unfolding R by blast
next
  assume R: "res = pages_resource (h_store h)" "recs = (\<lambda>s. record_of_page ` pages s)"
  show ?thesis
    using writing_resource.save_rejected [OF admin_store.page_resource [OF assms(1)] assms(3), of h now is_new r w, unfolded Let_def case_prod_beta, OF assms(4) [unfolded R]]
    unfolding R by blast
qed

theorem rejected_save_keeps_the_text_witness:
  "\<exists>f m. body (fst (save sample_handler sample_now (posts_resource (h_store sample_handler)) False
        (posted ''3'' ''slug=live&title=Mine&body=text&published_at='') empty_response sample_server)) =
      Html (Layout ''Edit post'' NavPosts (Editor (f\<lparr>form_errors := [m]\<rparr>))) \<and>
    form_slug f = ''live'' \<and> form_title f = ''Mine''"
proof -
  let ?r = "posted ''3'' ''slug=live&title=Mine&body=text&published_at=''"
  let ?res = "posts_resource (h_store sample_handler)"
  have ed: "editor_of sample_handler (\<lambda>s. posts_in (schema_rows s)) (\<lambda>s. pages_in (schema_rows s)) ?res
      (\<lambda>s. record_of_post ` posts_in (schema_rows s))" by (simp add: editor_of_def)
  have v: "schema_valid (sv_db sample_server)" by (simp add: sample_server_db sample_valid)
  have st: "status (fst (save sample_handler sample_now ?res False ?r empty_response sample_server)) = 422"
    by code_simp
  have eval: "post_form_value ?r ''slug'' = ''live''" "post_form_value ?r ''title'' = ''Mine''"
    "is_htmx ?r = False" by code_simp+
  have res: "res_kind ?res = ''post''" "res_nav ?res = NavPosts" by (simp_all add: posts_resource_def)
  from conjunct2 [OF rejected_save_keeps_the_text [OF sample_store ed v st]]
  obtain f m where "as_typed sample_handler sample_now ?r f"
    "body (fst (save sample_handler sample_now ?res False ?r empty_response sample_server)) =
      Html (if is_htmx ?r then EditorForm (f\<lparr>form_errors := [m]\<rparr>)
        else Layout (''Edit '' @ res_kind ?res) (res_nav ?res) (Editor (f\<lparr>form_errors := [m]\<rparr>)))"
    by (elim exE conjE)
  then show ?thesis
    by (intro exI [of _ f] exI [of _ m]) (simp add: eval res as_typed_def)
qed

lemma accepted_save:
  assumes "admin_store (h_store h) ok posts pages stored" and "editor_of h posts pages res recs"
    and "ok (sv_db sv)" and "status (fst (save h now res is_new r w sv)) \<in> {303, 204}"
  shows "\<exists>i q date. fst (save h now res is_new r w sv) = save_done h r res i w \<and>
    parse_published_at h (post_form_value r ''published_at'') = Inr date \<and>
    q = \<lparr>rec_id = i, rec_slug = post_form_value r ''slug'', rec_title = post_form_value r ''title'',
         rec_body = post_form_value r ''body'',
         rec_published_at = map_option stored (if publish_now r then Some (now AtPublishNow) else date)\<rparr> \<and>
    (if is_new then i \<notin> rec_id ` recs (sv_db sv)
     else ex_uuid_from_string (h_ext h) (path_id r) = Some i \<and> i \<in> rec_id ` recs (sv_db sv)) \<and>
    recs (sv_db (snd (save h now res is_new r w sv))) = replaced rec_id q (recs (sv_db sv))"
  using assms(2) unfolding editor_of_def
proof (elim disjE conjE)
  assume R: "res = posts_resource (h_store h)" "recs = (\<lambda>s. record_of_post ` posts s)"
  show ?thesis
    using writing_resource.save_accepted [OF admin_store.post_resource [OF assms(1)] assms(3), of h now is_new r w, unfolded Let_def case_prod_beta, OF assms(4) [unfolded R]]
    unfolding R by blast
next
  assume R: "res = pages_resource (h_store h)" "recs = (\<lambda>s. record_of_page ` pages s)"
  show ?thesis
    using writing_resource.save_accepted [OF admin_store.page_resource [OF assms(1)] assms(3), of h now is_new r w, unfolded Let_def case_prod_beta, OF assms(4) [unfolded R]]
    unfolding R by blast
qed

text \<open>
  C17: a save that succeeds stores exactly what was typed, under the ID of the URL or a new one, with the
  date that was typed, or the moment of \<^verbatim>\<open>publish now\<close>, to the precision of the database; nothing else
  is touched, and the browser is sent to the editor of that ID, by htmx or by a redirect.
\<close>

theorem accepted_save_stores_the_text:
  assumes "admin_store (h_store h) ok posts pages stored" and "editor_of h posts pages res recs"
    and "ok (sv_db sv)" and "status (fst (save h now res is_new r w sv)) \<in> {303, 204}"
  shows "\<exists>i q date. fst (save h now res is_new r w sv) = save_done h r res i w \<and>
    parse_published_at h (post_form_value r ''published_at'') = Inr date \<and>
    q = \<lparr>rec_id = i, rec_slug = post_form_value r ''slug'', rec_title = post_form_value r ''title'',
         rec_body = post_form_value r ''body'',
         rec_published_at = map_option stored (if publish_now r then Some (now AtPublishNow) else date)\<rparr> \<and>
    (if is_new then i \<notin> rec_id ` recs (sv_db sv)
     else ex_uuid_from_string (h_ext h) (path_id r) = Some i \<and> i \<in> rec_id ` recs (sv_db sv)) \<and>
    recs (sv_db (snd (save h now res is_new r w sv))) = replaced rec_id q (recs (sv_db sv))"
  using assms by (rule accepted_save)

theorem accepted_save_stores_the_text_witness:
  "\<exists>q. record_of_post ` posts_in (schema_rows (sv_db (snd
      (save sample_handler sample_now (posts_resource (h_store sample_handler)) False
        (posted ''3'' ''slug=draft&title=Done&body=text&published_at=&action=publish_now'') empty_response sample_server)))) =
      replaced rec_id q (record_of_post ` posts_in (schema_rows sample_db)) \<and>
    rec_id q = 3 \<and> rec_title q = ''Done'' \<and> rec_published_at q = Some 2000000000"
proof -
  let ?r = "posted ''3'' ''slug=draft&title=Done&body=text&published_at=&action=publish_now''"
  let ?res = "posts_resource (h_store sample_handler)"
  let ?recs = "\<lambda>s. record_of_post ` posts_in (schema_rows s)"
  have ed: "editor_of sample_handler (\<lambda>s. posts_in (schema_rows s)) (\<lambda>s. pages_in (schema_rows s)) ?res ?recs"
    by (simp add: editor_of_def)
  have v: "schema_valid (sv_db sample_server)" by (simp add: sample_server_db sample_valid)
  have st: "status (fst (save sample_handler sample_now ?res False ?r empty_response sample_server)) \<in> {303, 204}"
    by code_simp
  have eval: "post_form_value ?r ''title'' = ''Done''" "publish_now ?r"
    "ex_uuid_from_string (h_ext sample_handler) (path_id ?r) = Some 3" "micros 2000000000 = 2000000000" by code_simp+
  from accepted_save_stores_the_text [OF sample_store ed v st] eval show ?thesis
    by (auto simp: sample_server_db sample_now_def)
qed

end
