(* ===== verification/Guard_Facts.thy ===== *)
theory Guard_Facts
  imports Admin_Facts
begin

text \<open>
  What the Admin surface as a whole promises about a request, whatever the store behind it: the session
  guard, the login, the headers and the framing of every answer.
\<close>

section \<open>Every answer\<close>

definition secure_headers :: "page_response \<Rightarrow> bool" where
  "secure_headers w \<longleftrightarrow>
     get_header w ''Content-Security-Policy'' = Some contentSecurityPolicy \<and>
     get_header w ''X-Content-Type-Options'' = Some ''nosniff'' \<and>
     get_header w ''Referrer-Policy'' = Some ''same-origin''"

text \<open>A screen is never cached, and is a whole page exactly when htmx did not ask for it.\<close>

definition framed :: "request \<Rightarrow> page_response \<Rightarrow> bool" where
  "framed r w \<longleftrightarrow>
     (case body w of
        Html c \<Rightarrow> get_header w ''Cache-Control'' = Some ''no-store'' \<and>
          get_header w ''Content-Type'' = Some ''text/html; charset=utf-8'' \<and> (is_full_page c \<longleftrightarrow> \<not> is_htmx r)
      | _ \<Rightarrow> True)"

text \<open>A handler that is handed an unwritten response with the headers set leaves a proper one.\<close>

definition proper_handler :: "'s handler_func \<Rightarrow> bool" where
  "proper_handler f \<longleftrightarrow>
     (\<forall>r w sv. secure_headers w \<longrightarrow> body w = NoBody \<longrightarrow>
        secure_headers (fst (f r w sv)) \<and> framed r (fst (f r w sv)))"

lemma is_htmx_path_id [simp]: "is_htmx (r\<lparr>path_id := i\<rparr>) = is_htmx r"
  by (simp add: is_htmx_def get_req_header_def)

lemma framed_plain [simp]: "body w = NoBody \<Longrightarrow> framed r w" "body w = Text t \<Longrightarrow> framed r w"
  by (simp_all add: framed_def)

lemma not_full_body [simp]:
  "\<not> is_full_page (Login x)" "\<not> is_full_page (Editor f)" "\<not> is_full_page (pick_fragment n (PostRegion l t) (PostRows l t))"
  "\<not> is_full_page (pick_fragment n (PageRegion g t) (PageRows g t))"
  by (simp_all add: pick_fragment_def)

lemma secure_plain [simp]:
  "secure_headers w \<Longrightarrow> secure_headers (http_error m c w)"
  "secure_headers w \<Longrightarrow> secure_headers (fail w)"
  "secure_headers w \<Longrightarrow> secure_headers (not_found w)"
  "secure_headers w \<Longrightarrow> secure_headers (render r s w)"
  "secure_headers w \<Longrightarrow> secure_headers (http_redirect r u c w)"
  "secure_headers (set_cookie ck w) = secure_headers w"
  "secure_headers (w\<lparr>status := n\<rparr>) = secure_headers w" "secure_headers (w\<lparr>body := b\<rparr>) = secure_headers w"
  by (simp_all add: secure_headers_def fail_def not_found_def)

lemma secure_set_header [simp]:
  "k \<notin> {''Content-Security-Policy'', ''X-Content-Type-Options'', ''Referrer-Policy''} \<Longrightarrow>
     secure_headers (set_header k v w) = secure_headers w"
  by (auto simp: secure_headers_def)

lemma framed_error [simp]:
  "framed r (http_error m c w)" "framed r (fail w)" "framed r (not_found w)" "framed r (http_redirect r' u c w)"
  by (simp_all add: framed_def fail_def not_found_def split: body.split)

lemma framed_render:
  assumes "\<not> is_full_page (case sc_fragment s of Some f \<Rightarrow> f | None \<Rightarrow> sc_body s)"
  shows "framed r (render r s w)"
  using assms by (auto simp: framed_def split: option.splits)

lemma proper_handlerI:
  "(\<And>r w sv. secure_headers w \<Longrightarrow> body w = NoBody \<Longrightarrow>
     secure_headers (fst (f r w sv)) \<and> framed r (fst (f r w sv))) \<Longrightarrow> proper_handler f"
  by (simp add: proper_handler_def)

lemma proper_handlerD:
  "proper_handler f \<Longrightarrow> secure_headers w \<Longrightarrow> body w = NoBody \<Longrightarrow>
     secure_headers (fst (f r w sv)) \<and> framed r (fst (f r w sv))"
  by (simp add: proper_handler_def)

named_theorems proper "handlers that leave a proper response"

lemma proper_reject: "secure_headers w \<Longrightarrow> body w = NoBody \<Longrightarrow>
   secure_headers (reject_unauthenticated r w) \<and> framed r (reject_unauthenticated r w)"
  by (simp add: reject_unauthenticated_def Let_def framed_def[of _ "_\<lparr>status := 401\<rparr>"])

lemma proper_guard [proper]: "proper_handler f \<Longrightarrow> proper_handler (require_session h now f)"
  by (rule proper_handlerI) (auto simp: require_session_def proper_reject proper_handler_def split: sum.split)

lemma proper_login_form [proper]: "proper_handler login_form_handler"
  by (rule proper_handlerI) (simp add: login_form_handler_def login_screen_def framed_render)

lemma proper_login [proper]: "proper_handler (login h now)"
  by (rule proper_handlerI)
    (auto simp: login_def Let_def render_login_failure_def login_screen_def framed_render framed_def[of _ "_\<lparr>body := Aborted\<rparr>"]
      split: prod.split sum.split password_error.split)

lemma proper_logout [proper]: "proper_handler (logout h)"
  by (rule proper_handlerI) (simp add: logout_def)

lemma proper_static [proper]: "proper_handler (serve_asset static)"
  by (rule proper_handlerI) (auto simp: serve_asset_def Let_def framed_def[of _ "_\<lparr>body := Asset _\<rparr>"] split: option.split)

lemma proper_lists [proper]: "proper_handler (list_posts h now)" "proper_handler (list_pages h now)"
  by (rule proper_handlerI, simp add: list_posts_def list_pages_def Let_def framed_render split: sum.split prod.split)+

lemma proper_blank [proper]: "proper_handler (blank h res)"
  by (rule proper_handlerI) (simp add: blank_def Let_def framed_render)

lemma proper_edit [proper]: "proper_handler (edit h now res)"
  by (rule proper_handlerI) (auto simp: edit_def load_def Let_def framed_render split: sum.splits option.splits if_splits)

lemma proper_save [proper]: "proper_handler (save h now res n)"
proof (rule proper_handlerI)
  fix r w sv
  assume w: "secure_headers w" "body w = NoBody"
  show "secure_headers (fst (save h now res n r w sv)) \<and> framed r (fst (save h now res n r w sv))"
  proof (cases "parse_form_error r")
    case True
    with w show ?thesis by (simp add: save_bad_form)
  next
    case parsed: False
    obtain f rc e where sub: "submitted h now r res n = (f, rc, e)" by (cases "submitted h now r res n")
    show ?thesis
    proof (cases e)
      case (Some err)
      then show ?thesis using w sub by (simp add: save_bad_fields [OF parsed] invalid_def Let_def framed_render)
    next
      case None
      obtain f' rc' where ch: "chosen h now r f rc = (f', rc')" by (cases "chosen h now r f rc")
      obtain result s' where at: "attempt res n (sv_db sv) rc' = (result, s')" by (cases "attempt res n (sv_db sv) rc'")
      show ?thesis
        using w save_written [OF parsed sub [unfolded None] ch at, of w]
        by (cases result)
          (auto simp: save_done_def invalid_def Let_def framed_render framed_def[of _ "_\<lparr>status := 204\<rparr>"] split: option.split)
    qed
  qed
qed

lemma proper_autosave [proper]: "proper_handler (autosave h now res)"
  by (rule proper_handlerI)
    (auto simp: autosave_def load_def render_marker_def Let_def framed_render split: sum.splits option.splits if_splits prod.splits)

lemma proper_route [proper]: "proper_handler (run_route h static now rt)"
  by (cases rt) (simp_all add: run_route_def proper, rule proper_handlerI, simp)

lemma framed_path_id [simp]: "framed (r\<lparr>path_id := i\<rparr>) w = framed r w"
  by (simp add: framed_def split: body.split)

lemma proper_dispatch [proper]:
  "(\<And>rt. proper_handler (run rt)) \<Longrightarrow> proper_handler f \<Longrightarrow> proper_handler (dispatch run ps f)"
  by (rule proper_handlerI)
    (auto simp: dispatch_def split: option.split dest: proper_handlerD [of f]
      proper_handlerD [of _ _ "_\<lparr>path_id := _\<rparr>", unfolded framed_path_id])

lemma proper_no_route [proper]: "proper_handler (no_route ps)"
  by (rule proper_handlerI) (simp add: no_route_def split: list.split)

text \<open>
  C18: whatever is asked of the Admin surface, by whom and in whatever state, every answer carries the
  content security policy, \<^verbatim>\<open>nosniff\<close> and the referrer policy; every screen among them is never cached,
  and is a whole page exactly if htmx did not ask for it.
\<close>

theorem every_answer_is_proper:
  "secure_headers (fst (serve h static now r sv)) \<and> framed r (fst (serve h static now r sv))"
proof -
  have "proper_handler (dispatch (run_route h static now) public_patterns (require_session h now
      (dispatch (run_route h static now) guarded_patterns (no_route guarded_patterns))))"
    by (intro proper)
  then show ?thesis
    unfolding serve_def routes_def secured_def
    by (rule proper_handlerD) (simp_all add: secure_headers_def empty_response_def)
qed

section \<open>The session guard\<close>

lemma query_escape_chars:
  assumes "c \<in> set (query_escape s)"
  shows "unreserved c \<or> c = CHR ''+'' \<or> c = CHR ''%''"
proof -
  have hex: "unreserved (hex_digits ! n)" if "n < 16" for n
  proof -
    have "list_all unreserved hex_digits" by code_simp
    moreover have "length hex_digits = 16" by (simp add: hex_digits_def)
    ultimately show ?thesis using that by (simp add: list_all_length)
  qed
  have "(of_char a :: nat) div 16 < 16" for a
    using nat_of_char_less_256 [of a] by (simp add: less_mult_imp_div_less)
  with assms show ?thesis
    by (auto simp: query_escape_def escape_char_def percent_def hex split: if_splits)
qed

lemma plain_char:
  assumes "unreserved c \<or> c = CHR ''+'' \<or> c = CHR ''%''"
  shows "\<not> is_ctl c \<and> c \<noteq> CHR ''#'' \<and> c \<noteq> CHR ''?'' \<and> (of_char c :: nat) < 128"
  using assms by (auto simp: unreserved_def is_alnum_def is_ctl_def Let_def)

text \<open>The address of the login form reaches the browser as it is.\<close>

lemma login_location_unchanged: "redirect_location (login_location r) = login_location r"
proof -
  define q where "q = (if return_path r \<noteq> [] then ''?next='' @ query_escape (return_path r) else [])"
  have u: "login_location r = ''/admin/login'' @ q" by (simp add: login_location_def q_def)
  have chars: "\<not> is_ctl c \<and> c \<noteq> CHR ''#'' \<and> (of_char c :: nat) < 128" if "c \<in> set q" for c
    using that plain_char [OF query_escape_chars] by (auto simp: q_def is_ctl_def split: if_splits)
  have none: "before_char (CHR ''#'') (''/admin/login'' @ q) = ''/admin/login'' @ q"
    "from_char (CHR ''#'') (''/admin/login'' @ q) = []"
    using chars by (auto simp: before_char_def from_char_def takeWhile_eq_all_conv dropWhile_eq_Nil_conv)
  have parts: "before_char (CHR ''?'') (''/admin/login'' @ q) = ''/admin/login''"
    "from_char (CHR ''?'') (''/admin/login'' @ q) = q"
    by (simp_all add: before_char_def from_char_def q_def)
  have "url_parse_ok (''/admin/login'' @ q)"
    using chars unfolding url_parse_ok_def parse_request_uri_ok_def none parts
    by (auto simp: list_all_iff is_ctl_def)
  moreover have "path_clean ''/admin/login'' = ''/admin/login''" by code_simp
  then have "clean_location (''/admin/login'' @ q) = ''/admin/login'' @ q"
    unfolding clean_location_def parts by (simp add: suffix_def)
  moreover have "hex_escape_non_ascii (''/admin/login'' @ q) = ''/admin/login'' @ q"
    by (rule hex_escape_ascii) (auto simp: list_all_iff dest: chars)
  ultimately show ?thesis by (simp add: u redirect_location_def redirect_target_def)
qed

text \<open>What a handler may do with the store and the limiter.\<close>

lemma find_route_in:
  assumes "find_route ps r = Some (rt, i)"
  shows "\<exists>m segs. (m, segs, rt) \<in> set ps \<and> method_matches m r \<and> match_segments segs (path_segments r) = Some i"
proof -
  let ?f = "\<lambda>(m, segs, rt). if method_matches m r then map_option (Pair rt) (match_segments segs (path_segments r)) else None"
  have "(rt, i) \<in> set (List.map_filter ?f ps)"
    using assms by (simp add: find_route_def split: list.splits)
  then show ?thesis
    by (auto simp: List.map_filter_def split: if_splits) blast
qed

lemma login_leaves_store: "sv_db (snd (login h now r w sv)) = sv_db sv"
  by (simp add: login_def Let_def split: prod.split sum.split password_error.split)

lemma public_leaves_store:
  assumes "find_route public_patterns r = Some (rt, i)"
  shows "sv_db (snd (run_route h static now rt r' w sv)) = sv_db sv"
proof -
  have "rt \<in> {LoginForm, LoginPost, StaticFile}"
    using find_route_in [OF assms] by (auto simp: public_patterns_def)
  then show ?thesis
    by (auto simp: run_route_def login_form_handler_def serve_asset_def login_leaves_store Let_def split: option.split)
qed

definition secured_response :: page_response where
  "secured_response =
     set_header ''Referrer-Policy'' ''same-origin''
       (set_header ''X-Content-Type-Options'' ''nosniff''
         (set_header ''Content-Security-Policy'' contentSecurityPolicy empty_response))"

lemma serve_split:
  "serve h static now r sv =
     (case find_route public_patterns r of
        Some (rt, i) \<Rightarrow> run_route h static now rt (r\<lparr>path_id := i\<rparr>) secured_response sv
      | None \<Rightarrow>
     (case sessions_verify (h_sessions h) (now AtVerify) r of
        Inl _ \<Rightarrow> (reject_unauthenticated r secured_response, sv)
      | Inr _ \<Rightarrow>
     (case find_route guarded_patterns r of
        Some (rt, i) \<Rightarrow> run_route h static now rt (r\<lparr>path_id := i\<rparr>) secured_response sv
      | None \<Rightarrow> no_route guarded_patterns r secured_response sv)))"
  by (simp add: serve_def routes_def secured_def dispatch_def require_session_def secured_response_def split: option.split sum.split)



text \<open>
  Asking for something never changes it: a GET or a HEAD leaves the store and the limiter as they are,
  with a session or without.
\<close>

theorem reading_changes_nothing:
  assumes "req_method r \<in> {''GET'', ''HEAD''}"
  shows "snd (serve h static now r sv) = sv"
proof -
  have "rt \<notin> {LoginPost, LogoutPost, CreatePost, UpdatePost, AutosavePost, CreatePage, UpdatePage, AutosavePage}"
    if "find_route ps r = Some (rt, i)" "ps = public_patterns \<or> ps = guarded_patterns" for ps rt i
    using that(2) find_route_in [OF that(1)] assms
    by (auto simp: public_patterns_def guarded_patterns_def method_matches_def)
  moreover have "snd (run_route h static now rt r' w sv) = sv"
    if "rt \<notin> {LoginPost, LogoutPost, CreatePost, UpdatePost, AutosavePost, CreatePage, UpdatePage, AutosavePage}" for rt r' w
    using that
    by (cases rt) (auto simp: run_route_def login_form_handler_def serve_asset_def list_posts_def list_pages_def blank_def
        edit_def Let_def split: option.split sum.split prod.split)
  ultimately show ?thesis
    by (auto simp: serve_split no_route_def split: option.split sum.split list.split)
qed

theorem reading_changes_nothing_witness:
  "snd (serve sample_handler (\<lambda>_. None) sample_now sample_request sample_server) = sample_server"
  by (rule reading_changes_nothing) (simp add: sample_request_def)

section \<open>Logging in\<close>

text \<open>Only two routes write cookies.\<close>

lemma save_cookies [simp]: "set_cookies (fst (save h now res n r w sv)) = set_cookies w"
proof (cases "parse_form_error r")
  case True
  then show ?thesis by (simp add: save_bad_form)
next
  case parsed: False
  obtain f rc e where sub: "submitted h now r res n = (f, rc, e)" by (cases "submitted h now r res n")
  show ?thesis
  proof (cases e)
    case (Some err)
    then show ?thesis using sub by (simp add: save_bad_fields [OF parsed] invalid_def Let_def)
  next
    case None
    obtain f' rc' where ch: "chosen h now r f rc = (f', rc')" by (cases "chosen h now r f rc")
    obtain result s' where at: "attempt res n (sv_db sv) rc' = (result, s')" by (cases "attempt res n (sv_db sv) rc'")
    show ?thesis
      using save_written [OF parsed sub [unfolded None] ch at, of w]
      by (cases result) (auto simp: save_done_def invalid_def Let_def split: option.split)
  qed
qed

lemma autosave_cookies [simp]: "set_cookies (fst (autosave h now res r w sv)) = set_cookies w"
  by (auto simp: autosave_def load_def render_marker_def Let_def split: sum.splits option.splits if_splits prod.splits)

lemma route_cookies:
  "rt \<noteq> LoginPost \<Longrightarrow> rt \<noteq> LogoutPost \<Longrightarrow> set_cookies (fst (run_route h static now rt r w sv)) = set_cookies w"
  by (cases rt) (auto simp: run_route_def login_form_handler_def serve_asset_def list_posts_def list_pages_def blank_def
      edit_def load_def Let_def split: option.split sum.split prod.split)

lemma no_cookies [simp]: "set_cookies secured_response = []"
  by (simp add: secured_response_def empty_response_def)

lemma login_cookies:
  assumes "set_cookies (fst (login h now r w sv)) \<noteq> set_cookies w"
  shows "set_cookies (fst (login h now r w sv)) = set_cookies w @ [sessions_issue (h_sessions h) (now AtIssue)] \<and>
    fst (limiter_allow (sv_logins sv) (now AtAllow) (client_ip r)) \<and>
    verify_password (ex_idkey (h_ext h)) (h_hash h) (post_form_value r ''password'') = Inr True"
  using assms
  by (auto simp: login_def Let_def render_login_failure_def split: prod.splits sum.splits password_error.splits if_splits)

lemma login_path_id [simp]: "client_ip (r\<lparr>path_id := i\<rparr>) = client_ip r"
    "post_form_value (r\<lparr>path_id := i\<rparr>) k = post_form_value r k" "parse_form_error (r\<lparr>path_id := i\<rparr>) = parse_form_error r"
  by (simp_all add: client_ip_def post_form_value_def has_form_method_def parse_form_error_def split: option.split)

text \<open>
  C8: a cookie is handed out in two cases only. Logging out clears it; and the login issues a session, once,
  to an address the limiter lets through that posted the password of the hash.
\<close>

theorem sessions_only_for_the_password:
  assumes "set_cookies (fst (serve h static now r sv)) \<noteq> []"
  shows "(\<exists>i. find_route guarded_patterns r = Some (LogoutPost, i)) \<and>
      set_cookies (fst (serve h static now r sv)) = [sessions_clear (h_sessions h)] \<or>
    (\<exists>i. find_route public_patterns r = Some (LoginPost, i)) \<and>
      set_cookies (fst (serve h static now r sv)) = [sessions_issue (h_sessions h) (now AtIssue)] \<and>
      fst (limiter_allow (sv_logins sv) (now AtAllow) (client_ip r)) \<and>
      verify_password (ex_idkey (h_ext h)) (h_hash h) (post_form_value r ''password'') = Inr True"
proof (cases "find_route public_patterns r")
  case (Some a)
  obtain rt i where a: "a = (rt, i)" by (cases a)
  have "rt \<noteq> LogoutPost"
    using find_route_in [OF Some [unfolded a]] by (auto simp: public_patterns_def)
  moreover have "rt \<noteq> LoginPost \<longrightarrow> rt = LogoutPost"
    using assms Some a route_cookies [of rt h static now "r\<lparr>path_id := i\<rparr>" secured_response sv] by (auto simp: serve_split)
  ultimately have "rt = LoginPost" by blast
  with assms Some a login_cookies [of h now "r\<lparr>path_id := i\<rparr>" secured_response sv] show ?thesis
    by (simp add: serve_split run_route_def)
next
  case None
  have public: "set_cookies (reject_unauthenticated r secured_response) = []" "set_cookies (fst (no_route ps r secured_response sv)) = []" for ps
    by (simp_all add: reject_unauthenticated_def no_route_def Let_def split: list.split)
  with assms None obtain rt i where found: "find_route guarded_patterns r = Some (rt, i)"
    and set: "fst (serve h static now r sv) = fst (run_route h static now rt (r\<lparr>path_id := i\<rparr>) secured_response sv)"
    by (auto simp: serve_split split: sum.splits option.splits)
  have "rt \<noteq> LoginPost"
    using find_route_in [OF found] by (auto simp: guarded_patterns_def)
  with assms set route_cookies [of rt h static now "r\<lparr>path_id := i\<rparr>" secured_response sv] have "rt = LogoutPost" by auto
  with found set show ?thesis by (simp add: run_route_def logout_def)
qed

definition login_request :: "string \<Rightarrow> request" where
  "login_request form =
     sample_request\<lparr>req_method := ''POST'', url_path := ''/admin/login'', escaped_path := ''/admin/login'',
                    form_body := form\<rparr>"

lemma sample_password: "verify_password (ex_idkey (h_ext sample_handler)) (h_hash sample_handler) ''open'' = Inr True"
  by (simp add: sample_handler_def new_handler_def sample_ext_def sample_config_def secret_raw_def verify_password_def
      parse_encode sample_idkey_def)

lemma sample_allows: "fst (limiter_allow (sv_logins sample_server) (sample_now AtAllow) (client_ip r))"
  by (simp add: sample_server_def new_server_def new_limiter_def limiter_allow_def drop_expired_def Let_def)

theorem sessions_only_for_the_password_witness:
  "set_cookies (fst (serve sample_handler (\<lambda>_. None) sample_now (login_request ''password=open&next='') sample_server)) =
     [sessions_issue (h_sessions sample_handler) 2000000000]"
proof -
  let ?r = "login_request ''password=open&next=''"
  let ?w = "fst (serve sample_handler (\<lambda>_. None) sample_now ?r sample_server)"
  have route: "find_route public_patterns ?r = Some (LoginPost, [])" and form: "parse_form_error ?r = False" by code_simp+
  have "post_form_value ?r ''password'' = ''open''" by code_simp
  then have pass: "verify_password (ex_idkey (h_ext sample_handler)) (h_hash sample_handler) (post_form_value ?r ''password'') = Inr True"
    by (simp add: sample_password)
  note allow = sample_allows [of ?r]
  have "set_cookies ?w \<noteq> []"
    using allow by (auto simp: serve_split route run_route_def login_def form pass Let_def split: prod.split)
  moreover have "find_route guarded_patterns ?r = None" by code_simp
  ultimately show ?thesis
    using sessions_only_for_the_password [of sample_handler "\<lambda>_. None" sample_now ?r sample_server] route
    by (simp add: sample_now_def)
qed

text \<open>
  C19: what an address that has used up its attempts is answered does not depend on the password it posted,
  nor on the hash or the argon2 implementation: the hash is never computed for it. The screen it is shown is
  the one a wrong password is shown; only the status tells the two apart.
\<close>

theorem limited_login_computes_no_hash:
  assumes "find_route public_patterns r = Some (LoginPost, i)" and "\<not> parse_form_error r"
    and "\<not> fst (limiter_allow (sv_logins sv) (now AtAllow) (client_ip r))"
  shows "serve h static now r sv = serve (h\<lparr>h_hash := hash', h_ext := ext'\<rparr>) static now r sv \<and>
    status (fst (serve h static now r sv)) = 429 \<and>
    sv_db (snd (serve h static now r sv)) = sv_db sv \<and>
    (\<forall>hash ext sv2.
       fst (limiter_allow (sv_logins sv2) (now AtAllow) (client_ip r)) \<and>
       verify_password (ex_idkey ext) hash (post_form_value r ''password'') = Inr False \<longrightarrow>
       (let wrong = fst (serve (h\<lparr>h_hash := hash, h_ext := ext\<rparr>) static now r sv2)
        in status wrong = 401 \<and> fst (serve h static now r sv) = wrong\<lparr>status := 429\<rparr>))"
proof -
  have limited: "serve h' static now r sv =
      (render_login_failure (r\<lparr>path_id := i\<rparr>) (safe_next (post_form_value r ''next'')) 429 secured_response,
       sv\<lparr>sv_logins := snd (limiter_allow (sv_logins sv) (now AtAllow) (client_ip r))\<rparr>)"
    for h' :: "'a handler"
    using assms by (auto simp: serve_split run_route_def login_def Let_def split: prod.split)
  have wrong: "fst (serve (h\<lparr>h_hash := hash, h_ext := ext\<rparr>) static now r sv2) =
      render_login_failure (r\<lparr>path_id := i\<rparr>) (safe_next (post_form_value r ''next'')) 401 secured_response"
    if "fst (limiter_allow (sv_logins sv2) (now AtAllow) (client_ip r))"
      "verify_password (ex_idkey ext) hash (post_form_value r ''password'') = Inr False" for hash ext sv2
    using assms that by (auto simp: serve_split run_route_def login_def Let_def split: prod.split)
  show ?thesis
    unfolding limited
    by (auto simp: wrong Let_def) (simp_all add: render_login_failure_def login_screen_def render_def set_header_def Let_def)
qed

theorem limited_login_computes_no_hash_witness:
  "let sv = sample_server\<lparr>sv_logins := (sv_logins sample_server)
         \<lparr>lim_windows := [''192.0.2.1'' \<mapsto> \<lparr>win_count = 3, win_started = 1999999999\<rparr>]\<rparr>\<rparr>;
       w = fst (serve sample_handler (\<lambda>_. None) sample_now (login_request ''password=open'') sv)
   in status w = 429 \<and>
      w = fst (serve (sample_handler\<lparr>h_hash := ''anything''\<rparr>) (\<lambda>_. None) sample_now (login_request ''password=open'') sv)"
proof -
  let ?r = "login_request ''password=open''"
  let ?sv = "sample_server\<lparr>sv_logins := (sv_logins sample_server)
         \<lparr>lim_windows := [''192.0.2.1'' \<mapsto> \<lparr>win_count = 3, win_started = 1999999999\<rparr>]\<rparr>\<rparr>"
  have route: "find_route public_patterns ?r = Some (LoginPost, [])" and form: "\<not> parse_form_error ?r"
    and ip: "client_ip ?r = ''192.0.2.1''" by code_simp+
  have limited: "\<not> fst (limiter_allow (sv_logins ?sv) (sample_now AtAllow) (client_ip ?r))"
    by (simp add: ip sample_server_def new_server_def new_limiter_def sample_config_def sample_now_def limiter_allow_def
        drop_expired_def Let_def)
  note all = limited_login_computes_no_hash [of ?r "[]" ?sv sample_now sample_handler "\<lambda>_. None" "h_ext sample_handler"
      "''anything''", OF route form limited]
  have "sample_handler\<lparr>h_hash := ''anything''\<rparr> = sample_handler\<lparr>h_hash := ''anything'', h_ext := h_ext sample_handler\<rparr>"
    by simp
  then show ?thesis
    unfolding Let_def using arg_cong [OF conjunct1 [OF all], of fst] conjunct1 [OF conjunct2 [OF all]] by simp
qed

end
