(* ===== verification/Redirect_Facts.thy ===== *)
theory Redirect_Facts
  imports Guard_Facts
begin

text \<open>
  Where the login sends a browser: the return path it was asked for, and what \<^verbatim>\<open>safeNext\<close> and
  \<^verbatim>\<open>http.Redirect\<close> make of it.
\<close>

section \<open>Cleaned paths\<close>

abbreviation full_segment :: "string \<Rightarrow> bool" where
  "full_segment s \<equiv> s \<noteq> [] \<and> CHR ''/'' \<notin> set s"

lemma clean_step_full:
  "list_all full_segment acc \<Longrightarrow> CHR ''/'' \<notin> set seg \<Longrightarrow> list_all full_segment (clean_step acc seg)"
  using in_set_butlastD by (fastforce simp: list_all_iff)

lemma clean_segments:
  "list_all full_segment acc \<Longrightarrow> list_all (\<lambda>s. CHR ''/'' \<notin> set s) segs \<Longrightarrow>
     list_all full_segment (foldl clean_step acc segs)"
  by (induction segs arbitrary: acc) (simp_all add: clean_step_full del: clean_step.simps)

text \<open>A cleaned path is a slash, alone or followed by something else than a slash.\<close>

lemma path_clean_shape: "path_clean p = ''/'' \<or> (\<exists>c rest. path_clean p = CHR ''/'' # c # rest \<and> c \<noteq> CHR ''/'')"
proof -
  let ?segs = "foldl clean_step [] (split_on (CHR ''/'') p)"
  have "list_all (\<lambda>s. s \<noteq> [] \<and> CHR ''/'' \<notin> set s) ?segs"
    by (rule clean_segments) (auto simp: list_all_iff dest: split_on_fields)
  then show ?thesis
  proof (cases ?segs)
    case (Cons s ss)
    then obtain c cs where "s = c # cs" "c \<noteq> CHR ''/''"
      using \<open>list_all _ ?segs\<close> by (cases s) auto
    with Cons show ?thesis by (cases ss) (auto simp: path_clean_def)
  qed (simp add: path_clean_def)
qed

definition rooted :: "string \<Rightarrow> bool" where
  "rooted u \<longleftrightarrow> prefix ''/'' u \<and> \<not> prefix ''//'' u"

lemma rooted_cases: "rooted u \<longleftrightarrow> u = ''/'' \<or> (\<exists>c rest. u = CHR ''/'' # c # rest \<and> c \<noteq> CHR ''/'')"
  by (cases u; cases "tl u") (auto simp: rooted_def)

lemma rooted_append: "rooted p \<Longrightarrow> q = [] \<or> (\<exists>c rest. q = c # rest \<and> c \<noteq> CHR ''/'') \<Longrightarrow> rooted (p @ q)"
  by (auto simp: rooted_cases)

lemma from_char_cases: "from_char c s = [] \<or> (\<exists>rest. from_char c s = c # rest)"
  by (induction s) (auto simp: from_char_def)

lemma rooted_clean_location: "rooted (clean_location u)"
proof -
  let ?p = "before_char (CHR ''?'') u"
  have c: "rooted (path_clean ?p)" using path_clean_shape by (simp add: rooted_cases)
  have "rooted (path_clean ?p @ ''/'')" if "\<not> suffix ''/'' (path_clean ?p)"
    using path_clean_shape [of ?p] that by (auto simp: rooted_cases)
  then show ?thesis
    using c from_char_cases [of "CHR ''?''" u]
    unfolding clean_location_def Let_def by (intro rooted_append) auto
qed

lemma rooted_escape: "rooted u \<Longrightarrow> rooted (hex_escape_non_ascii u)"
  unfolding rooted_cases by (elim disjE exE conjE) (auto simp: hex_escape_non_ascii_def)


text \<open>
  It need not stay in Admin. Dot segments are taken out by \<^verbatim>\<open>http.Redirect\<close> after \<^verbatim>\<open>safeNext\<close> has looked,
  and what they lead to may begin with a backslash, which browsers read as a second slash.
\<close>

lemma login_redirect_can_leave_admin:
  "safe_next (''/admin/../'' @ CHR 0x5C # ''example.org'') = ''/admin/../'' @ CHR 0x5C # ''example.org''"
  "redirect_location (''/admin/../'' @ CHR 0x5C # ''example.org'') = CHR ''/'' # CHR 0x5C # ''example.org''"
  "safe_next ''/administrator'' = ''/administrator''"
  by code_simp+

end
