(* ===== verification/Navigation_Facts.thy ===== *)
theory Navigation_Facts
  imports Redirect_Facts
begin

text \<open>
  Finding the way: a URL of a list is read back as the search and the page it was made of, and the screens
  of a list are cut from one arrangement of what matches, and a login leads back to what was asked for.
\<close>

section \<open>The URLs of a list\<close>

lemma not_unreserved [simp]:
  "\<not> unreserved (CHR ''&'')" "\<not> unreserved (CHR '';'')" "\<not> unreserved (CHR ''='')"
  "\<not> unreserved (CHR ''%'')" "\<not> unreserved (CHR ''+'')"
  by (simp_all add: unreserved_def is_alnum_def Let_def)

lemma query_escape_plain:
  assumes "c \<in> set (query_escape s)"
  shows "c \<noteq> CHR ''&'' \<and> c \<noteq> CHR '';'' \<and> c \<noteq> CHR ''=''"
  using query_escape_chars [OF assms] by auto

lemma parse_field_escaped:
  assumes "CHR '';'' \<notin> set k" and "CHR ''='' \<notin> set k" and "query_unescape k = Some k"
  shows "parse_field (k @ CHR ''='' # query_escape v) = Some (k, v)"
  using assms query_escape_plain [of _ v]
  by (auto simp: parse_field_def cut_found query_unescape_escape)

lemma query_unescape_plain:
  "list_all (\<lambda>c. c \<noteq> CHR ''%'' \<and> c \<noteq> CHR ''+'') s \<Longrightarrow> query_unescape s = Some s"
  by (induction s) auto

lemma show_int_plain:
  assumes "c \<in> set (show_int n)"
  shows "unreserved c"
  using show_int_set [OF assms] by (auto simp: is_digit_def unreserved_def is_alnum_def Let_def)

lemma parse_field_number: "parse_field (''page='' @ show_int n) = Some (''page'', show_int n)"
proof -
  have "CHR '';'' \<notin> set (show_int n)" "list_all (\<lambda>c. c \<noteq> CHR ''%'' \<and> c \<noteq> CHR ''+'') (show_int n)"
    using show_int_plain [of _ n] not_unreserved unfolding list_all_iff by metis+
  then have "cut (CHR ''='') (''page='' @ show_int n) = Some (''page'', show_int n)"
    and "query_unescape (show_int n) = Some (show_int n)" and "query_unescape ''page'' = Some ''page''"
    by (simp_all add: query_unescape_plain cut_Some_iff)
  with \<open>CHR '';'' \<notin> _\<close> show ?thesis by (simp add: parse_field_def)
qed

definition url_query :: "string \<Rightarrow> string" where
  "url_query u = drop 1 (from_char (CHR ''?'') u)"

lemma from_char_append: "c \<notin> set a \<Longrightarrow> from_char c (a @ c # b) = c # b"
  by (induction a) (auto simp: from_char_def)

lemma from_char_absent: "c \<notin> set a \<Longrightarrow> from_char c a = []"
  by (induction a) (auto simp: from_char_def)

text \<open>
  C38: the URL of a search and of each of its later pages is read back by the list handler as that search
  and that page, whatever the searched text is.
\<close>

theorem list_url_round_trip:
  assumes "CHR ''?'' \<notin> set base" and "1 \<le> n" and "n < 2 ^ 63"
    and "raw_query r = url_query (list_url base q n)"
  shows "listing_from r = \<lparr>l_text = q, l_page = n, l_per_page = per_page + 1\<rparr>"
proof -
  have base: "url_query (base @ CHR ''?'' # rest) = rest" "url_query base = []" for rest
    using assms(1) by (simp_all add: url_query_def from_char_append from_char_absent)
  have amp: "CHR ''&'' \<notin> set (query_escape q)" "CHR ''&'' \<notin> set (show_int n)"
    using query_escape_plain [of _ q] show_int_plain [of _ n] not_unreserved by metis+
  have atoi: "atoi (show_int n) = Some n"
    using assms(2,3) by (intro parse_int_show_int) auto
  have pq: "parse_field (CHR ''q'' # CHR ''='' # query_escape q) = Some (''q'', q)"
    using parse_field_escaped [of "''q''" q] by simp
  have pn: "parse_field (CHR ''p'' # CHR ''a'' # CHR ''g'' # CHR ''e'' # CHR ''='' # show_int n) = Some (''page'', show_int n)"
    using parse_field_number [of n] by simp
  have "parse_query (raw_query r) =
      (if q = [] then [] else [(''q'', q)]) @ (if n = 1 then [] else [(''page'', show_int n)])"
    using assms(2) amp
    by (auto simp: assms(4) list_url_def base parse_query_def query_fields_def split_on_absent split_on_field pq pn
        split_on_field [of _ "CHR ''q'' # CHR ''='' # query_escape q", simplified] List.map_filter_simps)
  moreover have "atoi [] = None" by (simp add: parse_int_def)
  ultimately show ?thesis
    using assms(2) by (auto simp: listing_from_def query_get_def values_get_def atoi)
qed

theorem list_url_round_trip_witness:
  "list_url ''/admin/posts'' ''50% & more'' 2 = ''/admin/posts?q=50%25+%26+more&page=2'' \<and>
   listing_from (sample_request\<lparr>raw_query := ''q=50%25+%26+more&page=2''\<rparr>) =
     \<lparr>l_text = ''50% & more'', l_page = 2, l_per_page = per_page + 1\<rparr>"
proof -
  have u: "list_url ''/admin/posts'' ''50% & more'' 2 = ''/admin/posts?q=50%25+%26+more&page=2''" by code_simp
  show ?thesis
    using list_url_round_trip [of "''/admin/posts''" 2 "sample_request\<lparr>raw_query := ''q=50%25+%26+more&page=2''\<rparr>" "''50% & more''"]
    by (simp add: u url_query_def from_char_def)
qed

section \<open>The screens of a list\<close>

text \<open>What a list screen shows, whichever fragment of it is sent.\<close>

fun shown_posts :: "component \<Rightarrow> post_listing option" where
  "shown_posts (Layout t n c) = shown_posts c"
| "shown_posts (Posts l t) = Some l"
| "shown_posts (PostRegion l t) = Some l"
| "shown_posts (PostRows l t) = Some l"
| "shown_posts _ = None"

definition posts_on :: "page_response \<Rightarrow> post_listing option" where
  "posts_on w = (case body w of Html c \<Rightarrow> shown_posts c | _ \<Rightarrow> None)"

lemma list_posts_shows:
  assumes "posts_on (fst (list_posts h now r w sv)) = Some l"
  shows "\<exists>found. st_find_posts (h_store h) (sv_db sv) Author (listing_from r) = Inr found \<and>
    (pl_posts l, vl_next_page (pl_listing l)) = trim found (listing_from r)"
proof (cases "st_find_posts (h_store h) (sv_db sv) Author (listing_from r)")
  case (Inl e)
  with assms show ?thesis by (simp add: list_posts_def posts_on_def fail_def Let_def)
next
  case (Inr found)
  then show ?thesis
    using assms by (auto simp: list_posts_def posts_on_def Let_def pick_fragment_def split: prod.splits if_splits)
qed

lemma listing_from_page: "1 \<le> l_page (listing_from r) \<and> l_page (listing_from r) < 2 ^ 63"
  by (auto simp: listing_from_def dest: parse_int_range split: option.split)

lemma next_page_nonzero: "1 \<le> k \<Longrightarrow> k < 2 ^ 63 \<Longrightarrow> wrap64 (k + 1) \<noteq> 0"
proof (cases "k + 1 = 2 ^ 63")
  case False
  assume "1 \<le> k" "k < 2 ^ 63"
  with False have "(k + 1 + 2 ^ 63) mod 2 ^ 64 = k + 1 + 2 ^ 63" by (intro mod_pos_pos_trivial) auto
  then show ?thesis using \<open>1 \<le> k\<close> by (simp add: wrap64_def)
qed (simp add: wrap64_def)

text \<open>
  C37: the screens of a list of posts, as far as \<^verbatim>\<open>load more\<close> goes, are cut from one arrangement of what the
  search matches, newest first: the screen of page \<open>k\<close> shows the 50 posts after the first \<open>51 (k - 1)\<close> of
  them, and offers a next page exactly if there is something after those.
\<close>

theorem list_screens_of_posts:
  assumes "pop_connection conn valid rows clock lower slug_le st" and "case_folding lower"
    and "valid (sv_db sv)" and "h_store h = content_store new_v7 conn"
    and "inj_on (\<lambda>p. (post_published_at p, post_created_at p)) (posts_in (rows (sv_db sv)))"
    and "posts_on (fst (list_posts h now r0 w0 sv)) = Some l0"
  shows "\<exists>xs. distinct xs \<and>
    set xs = {p \<in> posts_in (rows (sv_db sv)). contains_text lower (query_get r0 ''q'') (post_title p) (post_slug p)} \<and>
    sorted_wrt (\<lambda>a b. newest_key (row_of_post a) \<le> newest_key (row_of_post b)) xs \<and>
    (\<forall>r w l k. query_get r ''q'' = query_get r0 ''q'' \<and> posts_on (fst (list_posts h now r w sv)) = Some l \<and>
         k = nat (l_page (listing_from r)) \<longrightarrow>
       pl_posts l = take 50 (drop (51 * (k - 1)) xs) \<and>
       (vl_next_page (pl_listing l) \<noteq> 0 \<longleftrightarrow> 51 * (k - 1) + 50 < length xs))"
proof -
  let ?find = "\<lambda>r. find_posts conn (sv_db sv) Author
    \<lparr>l_text = query_get r ''q'', l_page = l_page (listing_from r), l_per_page = 51\<rparr>"
  have listing: "listing_from r = \<lparr>l_text = query_get r ''q'', l_page = l_page (listing_from r), l_per_page = 51\<rparr>" for r
    by (simp add: listing_from_def per_page_def)
  have found: "\<exists>ps. ?find r = Inr ps \<and> (pl_posts l, vl_next_page (pl_listing l)) = trim ps (listing_from r)"
    if "posts_on (fst (list_posts h now r w sv)) = Some l" for r w l
    using list_posts_shows [OF that] by (subst listing [symmetric]) (simp add: assms(4) content_store_def)
  obtain ps0 where "?find r0 = Inr ps0" using found [OF assms(6)] by blast
  from posts_arranged [OF assms(1,2,3,5) this] obtain xs where arranged: "distinct xs"
    "set xs = {p \<in> posts_in (rows (sv_db sv)). sees Author (clock (sv_db sv)) (post_published_at p) \<and>
      contains_text lower (query_get r0 ''q'') (post_title p) (post_slug p)}"
    "sorted_wrt (\<lambda>a b. newest_key (row_of_post a) \<le> newest_key (row_of_post b)) xs"
    "\<forall>k m ps. 1 \<le> k \<and> 1 \<le> m \<and> find_posts conn (sv_db sv) Author
        \<lparr>l_text = query_get r0 ''q'', l_page = k, l_per_page = m\<rparr> = Inr ps \<longrightarrow>
       ps = take (nat m) (drop (nat ((k - 1) * m)) xs)"
    by (elim exE conjE)
  have xs: "set xs = {p \<in> posts_in (rows (sv_db sv)).
      contains_text lower (query_get r0 ''q'') (post_title p) (post_slug p)}"
    unfolding arranged(2) by (simp add: sees_def)
  have cut: "ps = take 51 (drop (nat ((k - 1) * 51)) xs)"
    if "1 \<le> k" "find_posts conn (sv_db sv) Author \<lparr>l_text = query_get r0 ''q'', l_page = k, l_per_page = 51\<rparr> = Inr ps" for k ps
    using spec [OF spec [OF spec [OF arranged(4)]], of k 51 ps] that by simp
  have "pl_posts l = take 50 (drop (51 * (k - 1)) xs) \<and> (vl_next_page (pl_listing l) \<noteq> 0 \<longleftrightarrow> 51 * (k - 1) + 50 < length xs)"
    if r: "query_get r ''q'' = query_get r0 ''q''" "posts_on (fst (list_posts h now r w sv)) = Some l"
      and k: "k = nat (l_page (listing_from r))" for r w l k
  proof -
    let ?n = "l_page (listing_from r)"
    obtain ps where ps: "?find r = Inr ps" "(pl_posts l, vl_next_page (pl_listing l)) = trim ps (listing_from r)"
      using found [OF r(2)] by blast
    have n: "1 \<le> ?n" "?n < 2 ^ 63" using listing_from_page by auto
    have "nat ((?n - 1) * 51) = 51 * (k - 1)" using n k by (simp add: nat_mult_distrib nat_diff_distrib)
    then have "ps = take 51 (drop (51 * (k - 1)) xs)"
      using cut [OF n(1), of ps] ps(1) r(1) by simp
    then show ?thesis
      using ps(2) next_page_nonzero [OF n]
      by (auto simp: trim_def per_page_def min_def split: if_splits)
  qed
  then show ?thesis
    by (intro exI [of _ xs] conjI arranged(1,3) xs) blast
qed

theorem list_screens_of_posts_witness:
  "\<exists>xs l. map post_slug (take 3 xs) = [''draft'', ''planned'', ''live''] \<and>
     posts_on (fst (list_posts sample_handler sample_now sample_request empty_response sample_server)) = Some l \<and>
     pl_posts l = take 50 xs \<and> vl_next_page (pl_listing l) = 0"
proof -
  let ?w = "fst (list_posts sample_handler sample_now sample_request empty_response sample_server)"
  have h: "h_store sample_handler = content_store clock_v7 schema_conn" by (simp add: sample_handler_def new_handler_def)
  have from_r: "listing_from sample_request = \<lparr>l_text = [], l_page = 1, l_per_page = 51\<rparr>" by code_simp
  have find: "find_posts schema_conn sample_db Author \<lparr>l_text = [], l_page = 1, l_per_page = 51\<rparr> =
      Inr (map post_of_row [sample_row 3 ''draft'' ''Draft'' None 3000,
        sample_row 2 ''planned'' ''50% Planned'' (Some 9000000000) 2000, sample_row 1 ''live'' ''Live'' (Some 1000000) 1000])"
    by code_simp
  have "\<exists>l. posts_on ?w = Some l \<and> map post_slug (pl_posts l) = [''draft'', ''planned'', ''live''] \<and> vl_next_page (pl_listing l) = 0"
    by (simp add: posts_on_def list_posts_def from_r h content_store_def sample_server_db find trim_def per_page_def
        pick_fragment_def sample_row_def Let_def)
  then obtain l where l: "posts_on ?w = Some l" "map post_slug (pl_posts l) = [''draft'', ''planned'', ''live'']"
    "vl_next_page (pl_listing l) = 0" by (elim exE conjE)
  have page: "nat (l_page (listing_from sample_request)) = 1" by (simp add: from_r)
  note v = sample_valid [folded sample_server_db] and k = sample_keys [folded sample_server_db]
  from list_screens_of_posts [OF sample_connection ascii.case_folding_axioms v h k l(1)] obtain xs where
    xs: "\<forall>r w l k. query_get r ''q'' = query_get sample_request ''q'' \<and>
         posts_on (fst (list_posts sample_handler sample_now r w sample_server)) = Some l \<and>
         k = nat (l_page (listing_from r)) \<longrightarrow>
       pl_posts l = take 50 (drop (51 * (k - 1)) xs) \<and>
       (vl_next_page (pl_listing l) \<noteq> 0 \<longleftrightarrow> 51 * (k - 1) + 50 < length xs)"
    by (elim exE conjE)
  have posts: "pl_posts l = take 50 xs"
    using spec [OF spec [OF spec [OF spec [OF xs]]], of sample_request empty_response l 1] l(1) page by simp
  have "map post_slug (take 3 xs) = take 3 (map post_slug (pl_posts l))" by (simp add: posts take_map)
  then have "map post_slug (take 3 xs) = [''draft'', ''planned'', ''live'']" by (simp add: l(2))
  then show ?thesis by (intro exI [of _ xs] exI [of _ l] conjI l(1,3) posts)
qed

text \<open>The row that only tells whether there is a next page is skipped by that page: every 51st is on none.\<close>

lemma every_51st_is_skipped:
  assumes "distinct xs" and "51 * j + 50 < length xs"
  shows "xs ! (51 * j + 50) \<notin> set (take 50 (drop (51 * i) xs))"
proof
  assume "xs ! (51 * j + 50) \<in> set (take 50 (drop (51 * i) xs))"
  from in_take_dropD [OF this] obtain a where a: "51 * i \<le> a" "a < 51 * i + 50" "a < length xs" "xs ! a = xs ! (51 * j + 50)"
    by (elim exE conjE)
  with assms have "a = 51 * j + 50" by (simp add: nth_eq_iff_index_eq)
  with a show False by presburger
qed

section \<open>Back to where the login was asked for\<close>

text \<open>A path in canonical form: absolute, without empty segments or dots.\<close>

definition plain_path :: "string \<Rightarrow> bool" where
  "plain_path p \<longleftrightarrow>
     (case split_on (CHR ''/'') p of
        [] \<Rightarrow> False
      | s # segs \<Rightarrow> s = [] \<and> segs \<noteq> [] \<and> list_all (\<lambda>s. s \<noteq> [] \<and> s \<noteq> ''.'' \<and> s \<noteq> ''..'') segs)"

lemma path_clean_plain_path:
  assumes "plain_path p"
  shows "path_clean p = p"
proof -
  obtain segs where segs: "split_on (CHR ''/'') p = [] # segs" "segs \<noteq> []"
    "list_all (\<lambda>s. s \<noteq> [] \<and> s \<noteq> ''.'' \<and> s \<noteq> ''..'') segs"
    using assms by (auto simp: plain_path_def split: list.splits)
  have "p = join ''/'' ([] # segs)" using segs(1) join_split_on [of "CHR ''/''" p] by simp
  then have "p = CHR ''/'' # join ''/'' segs" using segs(2) by (cases segs) auto
  moreover have "CHR ''/'' \<notin> set s" if "s \<in> set segs" for s
    using split_on_fields [of s "CHR ''/''" p] that by (simp only: segs(1)) simp
  ultimately show ?thesis
    using segs(2,3) by (intro path_clean_plain) (auto simp: list_all_iff)
qed

text \<open>The requests a browser makes for a screen of Admin.\<close>

definition ordinary_screen :: "request \<Rightarrow> bool" where
  "ordinary_screen r \<longleftrightarrow>
     req_method r = ''GET'' \<and> url_path r \<noteq> ''/admin/login'' \<and> prefix ''/admin'' (escaped_path r) \<and>
     plain_path (escaped_path r) \<and> percent_ok (escaped_path r) \<and> CHR ''?'' \<notin> set (escaped_path r) \<and>
     list_all (\<lambda>c. \<not> is_ctl c \<and> c \<noteq> CHR ''#'' \<and> (of_char c :: nat) < 128) (request_uri r)"

lemma before_char_append: "c \<notin> set a \<Longrightarrow> before_char c (a @ c # b) = a"
  by (induction a) (auto simp: before_char_def)

lemma before_char_absent: "c \<notin> set a \<Longrightarrow> before_char c a = a"
  by (induction a) (auto simp: before_char_def)

lemma ordinary_uri:
  assumes "ordinary_screen r"
  shows "safe_next (request_uri r) = request_uri r" and "redirect_location (request_uri r) = request_uri r"
    and "return_path r = request_uri r" and "request_uri r \<noteq> []"
proof -
  let ?u = "request_uri r" and ?p = "escaped_path r"
  note o = assms [unfolded ordinary_screen_def]
  have p: "?p \<noteq> []" "\<not> prefix ''//'' ?p" using o by (auto simp: prefix_def)
  from o obtain t where t: "?p = ''/admin'' @ t" by (auto simp: prefix_def)
  have u: "?u = ''/admin'' @ t @ (if force_query r \<or> raw_query r \<noteq> [] then CHR ''?'' # raw_query r else [])"
    using p(1) by (simp add: request_uri_def t)
  have parts: "before_char (CHR ''?'') ?u = ?p \<and> ?u = ?p @ from_char (CHR ''?'') ?u"
    using o p(1) by (simp add: request_uri_def before_char_append before_char_absent from_char_append from_char_absent)
  have hash: "before_char (CHR ''#'') ?u = ?u" "from_char (CHR ''#'') ?u = []"
    using o by (auto simp: list_all_iff intro: before_char_absent from_char_absent)
  have req: "parse_request_uri_ok ?u"
    using o parts by (auto simp: parse_request_uri_ok_def list_all_iff)
  then have "url_parse_ok ?u" by (simp add: url_parse_ok_def hash)
  moreover have "clean_location ?u = ?u"
    using parts path_clean_plain_path [of ?p] o by (simp add: clean_location_def Let_def)
  ultimately show "redirect_location ?u = ?u"
    using o by (simp add: redirect_location_def redirect_target_def hex_escape_ascii list_all_iff)
  show "safe_next ?u = ?u" using req by (simp add: safe_next_def u)
  show "return_path r = ?u" "?u \<noteq> []" using o by (simp_all add: return_path_def u)
qed

text \<open>
  C36: a browser without a session that asks for a screen of Admin is led back to it: the address of the
  login form it is sent to makes the form carry the path and the query it asked for, and the login that
  posts them redirects to exactly these.
\<close>

theorem login_leads_back:
  assumes "ordinary_screen r" and "raw_query form_request = url_query (login_location r)"
    and "post_form_value login_post ''next'' = request_uri r"
    and "set_cookies (fst (login h now login_post w sv)) \<noteq> set_cookies w"
  shows "get_header (reject_unauthenticated r w) (if is_htmx r then ''HX-Redirect'' else ''Location'') =
      Some (''/admin/login?'' @ raw_query form_request) \<and>
    (\<exists>wrap. body (fst (login_form_handler form_request w sv)) =
        Html (wrap (Login \<lparr>lf_next = request_uri r, lf_error = []\<rparr>)) \<and> wrap \<in> {\<lambda>c. c, Layout ''Log in'' NavNone}) \<and>
    get_header (fst (login h now login_post w sv)) ''Location'' = Some (request_uri r)"
proof (intro conjI)
  note u = ordinary_uri [OF assms(1)]
  have location: "login_location r = ''/admin/login?next='' @ query_escape (request_uri r)"
    by (simp add: login_location_def u(3,4))
  have query: "url_query (login_location r) = ''next='' @ query_escape (request_uri r)"
    unfolding location by (simp add: url_query_def from_char_def)
  have "login_location r = ''/admin/login?'' @ raw_query form_request"
    by (simp only: assms(2) query) (simp only: location append.simps)
  moreover have "get_header (reject_unauthenticated r w) (if is_htmx r then ''HX-Redirect'' else ''Location'') =
      Some (login_location r)"
    by (simp add: reject_unauthenticated_def Let_def login_location_unchanged)
  ultimately show "get_header (reject_unauthenticated r w) (if is_htmx r then ''HX-Redirect'' else ''Location'') =
      Some (''/admin/login?'' @ raw_query form_request)" by simp
  have "CHR ''&'' \<notin> set (query_escape (request_uri r))" using query_escape_plain by blast
  moreover have "parse_field (''next='' @ query_escape (request_uri r)) = Some (''next'', request_uri r)"
    using parse_field_escaped [of "''next''" "request_uri r"] by simp
  ultimately have "parse_query (raw_query form_request) = [(''next'', request_uri r)]"
    by (simp add: assms(2) query parse_query_def query_fields_def split_on_absent List.map_filter_simps)
  then have "query_get form_request ''next'' = request_uri r" by (simp add: query_get_def values_get_def)
  then show "\<exists>wrap. body (fst (login_form_handler form_request w sv)) =
      Html (wrap (Login \<lparr>lf_next = request_uri r, lf_error = []\<rparr>)) \<and> wrap \<in> {\<lambda>c. c, Layout ''Log in'' NavNone}"
    by (intro exI [of _ "if is_htmx form_request then \<lambda>c. c else Layout ''Log in'' NavNone"])
      (simp add: login_form_handler_def login_screen_def u(1))
  show "get_header (fst (login h now login_post w sv)) ''Location'' = Some (request_uri r)"
    using assms(4)
    by (auto simp: login_def Let_def render_login_failure_def assms(3) u(1,2)
        split: prod.splits sum.splits password_error.splits if_splits)
qed

theorem login_leads_back_witness:
  "let r = sample_request\<lparr>raw_query := ''q=a''\<rparr>;
       posted = login_request ''password=open&next=%2Fadmin%2Fposts%3Fq%3Da'';
       w = fst (login sample_handler sample_now posted empty_response sample_server)
   in get_header (reject_unauthenticated r empty_response) ''Location'' =
        Some ''/admin/login?next=%2Fadmin%2Fposts%3Fq%3Da'' \<and>
      get_header w ''Location'' = Some ''/admin/posts?q=a''"
proof -
  let ?r = "sample_request\<lparr>raw_query := ''q=a''\<rparr>"
  let ?form = "sample_request\<lparr>raw_query := ''next=%2Fadmin%2Fposts%3Fq%3Da''\<rparr>"
  let ?login = "login_request ''password=open&next=%2Fadmin%2Fposts%3Fq%3Da''"
  have r: "ordinary_screen ?r" and query: "raw_query ?form = url_query (login_location ?r)"
    and target: "post_form_value ?login ''next'' = request_uri ?r" and form: "parse_form_error ?login = False"
    and plain: "is_htmx ?r = False" "request_uri ?r = ''/admin/posts?q=a''"
    by code_simp+
  have "post_form_value ?login ''password'' = ''open''" by code_simp
  then have "verify_password (ex_idkey (h_ext sample_handler)) (h_hash sample_handler) (post_form_value ?login ''password'') = Inr True"
    by (simp add: sample_password)
  then have cookie: "set_cookies (fst (login sample_handler sample_now ?login empty_response sample_server)) \<noteq> set_cookies empty_response"
    using sample_allows [of ?login] by (auto simp: login_def form Let_def split: prod.split)
  show ?thesis
    using login_leads_back [OF r query target cookie] by (simp add: plain Let_def)
qed

end
