(* ===== verification/Templates.thy ===== *)
theory Templates
  imports View
begin

text \<open>
  The markup of the screens: the components of \<^verbatim>\<open>internal/view/*_templ.go\<close>, each as the list of pieces it
  writes, in order. A piece is literal markup, or a text the templ runtime escapes before it is written: as
  the text of an element, as a URL or as the value of an attribute. The escaping functions belong to templ
  and are parameters. Errors of the connection, after which nothing more is written, are left out.
\<close>

section \<open>Pieces\<close>

datatype piece = Raw string | Txt string | Url string | Attr string

text \<open>
  \<^verbatim>\<open>templ.EscapeString\<close> of a joined string or URL, and \<^verbatim>\<open>templ.ResolveAttributeValue\<close>.
\<close>

record templ =
  templ_text :: "string \<Rightarrow> string"
  templ_url :: "string \<Rightarrow> string"
  templ_attr :: "string \<Rightarrow> string"

fun draw_piece :: "templ \<Rightarrow> piece \<Rightarrow> string" where
  "draw_piece t (Raw s) = s"
| "draw_piece t (Txt s) = templ_text t s"
| "draw_piece t (Url s) = templ_url t s"
| "draw_piece t (Attr s) = templ_attr t s"

definition draw :: "templ \<Rightarrow> piece list \<Rightarrow> string" where
  "draw t ps = concat (map (draw_piece t) ps)"

section \<open>Lists\<close>

definition search_form :: "string \<Rightarrow> string \<Rightarrow> string \<Rightarrow> piece list" where
  "search_form action target query =
     [Raw ''<form method=\"get\" action=\"'', Url action,
      Raw ''\" class=\"mb-4\" hx-get=\"'', Attr action,
      Raw ''\" hx-target=\"'', Attr target,
      Raw (''\" hx-swap=\"outerHTML\" hx-trigger=\"input changed delay:250ms, submit\" hx-push-url=\"true\">'' @
        ''<input type=\"search\" name=\"q\" value=\"''), Attr query,
      Raw (''\" placeholder=\"Search titles and slugs\" aria-label=\"Search\" class=\"w-full rounded border border-stone-300 px-3 py-2 focus:border-stone-900 focus:outline-none\">'' @
        ''</form>'')]"

definition load_more :: "string \<Rightarrow> piece list" where
  "load_more href =
     [Raw ''<button type=\"button\" hx-get=\"'', Attr href,
      Raw (''\" hx-target=\"this\" hx-swap=\"outerHTML\" class=\"w-full px-4 py-3 text-sm font-medium text-stone-500 hover:bg-stone-50 hover:text-stone-900\">'' @
        ''Load more</button>'')]"

definition empty_row :: "string \<Rightarrow> piece list" where
  "empty_row query =
     [Raw ''<p class=\"px-4 py-6 text-sm text-stone-500\">''] @
     (if query = [] then [Raw ''Nothing written yet.''] else [Raw ''Nothing matches '', Txt query, Raw ''.'']) @
     [Raw ''</p>'']"

definition state_badge :: "string \<Rightarrow> piece list" where
  "state_badge s =
     (if s = ''draft'' then
        [Raw (''<span class=\"shrink-0 rounded bg-amber-100 px-2 py-0.5 text-xs font-medium text-amber-800\">'' @
          ''draft</span>'')]
      else if s = ''scheduled'' then
        [Raw (''<span class=\"shrink-0 rounded bg-sky-100 px-2 py-0.5 text-xs font-medium text-sky-800\">'' @
          ''scheduled</span>'')]
      else
        [Raw (''<span class=\"shrink-0 rounded bg-stone-100 px-2 py-0.5 text-xs font-medium text-stone-600\">'' @
          ''published</span>'')])"

text \<open>The body of the loop over the posts.\<close>

definition post_row :: "(uuid \<Rightarrow> string) \<Rightarrow> post_listing \<Rightarrow> go_time \<Rightarrow> post \<Rightarrow> piece list" where
  "post_row uuid_string l now p =
     [Raw ''<a href=\"'', Url (''/admin/posts/'' @ uuid_string (post_id p) @ ''/edit''),
      Raw (''\" class=\"flex items-baseline gap-3 px-4 py-3 hover:bg-stone-50\">'' @
        ''<span class=\"min-w-0 flex-1 truncate font-medium\">''), Txt (post_title p),
      Raw ''</span>''] @
     state_badge (post_state p now) @
     [Raw ''<span class=\"w-44 shrink-0 text-right text-sm text-stone-500\">'', Txt (post_when p (vl_zone (pl_listing l))),
      Raw ''</span></a> '']"

definition post_rows :: "(uuid \<Rightarrow> string) \<Rightarrow> post_listing \<Rightarrow> go_time \<Rightarrow> piece list" where
  "post_rows uuid_string l now =
     concat (map (post_row uuid_string l now) (pl_posts l)) @
     (if 0 < vl_next_page (pl_listing l)
      then load_more (list_url ''/admin/posts'' (vl_query (pl_listing l)) (vl_next_page (pl_listing l))) else [])"

definition post_region :: "(uuid \<Rightarrow> string) \<Rightarrow> post_listing \<Rightarrow> go_time \<Rightarrow> piece list" where
  "post_region uuid_string l now =
     [Raw ''<div id=\"post-list\" class=\"divide-y divide-stone-200 rounded border border-stone-200 bg-white\">''] @
     (if pl_posts l = [] then empty_row (vl_query (pl_listing l)) else []) @
     post_rows uuid_string l now @
     [Raw ''</div>'']"

definition posts_screen :: "(uuid \<Rightarrow> string) \<Rightarrow> post_listing \<Rightarrow> go_time \<Rightarrow> piece list" where
  "posts_screen uuid_string l now =
     [Raw (''<div class=\"mb-6 flex items-center justify-between gap-4\">'' @
        ''<h1 class=\"text-xl font-semibold tracking-tight\">Posts</h1>'' @
        ''<a href=\"/admin/posts/new\" class=\"rounded bg-stone-900 px-3 py-2 text-sm font-medium text-white hover:bg-stone-700\">'' @
        ''Write a post</a></div>'')] @
     search_form ''/admin/posts'' ''#post-list'' (vl_query (pl_listing l)) @
     post_region uuid_string l now"

text \<open>The body of the loop over the pages.\<close>

definition page_row :: "(uuid \<Rightarrow> string) \<Rightarrow> page_listing \<Rightarrow> go_time \<Rightarrow> page \<Rightarrow> piece list" where
  "page_row uuid_string l now p =
     [Raw ''<a href=\"'', Url (''/admin/pages/'' @ uuid_string (page_id p) @ ''/edit''),
      Raw (''\" class=\"flex items-baseline gap-3 px-4 py-3 hover:bg-stone-50\">'' @
        ''<span class=\"min-w-0 flex-1 truncate font-medium\">''), Txt (page_title p),
      Raw ''</span> <span class=\"shrink-0 text-sm text-stone-400\">/'', Txt (page_slug p),
      Raw ''</span>''] @
     state_badge (page_state p now) @
     [Raw ''<span class=\"w-44 shrink-0 text-right text-sm text-stone-500\">'', Txt (page_when p (vl_zone (gl_listing l))),
      Raw ''</span></a> '']"

definition page_rows :: "(uuid \<Rightarrow> string) \<Rightarrow> page_listing \<Rightarrow> go_time \<Rightarrow> piece list" where
  "page_rows uuid_string l now =
     concat (map (page_row uuid_string l now) (gl_pages l)) @
     (if 0 < vl_next_page (gl_listing l)
      then load_more (list_url ''/admin/pages'' (vl_query (gl_listing l)) (vl_next_page (gl_listing l))) else [])"

definition page_region :: "(uuid \<Rightarrow> string) \<Rightarrow> page_listing \<Rightarrow> go_time \<Rightarrow> piece list" where
  "page_region uuid_string l now =
     [Raw ''<div id=\"page-list\" class=\"divide-y divide-stone-200 rounded border border-stone-200 bg-white\">''] @
     (if gl_pages l = [] then empty_row (vl_query (gl_listing l)) else []) @
     page_rows uuid_string l now @
     [Raw ''</div>'']"

definition pages_screen :: "(uuid \<Rightarrow> string) \<Rightarrow> page_listing \<Rightarrow> go_time \<Rightarrow> piece list" where
  "pages_screen uuid_string l now =
     [Raw (''<div class=\"mb-6 flex items-center justify-between gap-4\">'' @
        ''<h1 class=\"text-xl font-semibold tracking-tight\">Pages</h1>'' @
        ''<a href=\"/admin/pages/new\" class=\"rounded bg-stone-900 px-3 py-2 text-sm font-medium text-white hover:bg-stone-700\">'' @
        ''Write a page</a></div>'')] @
     search_form ''/admin/pages'' ''#page-list'' (vl_query (gl_listing l)) @
     page_region uuid_string l now"

section \<open>The editor\<close>

definition field_error :: "string \<Rightarrow> piece list" where
  "field_error msg =
     (if msg \<noteq> [] then [Raw ''<p class=\"mt-1 text-sm text-red-700\">'', Txt msg, Raw ''</p>''] else [])"

definition autosave_status :: "form \<Rightarrow> piece list" where
  "autosave_status f =
     (if form_autosave f \<and> \<not> form_is_new f then
        [Raw ''<span id=\"autosave\" class=\"ml-auto text-xs text-stone-400\" hx-post=\"'', Attr (autosave_path f),
         Raw (''\" hx-target=\"this\" hx-include=\"#editor\" hx-trigger=\"every 15s\" hx-swap=\"outerHTML\">'' @
           ''Draft saves itself</span>'')]
      else if form_is_new f then
        [Raw ''<span class=\"ml-auto text-xs text-stone-400\">Saves itself once it exists</span>'']
      else
        [Raw (''<span class=\"ml-auto text-xs text-stone-400\">Published '' @ em_dash @ '' saved only when you ask</span>'')])"

definition saved_marker :: "form \<Rightarrow> string \<Rightarrow> piece list" where
  "saved_marker f at =
     [Raw ''<span id=\"autosave\" class=\"ml-auto text-xs text-stone-400\" hx-post=\"'', Attr (autosave_path f),
      Raw ''\" hx-target=\"this\" hx-include=\"#editor\" hx-trigger=\"every 15s\" hx-swap=\"outerHTML\">Saved '', Txt at,
      Raw ''</span>'']"

definition published_marker :: "piece list" where
  "published_marker =
     [Raw (''<span id=\"autosave\" class=\"ml-auto text-xs text-stone-400\">Published '' @ em_dash @ '' saved only when you ask</span>'')]"

definition not_saved_marker :: "form \<Rightarrow> string \<Rightarrow> piece list" where
  "not_saved_marker f reason =
     [Raw ''<span id=\"autosave\" class=\"ml-auto text-xs text-red-700\" hx-post=\"'', Attr (autosave_path f),
      Raw ''\" hx-target=\"this\" hx-include=\"#editor\" hx-trigger=\"every 15s\" hx-swap=\"outerHTML\">Not saved: '', Txt reason,
      Raw ''</span>'']"

definition editor_form :: "form \<Rightarrow> piece list" where
  "editor_form f =
     [Raw ''<form id=\"editor\" method=\"post\" action=\"'', Url (save_path f),
      Raw ''\" hx-post=\"'', Attr (save_path f),
      Raw ''\" hx-target=\"this\" hx-swap=\"outerHTML\" class=\"space-y-5\">''] @
     (if form_err f [] \<noteq> [] then
        [Raw ''<p class=\"rounded border border-red-200 bg-red-50 px-3 py-2 text-sm text-red-800\">'', Txt (form_err f []), Raw ''</p>'']
      else []) @
     [Raw (''<div><label for=\"title\" class=\"mb-1 block text-sm font-medium\">Title</label>'' @
        '' <input type=\"text\" id=\"title\" name=\"title\" value=\"''), Attr (form_title f),
      Raw ''\" required autocomplete=\"off\" class=\"w-full rounded border border-stone-300 px-3 py-2 text-lg focus:border-stone-900 focus:outline-none\">''] @
     field_error (form_err f ''title'') @
     [Raw (''</div><div><label for=\"slug\" class=\"mb-1 block text-sm font-medium\">Slug</label>'' @
        '' <input type=\"text\" id=\"slug\" name=\"slug\" value=\"''), Attr (form_slug f),
      Raw (''\" required autocomplete=\"off\" pattern=\"[a-z0-9]+(-[a-z0-9]+)*\" class=\"w-full rounded border border-stone-300 px-3 py-2 font-mono text-sm focus:border-stone-900 focus:outline-none\">'' @
        ''<p class=\"mt-1 text-xs text-stone-500\">'' @
        ''The only identifier a visitor sees. It may be rewritten at any time.</p>'')] @
     field_error (form_err f ''slug'') @
     [Raw (''</div><div><label for=\"body\" class=\"mb-1 block text-sm font-medium\">Body</label>'' @
        '' <textarea id=\"body\" name=\"body\" rows=\"20\" class=\"w-full rounded border border-stone-300 px-3 py-2 font-mono text-sm focus:border-stone-900 focus:outline-none\">''), Txt (form_body_text f),
      Raw (''</textarea><p class=\"mt-1 text-xs text-stone-500\">'' @
        ''Markdown. It is stored as written and rendered on read.</p></div>'' @
        ''<div class=\"flex flex-wrap items-end gap-3 border-t border-stone-200 pt-5\"><div>'' @
        ''<label for=\"published_at\" class=\"mb-1 block text-sm font-medium\">Publication date</label>'' @
        '' <input type=\"datetime-local\" id=\"published_at\" name=\"published_at\" value=\"''), Attr (form_published_at f),
      Raw (''\" class=\"rounded border border-stone-300 px-3 py-2 text-sm focus:border-stone-900 focus:outline-none\">'' @
        ''<p class=\"mt-1 text-xs text-stone-500\">Empty is a draft; a future time schedules it. Times are ''), Txt (form_zone f),
      Raw ''.</p>''] @
     field_error (form_err f ''published_at'') @
     [Raw (''</div>'' @
        ''<button type=\"submit\" name=\"action\" value=\"save\" class=\"rounded bg-stone-900 px-4 py-2 text-sm font-medium text-white hover:bg-stone-700\">'' @
        ''Save</button>'' @
        '' <button type=\"submit\" name=\"action\" value=\"publish_now\" class=\"rounded border border-stone-300 px-4 py-2 text-sm font-medium hover:bg-stone-100\">'' @
        ''Publish now</button>'')] @
     autosave_status f @
     [Raw ''</div></form>'']"

definition editor_screen :: "form \<Rightarrow> piece list" where
  "editor_screen f =
     [Raw (''<div class=\"mb-6 flex items-baseline justify-between gap-4\">'' @
        ''<h1 class=\"text-xl font-semibold tracking-tight\">'')] @
     (if form_is_new f then [Raw ''New '', Txt (form_kind f)] else [Raw ''Edit '', Txt (form_kind f)]) @
     [Raw ''</h1><a href=\"'', Url (index_path (form_kind f)),
      Raw ''\" class=\"text-sm text-stone-500 hover:text-stone-900\">Back</a></div>''] @
     editor_form f"

section \<open>The login screen\<close>

definition login_screen_markup :: "login_form \<Rightarrow> piece list" where
  "login_screen_markup f =
     [Raw ''<div class=\"mx-auto max-w-sm\"><h1 class=\"mb-6 text-xl font-semibold tracking-tight\">Log in</h1>''] @
     (if lf_error f \<noteq> [] then
        [Raw ''<p class=\"mb-4 rounded border border-red-200 bg-red-50 px-3 py-2 text-sm text-red-800\">'', Txt (lf_error f), Raw ''</p>'']
      else []) @
     [Raw ''<form method=\"post\" action=\"/admin/login\" class=\"space-y-4\">''] @
     (if lf_next f \<noteq> [] then [Raw ''<input type=\"hidden\" name=\"next\" value=\"'', Attr (lf_next f), Raw ''\">''] else []) @
     [Raw (''<div><label for=\"password\" class=\"mb-1 block text-sm font-medium\">Password</label>'' @
        '' <input type=\"password\" id=\"password\" name=\"password\" required autofocus autocomplete=\"current-password\" class=\"w-full rounded border border-stone-300 px-3 py-2 focus:border-stone-900 focus:outline-none\">'' @
        ''</div>'' @
        ''<button type=\"submit\" class=\"rounded bg-stone-900 px-4 py-2 text-sm font-medium text-white hover:bg-stone-700\">'' @
        ''Log in</button></form></div>'')]"

section \<open>The layout\<close>

definition htmxConfig :: string where
  "htmxConfig =
     ''{\"allowEval\":false,\"responseHandling\":['' @
     ''{\"code\":\"422\",\"swap\":true},'' @
     ''{\"code\":\"204\",\"swap\":false},'' @
     ''{\"code\":\"[23]..\",\"swap\":true},'' @
     ''{\"code\":\"[45]..\",\"swap\":false,\"error\":true}]}''"

definition nav_link :: "string \<Rightarrow> string \<Rightarrow> bool \<Rightarrow> piece list" where
  "nav_link href label current =
     (if current then
        [Raw ''<a href=\"'', Url href, Raw ''\" class=\"font-medium text-stone-900 underline underline-offset-4\">'', Txt label, Raw ''</a>'']
      else
        [Raw ''<a href=\"'', Url href, Raw ''\" class=\"text-stone-500 hover:text-stone-900\">'', Txt label, Raw ''</a>''])"

definition layout :: "string \<Rightarrow> nav \<Rightarrow> piece list \<Rightarrow> piece list" where
  "layout title nv inner =
     [Raw (''<!doctype html><html lang=\"en\"><head><meta charset=\"utf-8\">'' @
        ''<meta name=\"viewport\" content=\"width=device-width, initial-scale=1\">'' @
        ''<meta name=\"htmx-config\" content=\"''), Attr htmxConfig,
      Raw ''\"><meta name=\"robots\" content=\"noindex, nofollow\"><title>'', Txt title,
      Raw (''</title><link rel=\"stylesheet\" href=\"/admin/static/app.css\">'' @
        ''<script src=\"/admin/static/htmx.min.js\" defer></script></head>'' @
        ''<body class=\"min-h-full bg-stone-50 text-stone-900 antialiased\">'' @
        ''<header class=\"border-b border-stone-200 bg-white\">'' @
        ''<div class=\"mx-auto flex max-w-4xl items-center gap-6 px-4 py-3\">'' @
        ''<span class=\"font-semibold tracking-tight\">Admin</span> '')] @
     (if nv \<noteq> NavNone then
        [Raw ''<nav class=\"flex gap-4 text-sm\">''] @
        nav_link ''/admin/posts'' ''Posts'' (nv = NavPosts) @
        nav_link ''/admin/pages'' ''Pages'' (nv = NavPages) @
        [Raw (''</nav><form method=\"post\" action=\"/admin/logout\" class=\"ml-auto\">'' @
          ''<button type=\"submit\" class=\"text-sm text-stone-500 hover:text-stone-900\">Log out</button>'' @
          ''</form>'')]
      else []) @
     [Raw ''</div></header><main class=\"mx-auto max-w-4xl px-4 py-8\">''] @
     inner @
     [Raw ''</main></body></html>'']"

section \<open>Components\<close>

primrec markup :: "(uuid \<Rightarrow> string) \<Rightarrow> component \<Rightarrow> piece list" where
  "markup us (Layout title nv c) = layout title nv (markup us c)"
| "markup us (Login f) = login_screen_markup f"
| "markup us (Posts l now) = posts_screen us l now"
| "markup us (PostRegion l now) = post_region us l now"
| "markup us (PostRows l now) = post_rows us l now"
| "markup us (Pages g now) = pages_screen us g now"
| "markup us (PageRegion g now) = page_region us g now"
| "markup us (PageRows g now) = page_rows us g now"
| "markup us (Editor f) = editor_screen f"
| "markup us (EditorForm f) = editor_form f"
| "markup us PublishedMarker = published_marker"
| "markup us (NotSavedMarker f reason) = not_saved_marker f reason"
| "markup us (Saved f at) = saved_marker f at"

end
