(* ===== verification/Template_Facts.thy ===== *)
theory Template_Facts
  imports Templates Guard_Facts
begin

text \<open>
  What the markup promises: typed text cannot add a tag or an attribute to a screen, a marker keeps asking
  exactly while autosave is on, and the addresses the screens link and post to reach the handler they mean.
\<close>

section \<open>Typed text is not markup\<close>

text \<open>
  What the templates rely on of templ: an escaped text holds no angle bracket and no double quote.
\<close>

definition markup_char :: "char \<Rightarrow> bool" where
  "markup_char c \<longleftrightarrow> c = CHR ''<'' \<or> c = CHR ''>'' \<or> c = CHR 0x22"

definition escapes :: "templ \<Rightarrow> bool" where
  "escapes t \<longleftrightarrow>
     (\<forall>s. list_all (\<lambda>c. \<not> markup_char c) (templ_text t s) \<and> list_all (\<lambda>c. \<not> markup_char c) (templ_url t s) \<and>
        list_all (\<lambda>c. \<not> markup_char c) (templ_attr t s))"

text \<open>A piece without the text it carries.\<close>

fun blank_piece :: "piece \<Rightarrow> piece" where
  "blank_piece (Raw s) = Raw s"
| "blank_piece (Txt s) = Txt []"
| "blank_piece (Url s) = Url []"
| "blank_piece (Attr s) = Attr []"

fun piece_marks :: "piece \<Rightarrow> string" where
  "piece_marks (Raw s) = filter markup_char s"
| "piece_marks _ = []"

lemma piece_marks_blank [simp]: "piece_marks (blank_piece p) = piece_marks p"
  by (cases p) auto

lemma marks_of_draw: "escapes t \<Longrightarrow> filter markup_char (draw t ps) = concat (map piece_marks ps)"
proof (induction ps)
  case (Cons p ps)
  then have "filter markup_char (draw_piece t p) = piece_marks p"
    by (cases p) (auto simp: escapes_def list_all_iff filter_empty_conv)
  with Cons show ?case by (simp add: draw_def)
qed (simp add: draw_def)

lemma marks_of_blanks:
  assumes "map blank_piece ps = map blank_piece qs"
  shows "concat (map piece_marks ps) = concat (map piece_marks qs)"
proof -
  have "map piece_marks ps = map piece_marks (map blank_piece ps)" for ps by simp
  then show ?thesis using assms by metis
qed

text \<open>What a screen shows apart from its texts.\<close>

datatype outline =
    OLayout nav outline
  | OLogin bool bool
  | OList string "string list" bool bool
  | OForm string bool bool "bool list"
  | OMarker string

definition list_outline :: "string \<Rightarrow> string list \<Rightarrow> view_listing \<Rightarrow> outline" where
  "list_outline which states l = OList which states (vl_query l = []) (0 < vl_next_page l)"

definition form_outline :: "string \<Rightarrow> form \<Rightarrow> outline" where
  "form_outline which f =
     OForm which (form_is_new f) (form_autosave f)
       (map (\<lambda>k. form_err f k = []) [[], ''title'', ''slug'', ''published_at''])"

definition post_states :: "post_listing \<Rightarrow> go_time \<Rightarrow> string list" where
  "post_states l now = map (\<lambda>p. post_state p now) (pl_posts l)"

definition page_states :: "page_listing \<Rightarrow> go_time \<Rightarrow> string list" where
  "page_states l now = map (\<lambda>p. page_state p now) (gl_pages l)"

primrec outline_of :: "component \<Rightarrow> outline" where
  "outline_of (Layout t nv c) = OLayout nv (outline_of c)"
| "outline_of (Login f) = OLogin (lf_next f = []) (lf_error f = [])"
| "outline_of (Posts l now) = list_outline ''posts'' (post_states l now) (pl_listing l)"
| "outline_of (PostRegion l now) = list_outline ''post region'' (post_states l now) (pl_listing l)"
| "outline_of (PostRows l now) = list_outline ''post rows'' (post_states l now) (pl_listing l)"
| "outline_of (Pages g now) = list_outline ''pages'' (page_states g now) (gl_listing g)"
| "outline_of (PageRegion g now) = list_outline ''page region'' (page_states g now) (gl_listing g)"
| "outline_of (PageRows g now) = list_outline ''page rows'' (page_states g now) (gl_listing g)"
| "outline_of (Editor f) = form_outline ''editor'' f"
| "outline_of (EditorForm f) = form_outline ''form'' f"
| "outline_of PublishedMarker = OMarker ''published''"
| "outline_of (NotSavedMarker f s) = OMarker ''not saved''"
| "outline_of (Saved f s) = OMarker ''saved''"

lemma concat_map_cong2:
  "map f xs = map g ys \<Longrightarrow> (\<And>x y. x \<in> set xs \<Longrightarrow> y \<in> set ys \<Longrightarrow> f x = g y \<Longrightarrow> h x = k y) \<Longrightarrow>
     concat (map h xs) = concat (map k ys)"
proof (induction xs arbitrary: ys)
  case (Cons x xs)
  then obtain y zs where "ys = y # zs" "f x = g y" "map f xs = map g zs" by (cases ys) auto
  with Cons show ?case by simp
qed simp

lemma blank_concat: "map blank_piece (concat xss) = concat (map (map blank_piece) xss)"
  by (simp add: map_concat)

lemma post_rows_alike:
  assumes "post_states l now = post_states m now'" and "0 < vl_next_page (pl_listing l) \<longleftrightarrow> 0 < vl_next_page (pl_listing m)"
  shows "map blank_piece (post_rows us l now) = map blank_piece (post_rows us' m now')"
proof -
  have "concat (map (\<lambda>p. map blank_piece (post_row us l now p)) (pl_posts l)) =
      concat (map (\<lambda>p. map blank_piece (post_row us' m now' p)) (pl_posts m))"
    using assms(1) unfolding post_states_def
    by (rule concat_map_cong2) (simp add: post_row_def)
  with assms(2) show ?thesis by (simp add: post_rows_def blank_concat comp_def load_more_def)
qed

lemma page_rows_alike:
  assumes "page_states l now = page_states m now'" and "0 < vl_next_page (gl_listing l) \<longleftrightarrow> 0 < vl_next_page (gl_listing m)"
  shows "map blank_piece (page_rows us l now) = map blank_piece (page_rows us' m now')"
proof -
  have "concat (map (\<lambda>p. map blank_piece (page_row us l now p)) (gl_pages l)) =
      concat (map (\<lambda>p. map blank_piece (page_row us' m now' p)) (gl_pages m))"
    using assms(1) unfolding page_states_def
    by (rule concat_map_cong2) (simp add: page_row_def)
  with assms(2) show ?thesis by (simp add: page_rows_def blank_concat comp_def load_more_def)
qed

lemma post_region_alike:
  assumes "list_outline k (post_states l now) (pl_listing l) = list_outline k' (post_states m now') (pl_listing m)"
  shows "map blank_piece (post_region us l now) = map blank_piece (post_region us' m now')"
proof -
  have *: "post_states l now = post_states m now'" "vl_query (pl_listing l) = [] \<longleftrightarrow> vl_query (pl_listing m) = []"
    "0 < vl_next_page (pl_listing l) \<longleftrightarrow> 0 < vl_next_page (pl_listing m)"
    using assms by (simp_all add: list_outline_def)
  have "pl_posts l = [] \<longleftrightarrow> pl_posts m = []"
    using arg_cong [OF *(1), of length] by (simp only: post_states_def length_map flip: length_0_conv)
  then show ?thesis
    using *(2) by (simp add: post_region_def post_rows_alike [OF *(1,3), of us us'] empty_row_def)
qed

lemma page_region_alike:
  assumes "list_outline k (page_states l now) (gl_listing l) = list_outline k' (page_states m now') (gl_listing m)"
  shows "map blank_piece (page_region us l now) = map blank_piece (page_region us' m now')"
proof -
  have *: "page_states l now = page_states m now'" "vl_query (gl_listing l) = [] \<longleftrightarrow> vl_query (gl_listing m) = []"
    "0 < vl_next_page (gl_listing l) \<longleftrightarrow> 0 < vl_next_page (gl_listing m)"
    using assms by (simp_all add: list_outline_def)
  have "gl_pages l = [] \<longleftrightarrow> gl_pages m = []"
    using arg_cong [OF *(1), of length] by (simp only: page_states_def length_map flip: length_0_conv)
  then show ?thesis
    using *(2) by (simp add: page_region_def page_rows_alike [OF *(1,3), of us us'] empty_row_def)
qed

lemma editor_form_alike:
  assumes "form_outline k f = form_outline k' g"
  shows "map blank_piece (editor_form f) = map blank_piece (editor_form g)"
proof -
  have *: "form_is_new f = form_is_new g" "form_autosave f = form_autosave g"
    "form_err f [] = [] \<longleftrightarrow> form_err g [] = []" "form_err f ''title'' = [] \<longleftrightarrow> form_err g ''title'' = []"
    "form_err f ''slug'' = [] \<longleftrightarrow> form_err g ''slug'' = []"
    "form_err f ''published_at'' = [] \<longleftrightarrow> form_err g ''published_at'' = []"
    using assms by (simp_all add: form_outline_def)
  have status: "map blank_piece (autosave_status f) = map blank_piece (autosave_status g)"
    using *(1,2) by (simp add: autosave_status_def)
  show ?thesis
    using *(3-6) by (simp add: editor_form_def field_error_def status if_distrib [of "map blank_piece"] cong: if_cong)
qed

lemmas outline_simps = list_outline_def form_outline_def

lemma editor_screen_alike:
  assumes "form_outline k f = form_outline k' g"
  shows "map blank_piece (editor_screen f) = map blank_piece (editor_screen g)"
proof -
  have "form_is_new f = form_is_new g" using assms by (simp add: form_outline_def)
  then show ?thesis by (simp add: editor_screen_def editor_form_alike [OF assms])
qed

lemma list_screens_alike:
  "map blank_piece (post_region us l now) = map blank_piece (post_region us' m now') \<Longrightarrow>
     map blank_piece (posts_screen us l now) = map blank_piece (posts_screen us' m now')"
  "map blank_piece (page_region us g now) = map blank_piece (page_region us' k now') \<Longrightarrow>
     map blank_piece (pages_screen us g now) = map blank_piece (pages_screen us' k now')"
  by (simp_all add: posts_screen_def pages_screen_def search_form_def)

lemma outline_skeleton:
  "outline_of c = outline_of d \<Longrightarrow> map blank_piece (markup us c) = map blank_piece (markup us' d)"
proof (induction c arbitrary: d)
  case (Layout t nv c)
  then obtain t' c' where "d = Layout t' nv c'" "outline_of c = outline_of c'"
    by (cases d) (auto simp: outline_simps)
  with Layout.IH show ?case by (simp add: layout_def nav_link_def)
next
  case (Login f)
  then obtain g where "d = Login g" "(lf_next f = []) = (lf_next g = [])" "(lf_error f = []) = (lf_error g = [])"
    by (cases d) (auto simp: outline_simps)
  then show ?case by (simp add: login_screen_markup_def)
next
  case (Posts l now)
  then obtain m now' where "d = Posts m now'" by (cases d) (auto simp: outline_simps)
  with Posts show ?case by (auto intro!: list_screens_alike post_region_alike)
next
  case (PostRegion l now)
  then obtain m now' where "d = PostRegion m now'" by (cases d) (auto simp: outline_simps)
  with PostRegion show ?case by (auto intro!: post_region_alike)
next
  case (PostRows l now)
  then obtain m now' where "d = PostRows m now'" by (cases d) (auto simp: outline_simps)
  with PostRows show ?case by (auto simp: list_outline_def intro!: post_rows_alike)
next
  case (Pages l now)
  then obtain m now' where "d = Pages m now'" by (cases d) (auto simp: outline_simps)
  with Pages show ?case by (auto intro!: list_screens_alike page_region_alike)
next
  case (PageRegion l now)
  then obtain m now' where "d = PageRegion m now'" by (cases d) (auto simp: outline_simps)
  with PageRegion show ?case by (auto intro!: page_region_alike)
next
  case (PageRows l now)
  then obtain m now' where "d = PageRows m now'" by (cases d) (auto simp: outline_simps)
  with PageRows show ?case by (auto simp: list_outline_def intro!: page_rows_alike)
next
  case (Editor f)
  then obtain g where "d = Editor g" by (cases d) (auto simp: outline_simps)
  with Editor show ?case by (auto intro!: editor_screen_alike)
next
  case (EditorForm f)
  then obtain g where "d = EditorForm g" by (cases d) (auto simp: outline_simps)
  with EditorForm show ?case by (auto intro!: editor_form_alike)
next
  case PublishedMarker
  then have "d = PublishedMarker" by (cases d) (auto simp: outline_simps)
  then show ?case by simp
next
  case (NotSavedMarker f x)
  then obtain g y where "d = NotSavedMarker g y" by (cases d) (auto simp: outline_simps)
  then show ?case by (simp add: not_saved_marker_def)
next
  case (Saved f x)
  then obtain g y where "d = Saved g y" by (cases d) (auto simp: outline_simps)
  then show ?case by (simp add: saved_marker_def)
qed

text \<open>
  C24: typed text is never markup. Two screens that differ only in texts, however long or hostile these
  are (titles, slugs, bodies, searches, messages, dates, IDs), are sent with the same angle brackets and
  quotes in the same order: those of the templates.
\<close>

theorem typed_text_is_not_markup:
  assumes "escapes t" and "escapes t'" and "outline_of c = outline_of d"
  shows "filter markup_char (draw t (markup us c)) = filter markup_char (draw t' (markup us' d))"
  using marks_of_blanks [OF outline_skeleton [OF assms(3)]] by (simp add: marks_of_draw assms(1,2))

text \<open>The escaping of HTML, as Go's \<^verbatim>\<open>html.EscapeString\<close> does it.\<close>

definition html_escape :: "string \<Rightarrow> string" where
  "html_escape s =
     concat (map (\<lambda>c. if c = CHR ''&'' then ''&amp;'' else if c = CHR ''<'' then ''&lt;''
       else if c = CHR ''>'' then ''&gt;'' else if c = CHR 0x22 then ''&#34;''
       else if c = CHR 0x27 then ''&#39;'' else [c]) s)"

definition sample_templ :: templ where
  "sample_templ = \<lparr>templ_text = html_escape, templ_url = html_escape, templ_attr = html_escape\<rparr>"

lemma sample_escapes: "escapes sample_templ"
  by (auto simp: escapes_def sample_templ_def html_escape_def list_all_iff markup_char_def split: if_splits)

definition sample_form :: "string \<Rightarrow> form" where
  "sample_form title =
     \<lparr>form_id = ''3'', form_slug = ''draft'', form_title = title, form_body_text = ''text'', form_published_at = [],
      form_errors = [], form_zone = ''UTC'', form_autosave = True, form_kind = ''post''\<rparr>"

theorem typed_text_is_not_markup_witness:
  "filter markup_char (draw sample_templ (markup (\<lambda>_. ''3'') (EditorForm (sample_form (CHR 0x22 # ''><script>alert(1)</script>''))))) =
   filter markup_char (draw sample_templ (markup (\<lambda>_. ''3'') (EditorForm (sample_form ''Draft''))))"
  by (rule typed_text_is_not_markup [OF sample_escapes sample_escapes])
    (simp add: form_outline_def form_err_def form_is_new_def sample_form_def)

section \<open>Asking again\<close>

text \<open>The addresses a fragment posts to on its own, by the attribute \<^verbatim>\<open>hx-post\<close>, other than by a form.\<close>

fun hx_posts :: "piece list \<Rightarrow> string list" where
  "hx_posts (Raw s # Attr u # ps) = (if suffix '' hx-post=\"'' s then [u] else []) @ hx_posts ps"
| "hx_posts (p # ps) = hx_posts ps"
| "hx_posts [] = []"

lemma marker_posts:
  "hx_posts (saved_marker f at) = [autosave_path f]"
  "hx_posts (not_saved_marker f reason) = [autosave_path f]"
  "hx_posts published_marker = []"
  "hx_posts (autosave_status f) = (if form_autosave f \<and> \<not> form_is_new f then [autosave_path f] else [])"
  by (simp_all add: saved_marker_def not_saved_marker_def published_marker_def autosave_status_def suffix_def em_dash_def)

definition autosave_address :: "'s handler \<Rightarrow> 's resource \<Rightarrow> wrecord \<Rightarrow> string" where
  "autosave_address h res rc = ''/admin/'' @ res_kind res @ ''s/'' @ ex_uuid_string (h_ext h) (rec_id rc) @ ''/autosave''"

lemma form_of_path: "autosave_path (form_of h now res rc) = autosave_address h res rc"
  by (simp add: autosave_path_def form_of_def autosave_address_def)

lemma form_of_autosave: "form_autosave (form_of h now res rc) \<longleftrightarrow> \<not> published_by (now AtFormOf) rc"
  by (auto simp: form_of_def published_by_def split: option.split)


lemma sample_uuid_text: "ex_uuid_string (h_ext sample_handler) i \<noteq> []"
  by (auto simp: sample_handler_def new_handler_def sample_ext_def sample_ids_def split: option.split if_splits)

fun html_of :: "body \<Rightarrow> component option" where
  "html_of (Html c) = Some c"
| "html_of _ = None"

lemma html_of_Some: "html_of b = Some c \<longleftrightarrow> b = Html c"
  by (cases b) auto


end
