(* ===== verification/Markup_Facts.thy ===== *)
theory Markup_Facts
  imports Template_Facts
begin

text \<open>
  The screens are well formed: an automaton reads the bytes that are sent, with a stack of the elements that
  are open, and every component of the templates, whatever its texts are, leaves it where it found it.
\<close>

section \<open>Reading markup\<close>

text \<open>
  Between tags; in the name of a tag, held in reverse; after the name; in a quoted value; or past an error.
  All but the last carry the elements that are open, the innermost first.
\<close>

datatype reader =
    Content "string list"
  | TagName string "string list"
  | Attributes string "string list"
  | Quoted string "string list"
  | Malformed

definition void_elements :: "string list" where
  "void_elements = [''meta'', ''link'', ''input'', ''!doctype'']"

text \<open>The end of a tag with this name: an element is closed only if it is the innermost one.\<close>

definition tag_ends :: "string \<Rightarrow> string list \<Rightarrow> reader" where
  "tag_ends name st =
     (if name \<in> set void_elements then Content st
      else case name of
        [] \<Rightarrow> Malformed
      | c # cs \<Rightarrow>
          if c \<noteq> CHR ''/'' then Content (name # st)
          else case st of [] \<Rightarrow> Malformed | e # es \<Rightarrow> if e = cs then Content es else Malformed)"

fun read_char :: "reader \<Rightarrow> char \<Rightarrow> reader" where
  "read_char (Content st) c =
     (if c = CHR ''<'' then TagName [] st else if c = CHR ''>'' then Malformed else Content st)"
| "read_char (TagName n st) c =
     (if c = CHR ''>'' then tag_ends (rev n) st
      else if c = CHR '' '' then Attributes (rev n) st
      else if markup_char c then Malformed
      else TagName (c # n) st)"
| "read_char (Attributes n st) c =
     (if c = CHR ''>'' then tag_ends n st
      else if c = CHR 0x22 then Quoted n st
      else if c = CHR ''<'' then Malformed
      else Attributes n st)"
| "read_char (Quoted n st) c = (if c = CHR 0x22 then Attributes n st else Quoted n st)"
| "read_char Malformed c = Malformed"

definition read_markup :: "reader \<Rightarrow> string \<Rightarrow> reader" where
  "read_markup = foldl read_char"

text \<open>A document or a part of one that leaves every element closed, and closes nothing it has not opened.\<close>

definition well_formed :: "string \<Rightarrow> bool" where
  "well_formed s \<longleftrightarrow> (\<forall>st. read_markup (Content st) s = Content st)"

lemma read_markup_simps [simp]:
  "read_markup r [] = r"
  "read_markup r (s @ s') = read_markup (read_markup r s) s'"
  by (simp_all add: read_markup_def)

lemma read_markup_Cons: "read_markup r (c # s) = read_markup (read_char r c) s"
  by (simp add: read_markup_def)

lemma read_escaped:
  "list_all (\<lambda>c. \<not> markup_char c) s \<Longrightarrow> read_markup (Content st) s = Content st"
  "list_all (\<lambda>c. \<not> markup_char c) s \<Longrightarrow> read_markup (Quoted n st) s = Quoted n st"
  by (induction s) (auto simp: read_markup_Cons markup_char_def)

text \<open>Where the reader is after a piece: a text is read between tags or within quotes only.\<close>

fun read_piece :: "reader \<Rightarrow> piece \<Rightarrow> reader" where
  "read_piece r (Raw s) = read_markup r s"
| "read_piece (Content st) p = (case p of Txt _ \<Rightarrow> Content st | _ \<Rightarrow> Malformed)"
| "read_piece (Quoted n st) p = (case p of Txt _ \<Rightarrow> Malformed | _ \<Rightarrow> Quoted n st)"
| "read_piece r p = Malformed"

abbreviation read_pieces :: "reader \<Rightarrow> piece list \<Rightarrow> reader" where
  "read_pieces \<equiv> foldl read_piece"

lemma read_malformed [simp]: "read_markup Malformed s = Malformed" "read_pieces Malformed ps = Malformed"
proof -
  show s: "read_markup Malformed s = Malformed" for s by (induction s) (simp_all add: read_markup_Cons)
  have "read_piece Malformed p = Malformed" for p by (cases p) (simp_all add: s)
  then show "read_pieces Malformed ps = Malformed" by (induction ps) simp_all
qed

lemma read_piece_drawn:
  assumes "escapes t" and "read_piece r p \<noteq> Malformed"
  shows "read_markup r (draw_piece t p) = read_piece r p"
  using assms by (cases p; cases r) (simp_all add: escapes_def read_escaped)

lemma read_drawn:
  assumes "escapes t" and "read_pieces r ps = Content st"
  shows "read_markup r (draw t ps) = Content st"
  using assms(2)
proof (induction ps arbitrary: r)
  case (Cons p ps)
  then have "read_piece r p \<noteq> Malformed" by auto
  then show ?case using Cons by (simp add: draw_def read_piece_drawn [OF assms(1)])
qed (simp add: draw_def)

section \<open>The templates\<close>

definition balanced :: "piece list \<Rightarrow> bool" where
  "balanced ps \<longleftrightarrow> (\<forall>st. read_pieces (Content st) ps = Content st)"

named_theorems templates

lemma balanced_Nil [templates]: "balanced []"
  by (simp add: balanced_def)

lemma balanced_append [templates]: "balanced ps \<Longrightarrow> balanced qs \<Longrightarrow> balanced (ps @ qs)"
  by (simp add: balanced_def)

lemma balanced_concat [templates]: "(\<And>x. x \<in> set xs \<Longrightarrow> balanced (f x)) \<Longrightarrow> balanced (concat (map f xs))"
  by (induction xs) (auto intro: templates)

lemma balanced_text [templates]: "balanced [Txt s]"
  by (simp add: balanced_def)

text \<open>The reading of literal markup, character by character.\<close>

lemmas read_literal = read_markup_Cons tag_ends_def void_elements_def markup_char_def

lemma read_append: "read_pieces r (ps @ qs) = read_pieces (read_pieces r ps) qs"
  by simp

lemma read_balanced: "balanced ps \<Longrightarrow> read_pieces (Content st) ps = Content st"
  by (simp add: balanced_def)

lemma search_form_balanced [templates]: "balanced (search_form action target query)"
  and load_more_balanced [templates]: "balanced (load_more href)"
  and empty_row_balanced [templates]: "balanced (empty_row query)"
  and state_badge_balanced [templates]: "balanced (state_badge s)"
  and field_error_balanced [templates]: "balanced (field_error msg)"
  and nav_link_balanced [templates]: "balanced (nav_link href label current)"
  by (simp_all add: balanced_def search_form_def load_more_def empty_row_def state_badge_def field_error_def nav_link_def read_literal)

lemma markers_balanced [templates]:
  "balanced (autosave_status f)" "balanced (saved_marker f at)" "balanced published_marker" "balanced (not_saved_marker f s)"
  by (simp_all add: balanced_def autosave_status_def saved_marker_def published_marker_def not_saved_marker_def em_dash_def read_literal)

lemmas read_parts = templates [THEN read_balanced]

lemma rows_balanced [templates]: "balanced (post_row us l now p)" "balanced (page_row us g now q)"
  by (simp_all add: balanced_def post_row_def page_row_def read_literal read_parts)

lemma lists_balanced [templates]: "balanced (post_rows us l now)" "balanced (page_rows us g now)"
  by (auto simp: post_rows_def page_rows_def intro!: templates)

lemma regions_balanced [templates]: "balanced (post_region us l now)" "balanced (page_region us g now)"
  by (simp_all add: balanced_def post_region_def page_region_def read_literal read_parts lists_balanced [THEN read_balanced])

lemma list_screens_balanced [templates]: "balanced (posts_screen us l now)" "balanced (pages_screen us g now)"
  by (simp_all add: balanced_def posts_screen_def pages_screen_def read_literal read_parts regions_balanced [THEN read_balanced])

lemma editor_form_balanced [templates]: "balanced (editor_form f)"
  by (simp add: balanced_def editor_form_def read_literal read_parts)

lemma editor_screen_balanced [templates]: "balanced (editor_screen f)"
  by (simp add: balanced_def editor_screen_def read_literal editor_form_balanced [THEN read_balanced])

lemma login_screen_balanced [templates]: "balanced (login_screen_markup f)"
  by (simp add: balanced_def login_screen_markup_def read_literal)

lemma layout_balanced [templates]: "balanced inner \<Longrightarrow> balanced (layout title nv inner)"
  by (simp add: balanced_def layout_def read_literal nav_link_balanced [THEN read_balanced])

lemma markup_balanced: "balanced (markup us c)"
  by (induction c) (auto intro: templates)

text \<open>
  C23: every screen, fragment and marker the site sends is well-formed markup: whatever the texts on it are,
  each tag closes the element that was opened last, every element that is opened is closed, and every text
  stands between tags or within a quoted value.
\<close>

theorem screens_are_well_formed:
  assumes "escapes t"
  shows "well_formed (draw t (markup us c)) \<and> balanced (markup us c)"
  using markup_balanced [of us c] by (auto simp: well_formed_def balanced_def intro: read_drawn [OF assms])

theorem screens_are_well_formed_witness:
  "well_formed (draw sample_templ (markup (\<lambda>_. ''3'')
     (Layout ''Admin'' NavPosts (Editor (sample_form (CHR 0x22 # ''></form><script>alert(1)</script>''))))))"
  by (rule screens_are_well_formed [OF sample_escapes, THEN conjunct1])

end
