(* ===== verification/Route_Facts.thy ===== *)
theory Route_Facts
  imports Guard_Facts
begin

text \<open>
  The routes: no two patterns match one request, so the order they are registered in means nothing, and
  every address a screen links or posts to is matched by the pattern of the handler it means.
\<close>

section \<open>Patterns do not overlap\<close>

fun segments_meet :: "segment \<Rightarrow> segment \<Rightarrow> bool" where
  "segments_meet (Seg a) (Seg b) \<longleftrightarrow> a = b"
| "segments_meet EndSlash (Seg a) \<longleftrightarrow> a = []"
| "segments_meet (Seg a) EndSlash \<longleftrightarrow> a = []"
| "segments_meet EndSlash AnyId \<longleftrightarrow> False"
| "segments_meet AnyId EndSlash \<longleftrightarrow> False"
| "segments_meet _ _ \<longleftrightarrow> True"

text \<open>Whether some path could match both patterns; a safe approximation, which these patterns do not need.\<close>

fun overlap :: "segment list \<Rightarrow> segment list \<Rightarrow> bool" where
  "overlap [] [] \<longleftrightarrow> True"
| "overlap [] (p # ps) \<longleftrightarrow> False"
| "overlap (p # ps) [] \<longleftrightarrow> False"
| "overlap (p # ps) (q # qs) \<longleftrightarrow> p = AnyRest \<or> q = AnyRest \<or> segments_meet p q \<and> overlap ps qs"

lemma match_Nil [simp]: "match_segments [] ss = Some y \<longleftrightarrow> ss = [] \<and> y = []"
  by (cases ss) auto

lemma match_Cons_Nil [simp]: "match_segments (p # ps) [] = None"
  by (cases p; cases ps) auto

lemma match_Cons:
  assumes "match_segments (p # ps) (s # ss) \<noteq> None" and "p \<noteq> AnyRest"
  shows "match_segments ps ss \<noteq> None \<and> (case p of Seg a \<Rightarrow> s = a | AnyId \<Rightarrow> s \<noteq> [] | _ \<Rightarrow> s = [])"
  using assms by (cases p; cases ps; cases ss) (auto split: if_splits option.splits)

lemma match_both_overlap:
  "match_segments ps ss \<noteq> None \<Longrightarrow> match_segments qs ss \<noteq> None \<Longrightarrow> overlap ps qs"
proof (induction ps qs arbitrary: ss rule: overlap.induct)
  case (4 p ps q qs)
  then obtain s rest where ss: "ss = s # rest" by (cases ss) auto
  show ?case
  proof (cases "p = AnyRest \<or> q = AnyRest")
    case False
    with 4 match_Cons [of p ps s rest] match_Cons [of q qs s rest] ss show ?thesis
      by (cases p; cases q) auto
  qed auto
qed auto

type_synonym pattern = "string \<times> segment list \<times> route"

definition clash :: "pattern \<Rightarrow> pattern \<Rightarrow> bool" where
  "clash a b \<longleftrightarrow> fst a = fst b \<and> overlap (fst (snd a)) (fst (snd b))"

lemma patterns_apart: "sorted_wrt (\<lambda>a b. \<not> clash a b) (public_patterns @ guarded_patterns)"
  by code_simp

definition pattern_matches :: "request \<Rightarrow> pattern \<Rightarrow> bool" where
  "pattern_matches r p \<longleftrightarrow> method_matches (fst p) r \<and> match_segments (fst (snd p)) (path_segments r) \<noteq> None"

lemma pattern_methods: "p \<in> set (public_patterns @ guarded_patterns) \<Longrightarrow> fst p \<in> {''GET'', ''POST''}"
  by (auto simp: public_patterns_def guarded_patterns_def)

lemma matching_clash:
  assumes "pattern_matches r p" and "pattern_matches r q"
    and "fst p \<in> {''GET'', ''POST''}" and "fst q \<in> {''GET'', ''POST''}"
  shows "clash p q"
  using assms match_both_overlap [of "fst (snd p)" "path_segments r" "fst (snd q)"]
  by (auto simp: pattern_matches_def clash_def method_matches_def)

lemma one_matches:
  assumes "sorted_wrt (\<lambda>a b. \<not> clash a b) ps" and "\<forall>p \<in> set ps. fst p \<in> {''GET'', ''POST''}"
  shows "length (filter (pattern_matches r) ps) \<le> 1"
  using assms
proof (induction ps)
  case (Cons p ps)
  show ?case
  proof (cases "pattern_matches r p")
    case True
    have "\<not> pattern_matches r q" if "q \<in> set ps" for q
      using Cons.prems that matching_clash [OF True, of q] by auto
    then have "filter (pattern_matches r) ps = []" by (simp add: filter_empty_conv)
    with True show ?thesis by simp
  next
    case False
    with Cons show ?thesis by simp
  qed
qed simp

lemma find_route_filter:
  "find_route ps r =
     (case filter (pattern_matches r) ps of
        [] \<Rightarrow> None
      | p # _ \<Rightarrow> map_option (Pair (snd (snd p))) (match_segments (fst (snd p)) (path_segments r)))"
proof (induction ps)
  case (Cons p ps)
  obtain m segs rt where p: "p = (m, segs, rt)" by (cases p)
  show ?case
    using Cons by (cases "match_segments segs (path_segments r)")
      (auto simp: find_route_def pattern_matches_def p List.map_filter_simps)
qed (simp add: find_route_def List.map_filter_simps)

lemma find_route_unique:
  assumes "length (filter (pattern_matches r) ps) \<le> 1"
  shows "find_route ps r = Some (rt, i) \<longleftrightarrow>
    (\<exists>m segs. (m, segs, rt) \<in> set ps \<and> method_matches m r \<and> match_segments segs (path_segments r) = Some i)"
proof
  assume "find_route ps r = Some (rt, i)"
  then show "\<exists>m segs. (m, segs, rt) \<in> set ps \<and> method_matches m r \<and> match_segments segs (path_segments r) = Some i"
    by (rule find_route_in)
next
  assume "\<exists>m segs. (m, segs, rt) \<in> set ps \<and> method_matches m r \<and> match_segments segs (path_segments r) = Some i"
  then obtain m segs where p: "(m, segs, rt) \<in> set ps" "method_matches m r"
    "match_segments segs (path_segments r) = Some i" by (elim exE conjE)
  then have "(m, segs, rt) \<in> set (filter (pattern_matches r) ps)" by (simp add: pattern_matches_def)
  with assms have "filter (pattern_matches r) ps = [(m, segs, rt)]"
    by (cases "filter (pattern_matches r) ps") auto
  with p(3) show "find_route ps r = Some (rt, i)" by (simp add: find_route_filter)
qed

lemma all_one: "length (filter (pattern_matches r) (public_patterns @ guarded_patterns)) \<le> 1"
  using pattern_methods by (intro one_matches patterns_apart) blast

lemma public_one: "length (filter (pattern_matches r) public_patterns) \<le> 1"
  and guarded_one: "length (filter (pattern_matches r) guarded_patterns) \<le> 1"
  using all_one [of r] by simp_all

text \<open>
  The routes do not depend on the order of their registration: a request has at most one matching
  pattern among all of them, and it is served by a route exactly if the pattern of this route matches its
  method and its path.
\<close>

theorem routes_have_one_reading:
  "length (filter (pattern_matches r) (public_patterns @ guarded_patterns)) \<le> 1 \<and>
   (find_route public_patterns r = Some (rt, i) \<longleftrightarrow>
     (\<exists>m segs. (m, segs, rt) \<in> set public_patterns \<and> method_matches m r \<and> match_segments segs (path_segments r) = Some i)) \<and>
   (find_route guarded_patterns r = Some (rt, i) \<longleftrightarrow>
     (\<exists>m segs. (m, segs, rt) \<in> set guarded_patterns \<and> method_matches m r \<and> match_segments segs (path_segments r) = Some i))"
  by (intro conjI all_one find_route_unique public_one guarded_one)

section \<open>Addresses\<close>

text \<open>The text of an ID: what \<^verbatim>\<open>UUID.String\<close> returns is of hexadecimal digits and hyphens.\<close>

definition plain_id :: "string \<Rightarrow> bool" where
  "plain_id i \<longleftrightarrow> i \<noteq> [] \<and> list_all (\<lambda>c. c \<noteq> CHR ''/'' \<and> c \<noteq> CHR ''%'') i"

lemma path_unescape_plain: "list_all (\<lambda>c. c \<noteq> CHR ''%'') s \<Longrightarrow> path_unescape s = Some s"
  by (induction s) auto

lemma path_segments_join:
  assumes "segs \<noteq> []" and "list_all (\<lambda>s. list_all (\<lambda>c. c \<noteq> CHR ''/'' \<and> c \<noteq> CHR ''%'') s) segs"
    and "escaped_path r = CHR ''/'' # join ''/'' segs"
  shows "path_segments r = segs"
proof -
  have "list_all (\<lambda>s. CHR ''/'' \<notin> set s) segs" using assms(2) by (auto simp: list_all_iff)
  then have "split_on (CHR ''/'') (escaped_path r) = [] # segs"
    by (simp add: assms(3) split_on_join [OF assms(1)])
  moreover have "path_unescape s = Some s" if "s \<in> set segs" for s
    using assms(2) that by (intro path_unescape_plain) (auto simp: list_all_iff)
  then have "map (\<lambda>s. case path_unescape s of Some u \<Rightarrow> u | None \<Rightarrow> s) segs = segs"
    by (intro map_idI) simp
  ultimately show ?thesis by (simp add: path_segments_def)
qed

definition edit_address :: "string \<Rightarrow> string \<Rightarrow> string" where
  "edit_address kind i = ''/admin/'' @ kind @ ''s/'' @ i @ ''/edit''"

text \<open>Where a method and an address lead behind the session.\<close>

definition leads_to :: "string \<Rightarrow> string \<Rightarrow> (route \<times> string) option" where
  "leads_to m path =
     (if find_route public_patterns (sample_request\<lparr>req_method := m, escaped_path := path\<rparr>) \<noteq> None then None
      else find_route guarded_patterns (sample_request\<lparr>req_method := m, escaped_path := path\<rparr>))"

lemma leads_toI:
  assumes "path = CHR ''/'' # join ''/'' ss" and "ss \<noteq> []"
    and "list_all (\<lambda>s. list_all (\<lambda>c. c \<noteq> CHR ''/'' \<and> c \<noteq> CHR ''%'') s) ss"
    and "(m, segs, rt) \<in> set guarded_patterns" and "match_segments segs ss = Some i"
  shows "leads_to m path = Some (rt, i)"
proof -
  let ?r = "sample_request\<lparr>req_method := m, escaped_path := path\<rparr>"
  have segs: "path_segments ?r = ss"
    using assms(1-3) by (intro path_segments_join) simp_all
  have "method_matches m ?r" by (simp add: method_matches_def)
  then have found: "find_route guarded_patterns ?r = Some (rt, i)" and match: "pattern_matches ?r (m, segs, rt)"
    using assms(4,5) guarded_one [of ?r] by (auto simp: find_route_unique segs pattern_matches_def)
  have "filter (pattern_matches ?r) guarded_patterns \<noteq> []"
    using match assms(4) by (auto simp: filter_empty_conv)
  then have "length (filter (pattern_matches ?r) guarded_patterns) \<ge> 1"
    by (cases "filter (pattern_matches ?r) guarded_patterns") auto
  then have "filter (pattern_matches ?r) public_patterns = []"
    using all_one [of ?r] by (simp only: filter_append length_append flip: length_0_conv)
  then have "find_route public_patterns ?r = None" by (simp add: find_route_filter)
  with found show ?thesis by (simp add: leads_to_def)
qed

text \<open>
  C39: the addresses on the screens reach the handlers they mean, with the ID they name: the list, the
  editor, saving something new, saving something old, and autosave, of posts and of pages alike.
\<close>

theorem addresses_reach_their_handlers:
  assumes "plain_id i" and "form_id f = i" and "form_is_new g" and "form_kind f = form_kind g"
    and "form_kind g = kind" and "kind \<in> {''post'', ''page''}"
  shows "(leads_to ''GET'' (index_path kind), leads_to ''POST'' (save_path g), leads_to ''GET'' (edit_address kind i),
      leads_to ''POST'' (save_path f), leads_to ''POST'' (autosave_path f)) =
    (if kind = ''post''
     then (Some (ListPosts, []), Some (CreatePost, []), Some (EditPost, i), Some (UpdatePost, i), Some (AutosavePost, i))
     else (Some (ListPages, []), Some (CreatePage, []), Some (EditPage, i), Some (UpdatePage, i), Some (AutosavePage, i)))"
proof -
  have i: "i \<noteq> []" "list_all (\<lambda>c. c \<noteq> CHR ''/'' \<and> c \<noteq> CHR ''%'') i"
    using assms(1) by (simp_all add: plain_id_def)
  note at = index_path_def save_path_def edit_address_def autosave_path_def form_is_new_def
  note list = leads_toI [of _ "[''admin'', k]" "''GET''" "[Seg ''admin'', Seg k]" _ "[]" for k]
  note create = leads_toI [of _ "[''admin'', k]" "''POST''" "[Seg ''admin'', Seg k]" _ "[]" for k]
  note edit = leads_toI [of _ "[''admin'', k, i, ''edit'']" "''GET''" "[Seg ''admin'', Seg k, AnyId, Seg ''edit'']" _ i for k]
  note update = leads_toI [of _ "[''admin'', k, i]" "''POST''" "[Seg ''admin'', Seg k, AnyId]" _ i for k]
  note auto = leads_toI [of _ "[''admin'', k, i, ''autosave'']" "''POST''" "[Seg ''admin'', Seg k, AnyId, Seg ''autosave'']" _ i for k]
  show ?thesis
  proof (cases "kind = ''post''")
    case True
    with assms i have "leads_to ''GET'' (index_path kind) = Some (ListPosts, [])"
      by (intro list [of _ "''posts''"]) (simp_all add: at guarded_patterns_def)
    moreover from True assms i have "leads_to ''POST'' (save_path g) = Some (CreatePost, [])"
      by (intro create [of _ "''posts''"]) (simp_all add: at guarded_patterns_def)
    moreover from True assms i have "leads_to ''GET'' (edit_address kind i) = Some (EditPost, i)"
      by (intro edit [of _ "''posts''"]) (simp_all add: at guarded_patterns_def)
    moreover from True assms i have "leads_to ''POST'' (save_path f) = Some (UpdatePost, i)"
      by (intro update [of _ "''posts''"]) (simp_all add: at guarded_patterns_def)
    moreover from True assms i have "leads_to ''POST'' (autosave_path f) = Some (AutosavePost, i)"
      by (intro auto [of _ "''posts''"]) (simp_all add: at guarded_patterns_def)
    ultimately show ?thesis using True by simp
  next
    case False
    with assms(6) have page: "kind = ''page''" by simp
    with assms i have "leads_to ''GET'' (index_path kind) = Some (ListPages, [])"
      by (intro list [of _ "''pages''"]) (simp_all add: at guarded_patterns_def)
    moreover from page assms i have "leads_to ''POST'' (save_path g) = Some (CreatePage, [])"
      by (intro create [of _ "''pages''"]) (simp_all add: at guarded_patterns_def)
    moreover from page assms i have "leads_to ''GET'' (edit_address kind i) = Some (EditPage, i)"
      by (intro edit [of _ "''pages''"]) (simp_all add: at guarded_patterns_def)
    moreover from page assms i have "leads_to ''POST'' (save_path f) = Some (UpdatePage, i)"
      by (intro update [of _ "''pages''"]) (simp_all add: at guarded_patterns_def)
    moreover from page assms i have "leads_to ''POST'' (autosave_path f) = Some (AutosavePage, i)"
      by (intro auto [of _ "''pages''"]) (simp_all add: at guarded_patterns_def)
    ultimately show ?thesis using page by simp
  qed
qed

theorem addresses_reach_their_handlers_witness:
  "leads_to ''POST'' ''/admin/posts/3/autosave'' = Some (AutosavePost, ''3'')"
proof -
  let ?f = "\<lparr>form_id = ''3'', form_slug = [], form_title = [], form_body_text = [], form_published_at = [],
     form_errors = [], form_zone = [], form_autosave = True, form_kind = ''post''\<rparr>"
  let ?g = "?f\<lparr>form_id := []\<rparr>"
  have "plain_id ''3''" "form_id ?f = ''3''" "form_is_new ?g" "form_kind ?f = form_kind ?g" "form_kind ?g = ''post''"
    "''post'' \<in> {''post'', ''page''}" "autosave_path ?f = ''/admin/posts/3/autosave''"
    by (simp_all add: plain_id_def form_is_new_def autosave_path_def)
  then show ?thesis using addresses_reach_their_handlers [of "''3''" ?f ?g "''post''"] by simp
qed

end
