(* ===== verification/Migrate.thy ===== *)
theory Migrate
  imports Prelude "HOL-Library.Char_ord" "HOL-Library.List_Lexorder"
begin

text \<open>
  \<^verbatim>\<open>internal/database\<close>: connecting, the pending migrations, and migrating under the advisory lock. The
  answers of pop, the driver and PostgreSQL are the fields of an environment; an operation returns its
  error and the effects it had on the outside, in order, the deferred ones included.
\<close>

section \<open>The environment\<close>

record migration =
  mig_version :: string
  mig_name :: string

text \<open>
  An error is \<^const>\<open>Some\<close> of its text. \<open>env_box\<close> is what \<^verbatim>\<open>pop.NewMigrationBox\<close> makes of the embedded
  files, its up migrations.
\<close>

record migrate_env =
  env_new_connection :: "string option"
  env_open :: "string option"
  env_ping :: "string option"
  env_sub :: "string option"
  env_box :: "string + migration list"
  env_table :: string
  env_exists :: "string + bool"
  env_versions :: "string + string list"
  env_lock_open :: "string option"
  env_lock_session :: "string option"
  env_lock_acquire :: "string option"
  env_run_up :: "string option"
  env_run_down :: "int \<Rightarrow> string option"

datatype db_error =
    DatabaseError string
  | MigrationsError string
  | CheckingTable string string
  | ReadingTable string string
  | OpeningLockConnection string
  | AcquiringLock string
  | RefusingRollback "string list"
  | PopError string

datatype db_effect =
    ConnOpen | ConnClose
  | LockDbOpen | LockDbClose | SessionOpen | SessionClose | Lock | Unlock
  | RunUp | RunDown int

section \<open>Connecting\<close>

definition ping :: "migrate_env \<Rightarrow> db_error option" where
  "ping env = map_option DatabaseError (env_ping env)"

definition open_database :: "migrate_env \<Rightarrow> (db_error + unit) \<times> db_effect list" where
  "open_database env =
     (case env_new_connection env of
        Some e \<Rightarrow> (Inl (DatabaseError e), [])
      | None \<Rightarrow>
     (case env_open env of
        Some e \<Rightarrow> (Inl (DatabaseError e), [])
      | None \<Rightarrow>
     (case ping env of
        Some e \<Rightarrow> (Inl e, [ConnOpen, ConnClose])
      | None \<Rightarrow> (Inr (), [ConnOpen]))))"

section \<open>Migrations\<close>

definition new_migrator :: "migrate_env \<Rightarrow> db_error + migration list" where
  "new_migrator env =
     (case env_sub env of
        Some e \<Rightarrow> Inl (MigrationsError e)
      | None \<Rightarrow>
     (case env_box env of
        Inl e \<Rightarrow> Inl (MigrationsError e)
      | Inr ms \<Rightarrow> Inr ms))"

definition migration_label :: "migration \<Rightarrow> string" where
  "migration_label m = mig_version m @ ''_'' @ mig_name m"

text \<open>\<^verbatim>\<open>sort.Strings\<close> sorts by bytes; on labels that are equal it makes no difference that it is not stable.\<close>

definition pending_of :: "string list \<Rightarrow> migration list \<Rightarrow> string list" where
  "pending_of applied ms = sort (map migration_label (filter (\<lambda>m. mig_version m \<notin> set applied) ms))"

definition applied_versions :: "migrate_env \<Rightarrow> db_error + string list" where
  "applied_versions env =
     (case env_exists env of
        Inl e \<Rightarrow> Inl (CheckingTable (env_table env) e)
      | Inr False \<Rightarrow> Inr []
      | Inr True \<Rightarrow>
          (case env_versions env of Inl e \<Rightarrow> Inl (ReadingTable (env_table env) e) | Inr vs \<Rightarrow> Inr vs))"

definition pending :: "migrate_env \<Rightarrow> db_error + string list" where
  "pending env =
     (case new_migrator env of
        Inl e \<Rightarrow> Inl e
      | Inr ms \<Rightarrow> (case applied_versions env of Inl e \<Rightarrow> Inl e | Inr vs \<Rightarrow> Inr (pending_of vs ms)))"

section \<open>The lock\<close>

definition migration_lock_id :: int where
  "migration_lock_id = 8072026091505"

definition lock_migrations :: "migrate_env \<Rightarrow> (db_error + unit) \<times> db_effect list" where
  "lock_migrations env =
     (case env_lock_open env of
        Some e \<Rightarrow> (Inl (OpeningLockConnection e), [])
      | None \<Rightarrow>
     (case env_lock_session env of
        Some e \<Rightarrow> (Inl (OpeningLockConnection e), [LockDbOpen, LockDbClose])
      | None \<Rightarrow>
     (case env_lock_acquire env of
        Some e \<Rightarrow> (Inl (AcquiringLock e), [LockDbOpen, SessionOpen, SessionClose, LockDbClose])
      | None \<Rightarrow> (Inr (), [LockDbOpen, SessionOpen, Lock]))))"

text \<open>The function \<^verbatim>\<open>lockMigrations\<close> returns, which its callers defer.\<close>

definition unlock_effects :: "db_effect list" where
  "unlock_effects = [Unlock, SessionClose, LockDbClose]"

section \<open>Up and down\<close>

definition migrate_up :: "migrate_env \<Rightarrow> db_error option \<times> db_effect list" where
  "migrate_up env =
     (case lock_migrations env of
        (Inl e, es) \<Rightarrow> (Some e, es)
      | (Inr _, es) \<Rightarrow>
          (case new_migrator env of
             Inl e \<Rightarrow> (Some e, es @ unlock_effects)
           | Inr ms \<Rightarrow> (map_option PopError (env_run_up env), es @ [RunUp] @ unlock_effects)))"

definition migrate_down :: "migrate_env \<Rightarrow> int \<Rightarrow> db_error option \<times> db_effect list" where
  "migrate_down env steps =
     (case pending env of
        Inl e \<Rightarrow> (Some e, [])
      | Inr ps \<Rightarrow>
          if ps \<noteq> [] then (Some (RefusingRollback ps), [])
          else
            (case lock_migrations env of
               (Inl e, es) \<Rightarrow> (Some e, es)
             | (Inr _, es) \<Rightarrow>
                 (case new_migrator env of
                    Inl e \<Rightarrow> (Some e, es @ unlock_effects)
                  | Inr ms \<Rightarrow> (map_option PopError (env_run_down env steps), es @ [RunDown steps] @ unlock_effects))))"

text \<open>\<open>table\<close> is what pop's migrator prints, or its error.\<close>

definition migrate_status :: "migrate_env \<Rightarrow> string + string \<Rightarrow> db_error + string" where
  "migrate_status env table =
     (case new_migrator env of
        Inl e \<Rightarrow> Inl e
      | Inr _ \<Rightarrow> (case table of Inl e \<Rightarrow> Inl (PopError e) | Inr out \<Rightarrow> Inr out))"

section \<open>What the lock is for\<close>

text \<open>
  The effects of one process, watched: whether the database of the lock, its session and the lock are
  open. A migration run without the lock, or anything out of order, is \<^const>\<open>None\<close>.
\<close>

primrec watch_step :: "bool \<times> bool \<times> bool \<Rightarrow> db_effect \<Rightarrow> (bool \<times> bool \<times> bool) option" where
  "watch_step s ConnOpen = None"
| "watch_step s ConnClose = None"
| "watch_step s LockDbOpen = (if s = (False, False, False) then Some (True, False, False) else None)"
| "watch_step s SessionOpen = (if s = (True, False, False) then Some (True, True, False) else None)"
| "watch_step s Lock = (if s = (True, True, False) then Some (True, True, True) else None)"
| "watch_step s RunUp = (if s = (True, True, True) then Some s else None)"
| "watch_step s (RunDown n) = (if s = (True, True, True) then Some s else None)"
| "watch_step s Unlock = (if s = (True, True, True) then Some (True, True, False) else None)"
| "watch_step s SessionClose = (if s = (True, True, False) then Some (True, False, False) else None)"
| "watch_step s LockDbClose = (if s = (True, False, False) then Some (False, False, False) else None)"

primrec watch :: "bool \<times> bool \<times> bool \<Rightarrow> db_effect list \<Rightarrow> (bool \<times> bool \<times> bool) option" where
  "watch s [] = Some s"
| "watch s (e # es) = (case watch_step s e of None \<Rightarrow> None | Some t \<Rightarrow> watch t es)"

lemma watch_lock_failed:
  "lock_migrations env = (Inl e, es) \<Longrightarrow> watch (False, False, False) es = Some (False, False, False)"
  by (auto simp: lock_migrations_def split: option.splits)

lemma lock_taken: "lock_migrations env = (Inr u, es) \<Longrightarrow> es = [LockDbOpen, SessionOpen, Lock]"
  by (auto simp: lock_migrations_def split: option.splits)

text \<open>
  C26: migrations run only under the advisory lock, in the one session that took it, and whatever fails on
  the way, the lock, its session and its connection are given back, once and in order.
\<close>

theorem migrations_run_under_the_lock:
  "watch (False, False, False) (snd (migrate_up env)) = Some (False, False, False) \<and>
   watch (False, False, False) (snd (migrate_down env steps)) = Some (False, False, False)"
proof
  show "watch (False, False, False) (snd (migrate_up env)) = Some (False, False, False)"
    by (auto simp: migrate_up_def unlock_effects_def split: prod.split sum.split dest: watch_lock_failed lock_taken)
  show "watch (False, False, False) (snd (migrate_down env steps)) = Some (False, False, False)"
    by (auto simp: migrate_down_def unlock_effects_def split: prod.split sum.split dest: watch_lock_failed lock_taken)
qed

section \<open>What is rolled back\<close>

text \<open>
  How pop chooses the migrations to reverse, as the comment on \<^verbatim>\<open>Down\<close> describes it: it counts the applied
  ones and skips as many of the newest as that leaves out, without looking at versions.
\<close>

definition newest_first :: "migration list \<Rightarrow> migration list" where
  "newest_first ms = rev (sort_key mig_version ms)"

definition pops_by_position :: "(migration list \<Rightarrow> nat \<Rightarrow> nat \<Rightarrow> migration list) \<Rightarrow> bool" where
  "pops_by_position pick \<longleftrightarrow>
     (\<forall>ms count n. pick ms count n = take n (drop (length ms - count) (newest_first ms)))"

lemma pending_of_Nil: "pending_of applied ms = [] \<longleftrightarrow> set (map mig_version ms) \<subseteq> set applied"
proof -
  have "pending_of applied ms = [] \<longleftrightarrow> length (pending_of applied ms) = 0" by simp
  also have "\<dots> \<longleftrightarrow> filter (\<lambda>m. mig_version m \<notin> set applied) ms = []" by (simp add: pending_of_def)
  also have "\<dots> \<longleftrightarrow> set (map mig_version ms) \<subseteq> set applied" by (auto simp: filter_empty_conv)
  finally show ?thesis .
qed

text \<open>
  C27: a rollback that goes ahead reverses the newest migrations, each of them applied: as \<^verbatim>\<open>Down\<close> refuses
  to run while anything is pending, the positions pop goes by are the right ones.
\<close>

theorem rollback_reverses_the_newest:
  assumes "pops_by_position pick" and "RunDown steps \<in> set (snd (migrate_down env steps))"
    and "env_box env = Inr ms" and "distinct (map mig_version ms)" and "applied_versions env = Inr applied"
  shows "pick ms (length applied) n = take n (newest_first ms) \<and>
    set (map mig_version (pick ms (length applied) n)) \<subseteq> set applied"
proof -
  have "\<not> (RunDown steps \<in> set (snd (migrate_down env steps)) \<and> pending env \<noteq> Inr [])"
    by (auto simp: migrate_down_def split: sum.splits)
  with assms(2) have "pending env = Inr []" by blast
  then have "pending_of applied ms = []"
    using assms(3,5) by (auto simp: pending_def new_migrator_def split: option.splits)
  then have sub: "set (map mig_version ms) \<subseteq> set applied" by (simp only: pending_of_Nil)
  have "length ms = card (set (map mig_version ms))" using distinct_card [OF assms(4)] by simp
  also have "\<dots> \<le> card (set applied)" using sub by (intro card_mono) auto
  also have "\<dots> \<le> length applied" by (rule card_length)
  finally have pick: "pick ms (length applied) n = take n (newest_first ms)"
    using assms(1) by (simp add: pops_by_position_def)
  have "set (pick ms (length applied) n) \<subseteq> set ms"
    unfolding pick using set_take_subset [of n "newest_first ms"] by (simp add: newest_first_def)
  with pick sub show ?thesis by auto
qed

definition sample_env :: migrate_env where
  "sample_env =
     \<lparr>env_new_connection = None, env_open = None, env_ping = None, env_sub = None,
      env_box = Inr [\<lparr>mig_version = ''20260905080000'', mig_name = ''create_posts''\<rparr>,
        \<lparr>mig_version = ''20260905080100'', mig_name = ''create_pages''\<rparr>],
      env_table = ''schema_migration'', env_exists = Inr True,
      env_versions = Inr [''20260905080000'', ''20260905080100''],
      env_lock_open = None, env_lock_session = None, env_lock_acquire = None,
      env_run_up = None, env_run_down = (\<lambda>_. None)\<rparr>"

definition sample_pick :: "migration list \<Rightarrow> nat \<Rightarrow> nat \<Rightarrow> migration list" where
  "sample_pick ms count n = take n (drop (length ms - count) (newest_first ms))"

theorem rollback_reverses_the_newest_witness:
  "map mig_name (sample_pick (projr (env_box sample_env)) 2 1) = [''create_pages'']"
proof -
  let ?ms = "[\<lparr>mig_version = ''20260905080000'', mig_name = ''create_posts''\<rparr>,
        \<lparr>mig_version = ''20260905080100'', mig_name = ''create_pages''\<rparr>]"
  let ?vs = "[''20260905080000'', ''20260905080100'']"
  have pick: "pops_by_position sample_pick" by (simp add: pops_by_position_def sample_pick_def)
  have run: "RunDown 1 \<in> set (snd (migrate_down sample_env 1))" by code_simp
  have env: "env_box sample_env = Inr ?ms" "applied_versions sample_env = Inr ?vs"
    by (simp_all add: sample_env_def applied_versions_def)
  have newest: "map mig_name (take 1 (newest_first ?ms)) = [''create_pages'']" by code_simp
  show ?thesis
    using rollback_reverses_the_newest [OF pick run env(1) _ env(2), of 1] newest by (simp add: env(1) numeral_2_eq_2)
qed

text \<open>With an older migration pending, the position is off by one: the reversed migration was not applied.\<close>

lemma position_needs_everything_applied:
  "map mig_version (sample_pick (projr (env_box sample_env)) (length [''20260905080100'']) 1) = [''20260905080000'']"
  by code_simp

end
