(* ===== verification/Cli.thy ===== *)
theory Cli
  imports Config Migrate Password
begin

text \<open>
  \<^verbatim>\<open>internal/cli\<close> and \<^verbatim>\<open>main.go\<close>: the commands. Cobra, which parses the arguments, is left out: a command is
  what its \<^verbatim>\<open>RunE\<close> does. It returns its error and its effects on the outside, the deferred ones included.
\<close>

section \<open>Errors\<close>

datatype cli_error =
    ConfigError load_error
  | FlagError string
  | Db db_error
  | SchemaBehind "string list"
  | BadStep int
  | ReadingPassword string
  | NoPassword
  | Hashing password_error
  | ServerError string

section \<open>Resolving the configuration\<close>

definition flag_bindings :: "(string \<times> string) list" where
  "flag_bindings =
     [(''log_level'', ''log-level''), (''server.port'', ''port''), (''server.read_timeout'', ''read-timeout'')]"

text \<open>The flags \<^verbatim>\<open>addServerFlags\<close> adds to a command, after the one every command has.\<close>

definition root_flags :: "string list" where
  "root_flags = [''config'', ''log-level'']"

definition server_flags :: "string list" where
  "server_flags = root_flags @ [''port'', ''read-timeout'']"

text \<open>
  The keys that get bound to a flag, walking the map in the order Go chose: a flag the command does not
  have is skipped. \<open>bind_p\<close> is viper's answer to \<^verbatim>\<open>BindPFlag\<close>.
\<close>

fun bind_flags ::
  "string list \<Rightarrow> (string \<Rightarrow> string \<Rightarrow> string option) \<Rightarrow> (string \<times> string) list \<Rightarrow> string + (string \<times> string) list" where
  "bind_flags flags bind_p [] = Inr []"
| "bind_flags flags bind_p ((key, name) # rest) =
     (if name \<notin> set flags then bind_flags flags bind_p rest
      else case bind_p key name of
        Some e \<Rightarrow> Inl e
      | None \<Rightarrow> (case bind_flags flags bind_p rest of Inl e \<Rightarrow> Inl e | Inr bs \<Rightarrow> Inr ((key, name) # bs)))"

text \<open>
  \<^verbatim>\<open>app.config\<close>, for a map walked in \<open>order\<close>; \<open>loaded\<close> is what \<^verbatim>\<open>config.Load\<close> answers with these keys bound.
\<close>

definition app_config ::
  "string list \<Rightarrow> (string \<Rightarrow> string \<Rightarrow> string option) \<Rightarrow> (string \<times> string) list \<Rightarrow>
     ((string \<times> string) list \<Rightarrow> load_error + config) \<Rightarrow> cli_error + config" where
  "app_config flags bind_p order loaded =
     (case bind_flags flags bind_p order of
        Inl e \<Rightarrow> Inl (FlagError e)
      | Inr bound \<Rightarrow> (case loaded bound of Inl e \<Rightarrow> Inl (ConfigError e) | Inr cfg \<Rightarrow> Inr cfg))"

section \<open>admin hash-password\<close>

text \<open>
  Standard input: a terminal, with what \<^verbatim>\<open>term.ReadPassword\<close> answers, or a pipe, with its contents and the
  error after them (\<^verbatim>\<open>EOF\<close> as a rule).
\<close>

datatype stdin = Terminal "string + string" | Pipe string string

abbreviation newline :: char where "newline \<equiv> CHR 0x0A"
abbreviation carriage :: char where "carriage \<equiv> CHR 0x0D"

text \<open>\<^verbatim>\<open>bufio.Reader.ReadString('\n')\<close>\<close>

definition read_line :: "string \<Rightarrow> string \<Rightarrow> string \<times> string option" where
  "read_line contents err =
     (case cut newline contents of
        Some (line, _) \<Rightarrow> (line @ [newline], None)
      | None \<Rightarrow> (contents, Some err))"

definition read_password :: "stdin \<Rightarrow> cli_error + string" where
  "read_password input =
     (case input of
        Terminal answer \<Rightarrow> (case answer of Inl e \<Rightarrow> Inl (ReadingPassword e) | Inr raw \<Rightarrow> Inr raw)
      | Pipe contents err \<Rightarrow>
          (case read_line contents err of
             (line, Some e) \<Rightarrow>
               (if line = [] then Inl (ReadingPassword e) else Inr (trim_right_set [carriage, newline] line))
           | (line, None) \<Rightarrow> Inr (trim_right_set [carriage, newline] line)))"

text \<open>What goes to standard output; \<open>salt\<close> is what the random source answers.\<close>

definition hash_password_command :: "idkey \<Rightarrow> unit + bytes \<Rightarrow> stdin \<Rightarrow> cli_error + string" where
  "hash_password_command idkey salt input =
     (case read_password input of
        Inl e \<Rightarrow> Inl e
      | Inr password \<Rightarrow>
          if password = [] then Inl NoPassword
          else case hash_password idkey salt password of
            Inl e \<Rightarrow> Inl (Hashing e)
          | Inr hash \<Rightarrow> Inr (hash @ [newline]))"

section \<open>Databases and migrations\<close>

text \<open>The commands that use the database give the connection back whatever they do with it.\<close>

datatype effect = OnDb db_effect | Serving config | Printed string

definition with_database ::
  "cli_error + config \<Rightarrow> migrate_env \<Rightarrow> (config \<Rightarrow> cli_error option \<times> effect list) \<Rightarrow> cli_error option \<times> effect list" where
  "with_database resolved env fn =
     (case resolved of
        Inl e \<Rightarrow> (Some e, [])
      | Inr cfg \<Rightarrow>
          (case open_database env of
             (Inl e, es) \<Rightarrow> (Some (Db e), map OnDb es)
           | (Inr _, es) \<Rightarrow> (case fn cfg of (err, es') \<Rightarrow> (err, map OnDb es @ es' @ [OnDb ConnClose]))))"

definition migrate_up_command :: "cli_error + config \<Rightarrow> migrate_env \<Rightarrow> cli_error option \<times> effect list" where
  "migrate_up_command resolved env =
     with_database resolved env (\<lambda>cfg. case migrate_up env of (e, es) \<Rightarrow> (map_option Db e, map OnDb es))"

definition migrate_down_command :: "cli_error + config \<Rightarrow> migrate_env \<Rightarrow> int \<Rightarrow> cli_error option \<times> effect list" where
  "migrate_down_command resolved env steps =
     (if steps < 1 then (Some (BadStep steps), [])
      else with_database resolved env
        (\<lambda>cfg. case migrate_down env steps of (e, es) \<Rightarrow> (map_option Db e, map OnDb es)))"

definition migrate_status_command ::
  "cli_error + config \<Rightarrow> migrate_env \<Rightarrow> string + string \<Rightarrow> cli_error option \<times> effect list" where
  "migrate_status_command resolved env table =
     with_database resolved env
       (\<lambda>cfg. case migrate_status env table of Inl e \<Rightarrow> (Some (Db e), []) | Inr out \<Rightarrow> (None, [Printed out]))"

section \<open>serve\<close>

definition require_current_schema :: "migrate_env \<Rightarrow> cli_error option" where
  "require_current_schema env =
     (case pending env of
        Inl e \<Rightarrow> Some (Db e)
      | Inr ps \<Rightarrow> if ps = [] then None else Some (SchemaBehind ps))"

text \<open>\<open>run\<close> is the error \<^verbatim>\<open>server.Run\<close> comes back with.\<close>

definition serve_command :: "cli_error + config \<Rightarrow> migrate_env \<Rightarrow> (config \<Rightarrow> string option) \<Rightarrow> cli_error option \<times> effect list" where
  "serve_command resolved env run =
     (case resolved of
        Inl e \<Rightarrow> (Some e, [])
      | Inr cfg \<Rightarrow>
          (case open_database env of
             (Inl e, es) \<Rightarrow> (Some (Db e), map OnDb es)
           | (Inr _, es) \<Rightarrow>
               (case require_current_schema env of
                  Some e \<Rightarrow> (Some e, map OnDb es @ [OnDb ConnClose])
                | None \<Rightarrow> (map_option ServerError (run cfg), map OnDb es @ [Serving cfg, OnDb ConnClose]))))"

text \<open>The levels of pop's logger, and the level of ours a line is logged at.\<close>

datatype pop_level = PopSQL | PopDebug | PopInfo | PopWarn | PopErr

definition pop_log_level :: "pop_level \<Rightarrow> slog_level" where
  "pop_log_level lvl =
     (case lvl of
        PopSQL \<Rightarrow> LevelDebug
      | PopDebug \<Rightarrow> LevelDebug
      | PopWarn \<Rightarrow> LevelWarn
      | PopErr \<Rightarrow> LevelError
      | _ \<Rightarrow> LevelInfo)"

section \<open>config show and version\<close>

text \<open>\<open>print_yaml\<close> is the YAML printer, \<open>used\<close> the file viper read, empty for none.\<close>

definition config_show_command ::
  "cli_error + config \<Rightarrow> (string \<Rightarrow> bool) \<Rightarrow> (yaml \<Rightarrow> string) \<Rightarrow> string \<Rightarrow> cli_error + string" where
  "config_show_command resolved ip6 print_yaml used =
     (case resolved of
        Inl e \<Rightarrow> Inl e
      | Inr cfg \<Rightarrow>
          Inr ((if used \<noteq> [] then ''# config file: '' @ used @ [newline] else ''# config file: none'' @ [newline]) @
               print_yaml (config_yaml ip6 cfg)))"

record build_info =
  bi_version :: string
  bi_commit :: string
  bi_date :: string
  bi_dirty :: bool

text \<open>The settings the toolchain embedded, if any, read in order.\<close>

fun read_settings :: "build_info \<Rightarrow> (string \<times> string) list \<Rightarrow> build_info" where
  "read_settings bi [] = bi"
| "read_settings bi ((k, v) # rest) =
     read_settings
       (if k = ''vcs.revision'' then bi\<lparr>bi_commit := v\<rparr>
        else if k = ''vcs.time'' then bi\<lparr>bi_date := v\<rparr>
        else if k = ''vcs.modified'' then bi\<lparr>bi_dirty := (v = ''true'')\<rparr>
        else bi) rest"

definition new_build_info :: "string \<Rightarrow> (string \<times> string) list option \<Rightarrow> build_info" where
  "new_build_info version settings =
     (let bi = \<lparr>bi_version = (if version = [] then ''dev'' else version), bi_commit = [], bi_date = [], bi_dirty = False\<rparr>
      in case settings of None \<Rightarrow> bi | Some ss \<Rightarrow> read_settings bi ss)"

definition build_info_string :: "build_info \<Rightarrow> string" where
  "build_info_string b =
     (let parts =
        (if bi_commit b \<noteq> [] then [if 7 < length (bi_commit b) then take 7 (bi_commit b) else bi_commit b] else []) @
        (if bi_dirty b then [''dirty''] else []) @
        (if bi_date b \<noteq> [] then [bi_date b] else []);
          s = ''personal-web '' @ bi_version b
      in if parts \<noteq> [] then s @ '' ('' @ join '', '' parts @ '')'' else s)"

definition version_command :: "build_info \<Rightarrow> string" where
  "version_command bi = build_info_string bi @ [newline]"

text \<open>\<^verbatim>\<open>main\<close>: the exit status, and what is printed to standard error before it.\<close>

definition main_exit :: "string option \<Rightarrow> int \<times> string" where
  "main_exit err = (case err of None \<Rightarrow> (0, []) | Some e \<Rightarrow> (1, ''error: '' @ e @ [newline]))"

end
