(* ===== verification/Server.thy ===== *)
theory Server
  imports Admin Cli
begin

text \<open>
  \<^verbatim>\<open>internal/server/server.go\<close>: what is mounted, the two health checks, and how the server comes to an end.
  As in Admin, a request's path is in canonical form; for any other the mux redirects to that form.
\<close>

section \<open>Health\<close>

definition plain_answer :: "nat \<Rightarrow> string \<Rightarrow> page_response \<Rightarrow> page_response" where
  "plain_answer code text w =
     (set_header ''Content-Type'' ''text/plain; charset=utf-8'' w)\<lparr>status := code, body := Text (text @ [newline])\<rparr>"

definition healthz :: "page_response \<Rightarrow> page_response" where
  "healthz w = plain_answer 200 ''ok'' w"

text \<open>\<open>answered\<close> is what \<^verbatim>\<open>database.Ping\<close> returns while the request is handled.\<close>

definition readyz :: "db_error option \<Rightarrow> page_response \<Rightarrow> page_response" where
  "readyz answered w =
     (case answered of
        Some e \<Rightarrow> plain_answer 503 ''database unavailable'' w
      | None \<Rightarrow> plain_answer 200 ''ok'' w)"

section \<open>Routes\<close>

definition only_get :: "request \<Rightarrow> (page_response \<Rightarrow> page_response) \<Rightarrow> page_response \<Rightarrow> page_response" where
  "only_get r answer w =
     (if req_method r \<in> set [''GET'', ''HEAD''] then answer w
      else http_error ''Method Not Allowed'' 405 (set_header ''Allow'' ''GET, HEAD'' w))"

text \<open>
  The mux, given the handler of Admin. The pattern \<^verbatim>\<open>/admin/\<close> matches its subtree, and makes the mux
  redirect \<^verbatim>\<open>/admin\<close> itself.
\<close>

definition site_routes :: "config \<Rightarrow> 's handler_func \<Rightarrow> db_error option \<Rightarrow> 's handler_func" where
  "site_routes cfg admin answered r w sv =
     (if admin_enabled (cfg_admin cfg) \<and> prefix ''/admin/'' (url_path r) then admin r w sv
      else if admin_enabled (cfg_admin cfg) \<and> url_path r = ''/admin'' then
        (http_redirect r (''/admin/'' @ (if raw_query r \<noteq> [] then CHR ''?'' # raw_query r else [])) 307 w, sv)
      else if url_path r = ''/healthz'' then (only_get r healthz w, sv)
      else if url_path r = ''/readyz'' then (only_get r (readyz answered) w, sv)
      else (http_error ''404 page not found'' 404 w, sv))"

definition site ::
  "(string \<Rightarrow> zone option) \<Rightarrow> external \<Rightarrow> (string \<Rightarrow> string option) \<Rightarrow> 's store \<Rightarrow> config \<Rightarrow> readings \<Rightarrow> db_error option \<Rightarrow>
     's handler_func" where
  "site zones ext static st cfg now answered =
     site_routes cfg (routes (new_handler st zones ext (cfg_admin cfg)) static now) answered"

section \<open>Running\<close>

text \<open>
  What ends the wait: \<^verbatim>\<open>Serve\<close> returned, with \<^verbatim>\<open>ErrServerClosed\<close> or another error, or the context was
  cancelled.
\<close>

datatype run_end = ServeReturned bool string | Cancelled

definition server_run :: "string option \<Rightarrow> run_end \<Rightarrow> string option \<Rightarrow> string option" where
  "server_run listen ending shutdown =
     (case listen of
        Some e \<Rightarrow> Some e
      | None \<Rightarrow>
     (case ending of
        ServeReturned closed e \<Rightarrow> (if closed then None else Some e)
      | Cancelled \<Rightarrow> shutdown))"

end
