(* ===== verification/Config_Facts.thy ===== *)
theory Config_Facts
  imports Config "HOL-Library.Multiset"
begin

text \<open>The rules of the configuration, and what showing it gives away.\<close>

section \<open>Cutting what is put together\<close>

lemma cut_append:
  "cut c (a @ b) =
     (case cut c a of
        Some (x, y) \<Rightarrow> Some (x, y @ b)
      | None \<Rightarrow> map_option (\<lambda>(x, y). (a @ x, y)) (cut c b))"
  by (induction a) (auto simp: option.map_comp option.map_ident comp_def case_prod_unfold id_def split: option.split)

lemma cut_prefix_free: "c \<notin> set a \<Longrightarrow> cut c (a @ b) = map_option (\<lambda>(x, y). (a @ x, y)) (cut c b)"
  by (simp add: cut_append cut_absent)

lemma split_last_snoc:
  "split_last c (a @ c # b) =
     (case split_last c b of None \<Rightarrow> Some (a, b) | Some (x, y) \<Rightarrow> Some (a @ c # x, y))"
  by (simp add: split_last_def cut_append split: option.split prod.split)

lemma before_char_prefix: "c \<notin> set a \<Longrightarrow> before_char c (a @ b) = a @ before_char c b"
  by (induction a) (auto simp: before_char_def)

lemma from_char_prefix: "c \<notin> set a \<Longrightarrow> from_char c (a @ b) = from_char c b"
  by (induction a) (auto simp: from_char_def)

lemma suffix_char_append: "b \<noteq> [] \<Longrightarrow> suffix [c] (a @ b) = suffix [c] b"
  by (cases b rule: rev_cases) (auto simp: suffix_def)

lemma split_query_append:
  assumes "CHR ''?'' \<notin> set a"
  shows "split_query (a @ b) = (case split_query b of (p, f, q) \<Rightarrow> (a @ p, f, q))"
proof (cases "b = []")
  case True
  have "\<not> suffix ''?'' a" using assms by (auto simp: suffix_def)
  then show ?thesis using True assms by (simp add: split_query_def cut_absent)
next
  case False
  moreover have "filter (\<lambda>c. c = CHR ''?'') a = []" using assms by (auto simp: filter_empty_conv)
  ultimately show ?thesis
    using assms suffix_char_append [OF False, of "CHR ''?''" a]
    by (auto simp: split_query_def cut_prefix_free butlast_append split: option.split)
qed

lemma get_scheme_letters:
  assumes "list_all is_letter s" and "s \<noteq> []"
  shows "get_scheme (s @ CHR '':'' # rest) = Some (s, rest)"
proof -
  have "get_scheme_from raw seen (t @ CHR '':'' # rest) = Some (seen @ t, rest)"
    if "list_all is_letter t" "seen @ t \<noteq> []" for raw seen t
    using that by (induction t arbitrary: seen) (auto simp: is_letter_def is_dec_def)
  then show ?thesis using assms by (simp add: get_scheme_def)
qed

section \<open>The password of a DSN\<close>

definition with_password :: "string \<Rightarrow> string \<Rightarrow> string \<Rightarrow> string \<Rightarrow> dsn" where
  "with_password scheme user rest pw = scheme @ ''://'' @ user @ '':'' @ pw @ ''@'' @ rest"

text \<open>The parts a password is put between, and a password that ends where it is meant to.\<close>

definition dsn_parts :: "string \<Rightarrow> string \<Rightarrow> bool" where
  "dsn_parts scheme user \<longleftrightarrow> scheme \<noteq> [] \<and> list_all is_letter scheme \<and> set user \<inter> set '':@/?#'' = {}"

definition dsn_password :: "string \<Rightarrow> bool" where
  "dsn_password pw \<longleftrightarrow> set pw \<inter> set ''/?#'' = {}"

lemma parse_authority_password:
  assumes "CHR '':'' \<notin> set user"
  shows "parse_authority ip6 scheme (user @ CHR '':'' # pw @ CHR ''@'' # b) = None \<or>
    (\<exists>p. parse_authority ip6 scheme (user @ CHR '':'' # pw @ CHR ''@'' # b) =
       Some (Some \<lparr>ui_username = the (url_unescape EncodeUserPassword user), ui_password = Some p\<rparr>,
         the (parse_host ip6 scheme (case split_last (CHR ''@'') b of None \<Rightarrow> b | Some (x, y) \<Rightarrow> y))))"
  using split_last_snoc [of "CHR ''@''" "user @ CHR '':'' # pw" b] cut_found [OF assms]
  by (auto simp: parse_authority_def split: option.split)

lemma url_parse_password:
  assumes "dsn_parts scheme user"
  shows "\<exists>n u. \<forall>pw. dsn_password pw \<longrightarrow>
    url_parse ip6 (with_password scheme user rest pw) = None \<or>
    (\<exists>p. url_parse ip6 (with_password scheme user rest pw) = Some (u\<lparr>u_user := Some \<lparr>ui_username = n, ui_password = Some p\<rparr>\<rparr>))"
proof -
  obtain rest0 frag where cut_rest: "(case cut (CHR ''#'') rest of None \<Rightarrow> (rest, []) | Some uf \<Rightarrow> uf) = (rest0, frag)"
    by fastforce
  obtain a f q where query: "split_query rest0 = (a, f, q)" by (cases "split_query rest0")
  let ?b = "before_char (CHR ''/'') a" and ?path = "from_char (CHR ''/'') a"
  let ?sch = "map ascii_to_lower scheme"
  let ?host = "the (parse_host ip6 ?sch (case split_last (CHR ''@'') ?b of None \<Rightarrow> ?b | Some (x, y) \<Rightarrow> y))"
  let ?n = "the (url_unescape EncodeUserPassword user)"
  let ?base = "empty_url\<lparr>u_scheme := ?sch, u_force_query := f, u_raw_query := q\<rparr>"
  let ?u1 = "the (set_path ?path (?base\<lparr>u_host := ?host\<rparr>))"
  let ?u = "if frag = [] then ?u1 else the (set_fragment frag ?u1)"
  note parts = assms [unfolded dsn_parts_def]
  have letters: "c \<notin> set scheme" if "\<not> is_letter c" for c using parts that by (auto simp: list_all_iff)
  have "url_parse ip6 (with_password scheme user rest pw) = None \<or>
    (\<exists>p. url_parse ip6 (with_password scheme user rest pw) = Some (?u\<lparr>u_user := Some \<lparr>ui_username = ?n, ui_password = Some p\<rparr>\<rparr>))"
    if pw: "dsn_password pw" for pw
  proof -
    let ?auth = "user @ CHR '':'' # pw @ ''@''"
    let ?pre = "scheme @ ''://'' @ ?auth"
    have hash: "CHR ''#'' \<notin> set ?pre" and slash: "CHR ''/'' \<notin> set ?auth" and question: "CHR ''?'' \<notin> set (''//'' @ ?auth)"
      using parts pw letters [of "CHR ''#''"] by (auto simp: dsn_password_def is_letter_def)
    have raw: "with_password scheme user rest pw = ?pre @ rest" by (simp add: with_password_def)
    have cut: "(case cut (CHR ''#'') (?pre @ rest) of None \<Rightarrow> (?pre @ rest, []) | Some uf \<Rightarrow> uf) = (?pre @ rest0, frag)"
      using cut_rest unfolding cut_prefix_free [OF hash] by (cases "cut (CHR ''#'') rest") auto
    have star: "?pre @ rest0 \<noteq> ''*''" using parts by (cases scheme) auto
    have scheme: "get_scheme (?pre @ rest0) = Some (scheme, (''//'' @ ?auth) @ rest0)"
      using get_scheme_letters [of scheme "''//'' @ ?auth @ rest0"] parts by simp
    have split: "split_query ((''//'' @ ?auth) @ rest0) = ((''//'' @ ?auth) @ a, f, q)"
      by (simp only: split_query_append [OF question] query prod.case)
    have auth: "before_char (CHR ''/'') (?auth @ a) = ?auth @ ?b" "from_char (CHR ''/'') (?auth @ a) = ?path"
      by (simp_all only: before_char_prefix [OF slash] from_char_prefix [OF slash])
    have hier: "parse_hier ip6 ((''//'' @ ?auth) @ a) ?base =
        (case parse_authority ip6 ?sch (?auth @ ?b) of
           None \<Rightarrow> None
         | Some (us, host) \<Rightarrow> set_path ?path (?base\<lparr>u_user := us, u_host := host\<rparr>))"
      using parts auth by (simp add: parse_hier_def Let_def)
    have none: "parse_no_fragment ip6 (?pre @ rest0) = None \<or>
        parse_no_fragment ip6 (?pre @ rest0) = parse_hier ip6 ((''//'' @ ?auth) @ a) ?base"
      unfolding parse_no_fragment_def scheme option.case prod.case split Let_def using star by auto
    have path: "set_path ?path (?base\<lparr>u_user := us, u_host := ?host\<rparr>) =
        map_option (\<lambda>v. v\<lparr>u_user := us\<rparr>) (set_path ?path (?base\<lparr>u_host := ?host\<rparr>))" for us
      by (simp add: set_path_def empty_url_def split: option.split)
    have frags: "set_fragment frag (v\<lparr>u_user := us\<rparr>) = map_option (\<lambda>v. v\<lparr>u_user := us\<rparr>) (set_fragment frag v)" for v us
      by (simp add: set_fragment_def split: option.split)
    have "parse_no_fragment ip6 (?pre @ rest0) = None \<or>
        (\<exists>p. parse_no_fragment ip6 (?pre @ rest0) = Some (?u1\<lparr>u_user := Some \<lparr>ui_username = ?n, ui_password = Some p\<rparr>\<rparr>))"
      using none
    proof
      assume hier': "parse_no_fragment ip6 (?pre @ rest0) = parse_hier ip6 ((''//'' @ ?auth) @ a) ?base"
      have "parse_authority ip6 ?sch (?auth @ ?b) = None \<or>
          (\<exists>p. parse_authority ip6 ?sch (?auth @ ?b) = Some (Some \<lparr>ui_username = ?n, ui_password = Some p\<rparr>, ?host))"
        using parse_authority_password [of user ip6 ?sch pw ?b] parts by simp
      then show ?thesis
      proof (elim disjE exE)
        assume "parse_authority ip6 ?sch (?auth @ ?b) = None"
        then show ?thesis unfolding hier' hier by simp
      next
        fix p
        assume "parse_authority ip6 ?sch (?auth @ ?b) = Some (Some \<lparr>ui_username = ?n, ui_password = Some p\<rparr>, ?host)"
        then have "parse_no_fragment ip6 (?pre @ rest0) =
            map_option (\<lambda>v. v\<lparr>u_user := Some \<lparr>ui_username = ?n, ui_password = Some p\<rparr>\<rparr>) (set_path ?path (?base\<lparr>u_host := ?host\<rparr>))"
          unfolding hier' hier path [symmetric] by simp
        then show ?thesis by (cases "set_path ?path (?base\<lparr>u_host := ?host\<rparr>)") auto
      qed
    qed blast
    moreover have "url_parse ip6 (with_password scheme user rest pw) =
        (if frag = [] then Some (v\<lparr>u_user := us\<rparr>) else map_option (\<lambda>v. v\<lparr>u_user := us\<rparr>) (set_fragment frag v))"
      if "parse_no_fragment ip6 (?pre @ rest0) = Some (v\<lparr>u_user := us\<rparr>)" for v us
      unfolding raw url_parse_def cut prod.case Let_def that option.case frags [symmetric] by simp
    moreover have "url_parse ip6 (with_password scheme user rest pw) = None"
      if "parse_no_fragment ip6 (?pre @ rest0) = None"
      unfolding raw url_parse_def cut prod.case Let_def that by simp
    ultimately show ?thesis
      by (cases "frag = []"; cases "set_fragment frag ?u1") auto
  qed
  then show ?thesis by blast
qed

lemma dsn_string_password:
  assumes "dsn_parts scheme user" and "dsn_password pw" and "dsn_password pw'"
    and "url_parse ip6 (with_password scheme user rest pw) \<noteq> None"
    and "url_parse ip6 (with_password scheme user rest pw') \<noteq> None"
  shows "dsn_string ip6 (with_password scheme user rest pw) = dsn_string ip6 (with_password scheme user rest pw')"
proof -
  from url_parse_password [OF assms(1), of ip6 rest] obtain n u where
    u: "\<forall>pw. dsn_password pw \<longrightarrow> url_parse ip6 (with_password scheme user rest pw) = None \<or>
      (\<exists>p. url_parse ip6 (with_password scheme user rest pw) = Some (u\<lparr>u_user := Some \<lparr>ui_username = n, ui_password = Some p\<rparr>\<rparr>))"
    by (elim exE)
  have "with_password scheme user rest x \<noteq> []" for x by (simp add: with_password_def)
  then have "dsn_string ip6 (with_password scheme user rest x) =
      url_string (u\<lparr>u_user := Some \<lparr>ui_username = n, ui_password = Some redacted\<rparr>\<rparr>)"
    if "dsn_password x" "url_parse ip6 (with_password scheme user rest x) \<noteq> None" for x
    using spec [OF u, of x] that by (auto simp: dsn_string_def)
  then show ?thesis using assms(2-5) by simp
qed

text \<open>A configuration with its three secrets filled in.\<close>

definition with_secrets :: "config \<Rightarrow> dsn \<Rightarrow> secret \<Rightarrow> secret \<Rightarrow> config" where
  "with_secrets c d hash key =
     c\<lparr>cfg_database := (cfg_database c)\<lparr>dc_url := d\<rparr>,
       cfg_admin := (cfg_admin c)\<lparr>ac_password_hash := hash, ac_session_secret := key\<rparr>\<rparr>"


definition sample_cfg :: config where
  "sample_cfg =
     \<lparr>cfg_server = \<lparr>sc_port = 8080, sc_read_timeout = 5 * second, sc_write_timeout = 10 * second, sc_shutdown_timeout = 10 * second\<rparr>,
      cfg_database = \<lparr>dc_url = DevDatabaseURL, dc_pool = 5, dc_idle_pool = 2, dc_conn_max_lifetime = 30 * minute\<rparr>,
      cfg_admin = \<lparr>ac_password_hash = [], ac_session_secret = [], ac_session_ttl = 168 * hour, ac_insecure_cookie = False,
        ac_timezone = ''UTC'', ac_login_attempts = 10, ac_login_window = 15 * minute\<rparr>,
      cfg_log_level = ''info''\<rparr>"


text \<open>A password given as a parameter of the DSN, which the driver accepts too, is shown as it is.\<close>

lemma query_password_is_shown:
  "dsn_string (\<lambda>_. False) ''postgres://writer@db/pw?password=hunter2'' = ''postgres://writer@db/pw?password=hunter2''"
  by code_simp

section \<open>The rules\<close>

text \<open>What a valid configuration is, independently of the order of the checks.\<close>

definition valid_config :: "(string \<Rightarrow> zone option) \<Rightarrow> (string \<Rightarrow> bool) \<Rightarrow> config \<Rightarrow> bool" where
  "valid_config zones ip6 c \<longleftrightarrow>
     (let sv = cfg_server c; db = cfg_database c; ad = cfg_admin c
      in sc_port sv \<in> {1..65535} \<and> 0 < sc_read_timeout sv \<and> 0 < sc_write_timeout sv \<and> 0 < sc_shutdown_timeout sv \<and>
         dc_url db \<noteq> [] \<and>
         (\<exists>u. url_parse ip6 (dc_url db) = Some u \<and> u_scheme u \<in> {''postgres'', ''postgresql''} \<and> u_host u \<noteq> []) \<and>
         1 \<le> dc_pool db \<and> dc_idle_pool db \<in> {0..dc_pool db} \<and> 0 < dc_conn_max_lifetime db \<and>
         0 < ac_session_ttl ad \<and> zones (ac_timezone ad) \<noteq> None \<and> 1 \<le> ac_login_attempts ad \<and> 0 < ac_login_window ad \<and>
         (secret_set (ac_password_hash ad) \<longleftrightarrow> secret_set (ac_session_secret ad)) \<and>
         cfg_log_level c \<in> {''debug'', ''info'', ''warn'', ''error''})"

text \<open>Whether an error says something true of the configuration.\<close>

fun complaint :: "(string \<Rightarrow> zone option) \<Rightarrow> (string \<Rightarrow> bool) \<Rightarrow> config \<Rightarrow> config_error \<Rightarrow> bool" where
  "complaint zones ip6 c (BadPort p) \<longleftrightarrow> p = sc_port (cfg_server c) \<and> p \<notin> {1..65535}"
| "complaint zones ip6 c (BadTimeout name d) \<longleftrightarrow> (name, d) \<in> set (timeouts (cfg_server c)) \<and> d \<le> 0"
| "complaint zones ip6 c DsnEmpty \<longleftrightarrow> dc_url (cfg_database c) = []"
| "complaint zones ip6 c DsnNotUrl \<longleftrightarrow> url_parse ip6 (dc_url (cfg_database c)) = None"
| "complaint zones ip6 c (DsnBadScheme s) \<longleftrightarrow>
     map_option u_scheme (url_parse ip6 (dc_url (cfg_database c))) = Some s \<and> s \<noteq> ''postgres'' \<and> s \<noteq> ''postgresql''"
| "complaint zones ip6 c DsnNoHost \<longleftrightarrow> map_option u_host (url_parse ip6 (dc_url (cfg_database c))) = Some []"
| "complaint zones ip6 c (BadPool n) \<longleftrightarrow> n = dc_pool (cfg_database c) \<and> n < 1"
| "complaint zones ip6 c (BadIdlePool n) \<longleftrightarrow> n = dc_idle_pool (cfg_database c) \<and> n < 0"
| "complaint zones ip6 c (IdleExceedsPool n m) \<longleftrightarrow>
     n = dc_idle_pool (cfg_database c) \<and> m = dc_pool (cfg_database c) \<and> m < n"
| "complaint zones ip6 c (BadConnLifetime d) \<longleftrightarrow> d = dc_conn_max_lifetime (cfg_database c) \<and> d \<le> 0"
| "complaint zones ip6 c (BadSessionTTL d) \<longleftrightarrow> d = ac_session_ttl (cfg_admin c) \<and> d \<le> 0"
| "complaint zones ip6 c (BadTimezone z) \<longleftrightarrow> z = ac_timezone (cfg_admin c) \<and> zones z = None"
| "complaint zones ip6 c (BadLoginAttempts n) \<longleftrightarrow> n = ac_login_attempts (cfg_admin c) \<and> n < 1"
| "complaint zones ip6 c (BadLoginWindow d) \<longleftrightarrow> d = ac_login_window (cfg_admin c) \<and> d \<le> 0"
| "complaint zones ip6 c SecretsNotTogether \<longleftrightarrow>
     secret_set (ac_password_hash (cfg_admin c)) \<noteq> secret_set (ac_session_secret (cfg_admin c))"
| "complaint zones ip6 c (BadLogLevel l) \<longleftrightarrow> l = cfg_log_level c \<and> l \<notin> {''debug'', ''info'', ''warn'', ''error''}"

lemma dsn_validate_iff:
  "dsn_validate ip6 d = None \<longleftrightarrow>
     d \<noteq> [] \<and> (\<exists>u. url_parse ip6 d = Some u \<and> u_scheme u \<in> {''postgres'', ''postgresql''} \<and> u_host u \<noteq> [])"
  by (auto simp: dsn_validate_def split: option.split)

lemma admin_validate_iff:
  "admin_validate zones a = None \<longleftrightarrow>
     0 < ac_session_ttl a \<and> zones (ac_timezone a) \<noteq> None \<and> 1 \<le> ac_login_attempts a \<and> 0 < ac_login_window a \<and>
     (secret_set (ac_password_hash a) \<longleftrightarrow> secret_set (ac_session_secret a))"
  by (auto simp: admin_validate_def)

lemma dsn_complaint: "dsn_validate ip6 (dc_url (cfg_database c)) = Some e \<Longrightarrow> complaint zones ip6 c e"
  by (auto simp: dsn_validate_def split: option.splits if_splits)

lemma admin_complaint: "admin_validate zones (cfg_admin c) = Some e \<Longrightarrow> complaint zones ip6 c e"
  by (auto simp: admin_validate_def split: if_splits)

lemma log_levels_iff: "map_of log_levels l = None \<longleftrightarrow> l \<notin> {''debug'', ''info'', ''warn'', ''error''}"
  by (auto simp: log_levels_def)

lemma level_complaint: "map_of log_levels (cfg_log_level c) = None \<Longrightarrow> complaint zones ip6 c (BadLogLevel (cfg_log_level c))"
  by (simp add: log_levels_iff)

lemma validate_None:
  "validate zones ip6 order c = None \<longleftrightarrow>
     (1 \<le> sc_port (cfg_server c) \<and> sc_port (cfg_server c) \<le> 65535) \<and>
     find (\<lambda>(name, d). d \<le> 0) order = None \<and> dsn_validate ip6 (dc_url (cfg_database c)) = None \<and>
     1 \<le> dc_pool (cfg_database c) \<and> (0 \<le> dc_idle_pool (cfg_database c) \<and>
     dc_idle_pool (cfg_database c) \<le> dc_pool (cfg_database c)) \<and> 0 < dc_conn_max_lifetime (cfg_database c) \<and>
     admin_validate zones (cfg_admin c) = None \<and> \<not> map_of log_levels (cfg_log_level c) = None"
  by (auto simp: validate_def Let_def split: option.split)

lemma find_in: "find P xs = Some x \<Longrightarrow> x \<in> set xs \<and> P x"
  by (induction xs) (auto split: if_splits)

lemma timeouts_find:
  assumes "mset order = mset (timeouts (cfg_server c))"
  shows "find (\<lambda>(name, d). d \<le> 0) order = None \<longleftrightarrow>
      0 < sc_read_timeout (cfg_server c) \<and> 0 < sc_write_timeout (cfg_server c) \<and> 0 < sc_shutdown_timeout (cfg_server c)"
proof -
  have "set order = set (timeouts (cfg_server c))" using assms by (metis set_mset_mset)
  moreover have "find (\<lambda>(name, d). d \<le> 0) order = None \<longleftrightarrow> (\<forall>p \<in> set order. 0 < snd p)"
    by (simp add: find_None_iff case_prod_beta not_le Ball_def)
  ultimately show ?thesis by (simp add: timeouts_def)
qed

lemma valid_config_iff:
  assumes "mset order = mset (timeouts (cfg_server c))"
  shows "validate zones ip6 order c = None \<longleftrightarrow> valid_config zones ip6 c"
  unfolding validate_None valid_config_def Let_def timeouts_find [OF assms] dsn_validate_iff admin_validate_iff
    log_levels_iff atLeastAtMost_iff by blast

text \<open>
  C30: a configuration is accepted exactly if it keeps every rule, in whatever order Go walks the map of
  the timeouts; and the error it is refused with is true of it.
\<close>

theorem validation_is_the_rules:
  assumes "mset order = mset (timeouts (cfg_server c))"
  shows "(validate zones ip6 order c = None \<longleftrightarrow> valid_config zones ip6 c) \<and>
    (case validate zones ip6 order c of None \<Rightarrow> True | Some e \<Rightarrow> complaint zones ip6 c e)"
proof
  show "validate zones ip6 order c = None \<longleftrightarrow> valid_config zones ip6 c" by (rule valid_config_iff [OF assms])
  have set: "set order = set (timeouts (cfg_server c))" using assms by (metis set_mset_mset)
  have late: "(name, d) \<in> set (timeouts (cfg_server c)) \<and> d \<le> 0" if "find (\<lambda>(name, d). d \<le> 0) order = Some (name, d)" for name d
    using find_in [OF that] set by auto
  show "case validate zones ip6 order c of None \<Rightarrow> True | Some e \<Rightarrow> complaint zones ip6 c e"
    by (auto simp: validate_def Let_def intro: level_complaint dsn_complaint admin_complaint dest: late
        split: option.split simp del: complaint.simps(16))
qed

theorem validation_is_the_rules_witness:
  "config_settings (map_of defaults) = Some sample_cfg \<and>
   valid_config (\<lambda>_. Some utc_zone) (\<lambda>_. False) sample_cfg \<and>
   \<not> valid_config (\<lambda>_. Some utc_zone) (\<lambda>_. False)
       (sample_cfg\<lparr>cfg_admin := (cfg_admin sample_cfg)\<lparr>ac_password_hash := ''a-hash''\<rparr>\<rparr>)"
proof -
  let ?bad = "sample_cfg\<lparr>cfg_admin := (cfg_admin sample_cfg)\<lparr>ac_password_hash := ''a-hash''\<rparr>\<rparr>"
  have d: "config_settings (map_of defaults) = Some sample_cfg"
    by (simp add: config_settings_def server_settings_def database_settings_def admin_settings_def defaults_def sample_cfg_def)
  have order: "mset (rev (timeouts (cfg_server c))) = mset (timeouts (cfg_server c))" for c by simp
  have good: "validate (\<lambda>_. Some utc_zone) (\<lambda>_. False) (rev (timeouts (cfg_server sample_cfg))) sample_cfg = None"
    and bad: "validate (\<lambda>_. Some utc_zone) (\<lambda>_. False) (rev (timeouts (cfg_server ?bad))) ?bad \<noteq> None"
    by code_simp+
  note rules = conjunct1 [OF validation_is_the_rules [OF order, of "\<lambda>_. Some utc_zone" "\<lambda>_. False"]]
  show ?thesis
    using d good bad unfolding rules [of sample_cfg] rules [of ?bad] by (intro conjI)
qed

section \<open>The settings\<close>

text \<open>Two settings of one type.\<close>

fun same_type :: "setting \<Rightarrow> setting \<Rightarrow> bool" where
  "same_type (SInt _) (SInt _) \<longleftrightarrow> True"
| "same_type (SDuration _) (SDuration _) \<longleftrightarrow> True"
| "same_type (SString _) (SString _) \<longleftrightarrow> True"
| "same_type (SBool _) (SBool _) \<longleftrightarrow> True"
| "same_type _ _ \<longleftrightarrow> False"

lemma same_type_iff:
  "same_type (SInt i) v \<longleftrightarrow> (\<exists>j. v = SInt j)" "same_type (SDuration d) v \<longleftrightarrow> (\<exists>j. v = SDuration j)"
  "same_type (SString s) v \<longleftrightarrow> (\<exists>j. v = SString j)" "same_type (SBool b) v \<longleftrightarrow> (\<exists>j. v = SBool j)"
  by (cases v; simp)+

text \<open>
  The settings that the sources above the defaults give, each of the type of its field; and those in effect: what
  the sources give of the keys that have a default, or the default.
\<close>

definition typed_settings :: "(string \<Rightarrow> setting option) \<Rightarrow> bool" where
  "typed_settings s \<longleftrightarrow> list_all (\<lambda>(k, d). case s k of None \<Rightarrow> True | Some v \<Rightarrow> same_type d v) defaults"

definition effective :: "(string \<Rightarrow> setting option) \<Rightarrow> string \<Rightarrow> setting option" where
  "effective s k = (case map_of defaults k of None \<Rightarrow> None | Some d \<Rightarrow> Some (case s k of None \<Rightarrow> d | Some v \<Rightarrow> v))"

lemma effective_typed:
  assumes "typed_settings s" and "map_of defaults k = Some d"
  shows "\<exists>v. effective s k = Some v \<and> same_type d v"
proof -
  have "(k, d) \<in> set defaults" using assms(2) by (rule map_of_SomeD)
  moreover have "same_type d d" by (cases d) simp_all
  ultimately show ?thesis using assms by (auto simp: effective_def typed_settings_def list_all_iff split: option.splits)
qed

lemma distinct_env: "distinct (map (env_name \<circ> fst) defaults)"
  by (simp add: env_name_def defaults_def EnvPrefix_def)


text \<open>What is read of a setting, which is all there is to a setting of the type of its default.\<close>

lemma reads_typed:
  assumes "typed_settings s"
  shows "map_of defaults k = Some (SInt d) \<Longrightarrow> \<exists>i. effective s k = Some (SInt i)"
    and "map_of defaults k = Some (SDuration t) \<Longrightarrow> \<exists>i. effective s k = Some (SDuration i)"
    and "map_of defaults k = Some (SString x) \<Longrightarrow> \<exists>i. effective s k = Some (SString i)"
    and "map_of defaults k = Some (SBool b) \<Longrightarrow> \<exists>i. effective s k = Some (SBool i)"
  using effective_typed [OF assms, of k] by (auto simp: same_type_iff)

text \<open>Every field of a configuration as the setting of its key.\<close>

definition all_settings :: "config \<Rightarrow> (string \<times> setting) list" where
  "all_settings c =
     (let sv = cfg_server c; db = cfg_database c; ad = cfg_admin c
      in [(''server.port'', SInt (sc_port sv)), (''server.read_timeout'', SDuration (sc_read_timeout sv)),
          (''server.write_timeout'', SDuration (sc_write_timeout sv)), (''server.shutdown_timeout'', SDuration (sc_shutdown_timeout sv)),
          (''database.url'', SString (dc_url db)), (''database.pool'', SInt (dc_pool db)), (''database.idle_pool'', SInt (dc_idle_pool db)),
          (''database.conn_max_lifetime'', SDuration (dc_conn_max_lifetime db)),
          (''admin.password_hash'', SString (ac_password_hash ad)), (''admin.session_secret'', SString (ac_session_secret ad)),
          (''admin.session_ttl'', SDuration (ac_session_ttl ad)), (''admin.insecure_cookie'', SBool (ac_insecure_cookie ad)),
          (''admin.timezone'', SString (ac_timezone ad)), (''admin.login_attempts'', SInt (ac_login_attempts ad)),
          (''admin.login_window'', SDuration (ac_login_window ad)), (''log_level'', SString (cfg_log_level c))])"

text \<open>
  C31: every setting has its place. Whatever the sources set, as long as each value has the type of the key's
  default, it decodes to a configuration whose fields are exactly the settings in effect: no field is
  left without a value, none is read from the key of another, and none is lost; and no two settings are read from the
  same environment variable.
\<close>

theorem every_setting_is_typed:
  assumes "typed_settings s"
  shows "distinct (map (env_name \<circ> fst) defaults) \<and>
    (\<exists>cfg. config_settings (effective s) = Some cfg \<and> map_of (all_settings cfg) = effective s)"
proof -
  obtain i1 i2 i3 i4 where i: "effective s ''server.port'' = Some (SInt i1)" "effective s ''database.pool'' = Some (SInt i2)"
    "effective s ''database.idle_pool'' = Some (SInt i3)" "effective s ''admin.login_attempts'' = Some (SInt i4)"
    using reads_typed(1) [OF assms, of "''server.port''"]
      reads_typed(1) [OF assms, of "''database.pool''"]
      reads_typed(1) [OF assms, of "''database.idle_pool''"]
      reads_typed(1) [OF assms, of "''admin.login_attempts''"]
    by (auto simp: defaults_def)
  obtain d1 d2 d3 d4 d5 d6 where d: "effective s ''server.read_timeout'' = Some (SDuration d1)"
    "effective s ''server.write_timeout'' = Some (SDuration d2)" "effective s ''server.shutdown_timeout'' = Some (SDuration d3)"
    "effective s ''database.conn_max_lifetime'' = Some (SDuration d4)" "effective s ''admin.session_ttl'' = Some (SDuration d5)"
    "effective s ''admin.login_window'' = Some (SDuration d6)"
    using reads_typed(2) [OF assms, of "''server.read_timeout''"]
      reads_typed(2) [OF assms, of "''server.write_timeout''"]
      reads_typed(2) [OF assms, of "''server.shutdown_timeout''"]
      reads_typed(2) [OF assms, of "''database.conn_max_lifetime''"]
      reads_typed(2) [OF assms, of "''admin.session_ttl''"]
      reads_typed(2) [OF assms, of "''admin.login_window''"]
    by (auto simp: defaults_def)
  obtain s1 s2 s3 s4 s5 where t: "effective s ''database.url'' = Some (SString s1)" "effective s ''admin.password_hash'' = Some (SString s2)"
    "effective s ''admin.session_secret'' = Some (SString s3)" "effective s ''admin.timezone'' = Some (SString s4)"
    "effective s ''log_level'' = Some (SString s5)"
    using reads_typed(3) [OF assms, of "''database.url''"]
      reads_typed(3) [OF assms, of "''admin.password_hash''"]
      reads_typed(3) [OF assms, of "''admin.session_secret''"]
      reads_typed(3) [OF assms, of "''admin.timezone''"]
      reads_typed(3) [OF assms, of "''log_level''"]
    by (auto simp: defaults_def)
  obtain b where b: "effective s ''admin.insecure_cookie'' = Some (SBool b)"
    using reads_typed(4) [OF assms, of "''admin.insecure_cookie''"]
    by (auto simp: defaults_def)
  let ?cfg = "\<lparr>cfg_server = \<lparr>sc_port = i1, sc_read_timeout = d1, sc_write_timeout = d2, sc_shutdown_timeout = d3\<rparr>,
      cfg_database = \<lparr>dc_url = s1, dc_pool = i2, dc_idle_pool = i3, dc_conn_max_lifetime = d4\<rparr>,
      cfg_admin = \<lparr>ac_password_hash = s2, ac_session_secret = s3, ac_session_ttl = d5, ac_insecure_cookie = b,
        ac_timezone = s4, ac_login_attempts = i4, ac_login_window = d6\<rparr>,
      cfg_log_level = s5\<rparr>"
  have "config_settings (effective s) = Some ?cfg"
    by (simp add: config_settings_def server_settings_def database_settings_def admin_settings_def i d t b)
  moreover have "map_of (all_settings ?cfg) = effective s"
  proof
    fix k
    show "map_of (all_settings ?cfg) k = effective s k"
    proof (cases "k \<in> fst ` set defaults")
      case True
      then show ?thesis by (auto simp: defaults_def all_settings_def i d t b)
    next
      case False
      then have "map_of defaults k = None" by (simp add: map_of_eq_None_iff)
      moreover have "map_of (all_settings ?cfg) k = None" using False by (simp add: defaults_def all_settings_def)
      ultimately show ?thesis by (simp add: effective_def)
    qed
  qed
  ultimately show ?thesis using distinct_env by blast
qed

theorem every_setting_is_typed_witness:
  "\<exists>cfg. config_settings (effective [''server.port'' \<mapsto> SInt 80]) = Some cfg \<and> sc_port (cfg_server cfg) = 80 \<and>
     dc_pool (cfg_database cfg) = 5"
proof -
  have "typed_settings [''server.port'' \<mapsto> SInt 80]" by (simp add: typed_settings_def defaults_def)
  from every_setting_is_typed [OF this] obtain cfg where
    cfg: "config_settings (effective [''server.port'' \<mapsto> SInt 80]) = Some cfg"
      "map_of (all_settings cfg) = effective [''server.port'' \<mapsto> SInt 80]" by blast
  have "map_of (all_settings cfg) ''server.port'' = Some (SInt 80)" "map_of (all_settings cfg) ''database.pool'' = Some (SInt 5)"
    unfolding cfg(2) by (simp_all add: effective_def defaults_def)
  then show ?thesis using cfg(1) by (simp add: all_settings_def Let_def)
qed

end
