(* ===== verification/Site_Facts.thy ===== *)
theory Site_Facts
  imports Server Config_Facts Guard_Facts
begin

text \<open>
  The commands and the site they serve: what \<^verbatim>\<open>serve\<close> insists on before it serves, that a printed hash lets
  its password log in, and that Admin is there only when it is configured.
\<close>

section \<open>The serve command\<close>

definition opened :: "effect list \<Rightarrow> nat" where
  "opened es = length (filter (\<lambda>e. e = OnDb ConnOpen) es)"

definition closed :: "effect list \<Rightarrow> nat" where
  "closed es = length (filter (\<lambda>e. e = OnDb ConnClose) es)"

text \<open>Effects that write to the database.\<close>

definition writes :: "effect \<Rightarrow> bool" where
  "writes e \<longleftrightarrow> (\<exists>n. e \<in> {OnDb RunUp, OnDb (RunDown n)})"

lemma open_database_effects:
  "open_database env = (r, es) \<Longrightarrow> es = (case r of Inl _ \<Rightarrow> if env_new_connection env = None \<and> env_open env = None then [ConnOpen, ConnClose] else []
     | Inr _ \<Rightarrow> [ConnOpen])"
  by (auto simp: open_database_def ping_def split: option.splits)

text \<open>
  C28: \<^verbatim>\<open>serve\<close> serves only a configuration that was loaded and keeps the rules, on a database that answered
  and has every migration applied; it migrates nothing itself, and closes every connection it opened.
\<close>

theorem serve_needs_config_and_schema:
  assumes "serve_command (app_config server_flags bind_p order (\<lambda>bound. load_config read_in (unmarshal bound) check path)) env run = (err, es)"
    and "mset timeouts_order = mset (timeouts (cfg_server cfg))" and "check cfg = validate zones ip6 timeouts_order cfg"
  shows "(Serving cfg \<in> set es \<longrightarrow>
      (\<exists>bound. bind_flags server_flags bind_p order = Inr bound \<and> unmarshal bound = Inr cfg) \<and> valid_config zones ip6 cfg \<and> ping env = None \<and> pending env = Inr [] \<and>
      err = map_option ServerError (run cfg)) \<and>
    \<not> list_ex writes es \<and> opened es = closed es"
proof -
  let ?resolved = "app_config server_flags bind_p order (\<lambda>bound. load_config read_in (unmarshal bound) check path)"
  have resolved: "(\<exists>bound. bind_flags server_flags bind_p order = Inr bound \<and> unmarshal bound = Inr c) \<and> check c = None" if "?resolved = Inr c" for c
    using that by (auto simp: app_config_def load_config_def split: sum.splits option.splits)
  show ?thesis
  proof (cases "?resolved")
    case (Inl e)
    with assms(1) show ?thesis by (auto simp: serve_command_def opened_def closed_def)
  next
    case (Inr c)
    note c = resolved [OF Inr]
    obtain r fx where o: "open_database env = (r, fx)" by (cases "open_database env")
    show ?thesis
    proof (cases r)
      case (Inl e)
      with assms(1) Inr o open_database_effects [OF o] show ?thesis
        by (auto simp: serve_command_def opened_def closed_def writes_def split: if_splits)
    next
      case ok: (Inr u)
      have "ping env = None" using o ok by (auto simp: open_database_def split: option.splits)
      moreover have "valid_config zones ip6 c" if "c = cfg"
        using c assms(3) that validate_None [of zones ip6 timeouts_order cfg] valid_config_iff [OF assms(2)] by simp
      ultimately show ?thesis
        using assms(1) Inr o ok open_database_effects [OF o] c
        by (auto simp: serve_command_def require_current_schema_def opened_def closed_def writes_def
            split: option.splits sum.splits if_splits)
    qed
  qed
qed

theorem serve_needs_config_and_schema_witness:
  "Serving sample_cfg \<in> set (snd (serve_command
      (app_config server_flags (\<lambda>_ _. None) flag_bindings
        (\<lambda>_. load_config (\<lambda>_. FileNotFound) (Inr sample_cfg)
          (validate (\<lambda>_. Some utc_zone) (\<lambda>_. False) (rev (timeouts (cfg_server sample_cfg)))) []))
      sample_env (\<lambda>_. Some ''boom''))) \<and>
    valid_config (\<lambda>_. Some utc_zone) (\<lambda>_. False) sample_cfg \<and> pending sample_env = Inr []"
proof -
  let ?order = "rev (timeouts (cfg_server sample_cfg))"
  let ?check = "validate (\<lambda>_. Some utc_zone) (\<lambda>_. False) ?order"
  let ?r = "app_config server_flags (\<lambda>_ _. None) flag_bindings (\<lambda>_. load_config (\<lambda>_. FileNotFound) (Inr sample_cfg) ?check [])"
  let ?s = "serve_command ?r sample_env (\<lambda>_. Some ''boom'')"
  have "?check sample_cfg = None" by code_simp
  then have "?r = Inr sample_cfg"
    by (simp add: load_config_def app_config_def read_config_file_def server_flags_def root_flags_def flag_bindings_def)
  moreover have "pending sample_env = Inr []" by code_simp
  ultimately have "Serving sample_cfg \<in> set (snd ?s)"
    by (simp add: serve_command_def open_database_def ping_def require_current_schema_def sample_env_def)
  then show ?thesis
    using serve_needs_config_and_schema [where bind_p = "\<lambda>_ _. None" and order = flag_bindings and cfg = sample_cfg
        and read_in = "\<lambda>_. FileNotFound" and unmarshal = "\<lambda>_. Inr sample_cfg" and check = ?check and path = "[]"
        and timeouts_order = ?order and zones = "\<lambda>_. Some utc_zone" and ?ip6.0 = "\<lambda>_. False",
        OF prod.collapse [of ?s, symmetric] mset_rev refl]
    by simp
qed

section \<open>From the printed hash to a session\<close>

lemma trim_right_set_line:
  assumes "newline \<notin> set pw" and "pw = [] \<or> last pw \<noteq> carriage" and "set eol \<subseteq> {newline, carriage}"
  shows "trim_right_set [carriage, newline] (pw @ eol) = pw"
proof -
  have "dropWhile (\<lambda>c. c \<in> set [carriage, newline]) (rev eol @ rev pw) = dropWhile (\<lambda>c. c \<in> set [carriage, newline]) (rev pw)"
    using assms(3) by (intro dropWhile_append2) auto
  also have "\<dots> = rev pw" using assms(1,2) by (cases pw rule: rev_cases) auto
  finally show ?thesis by (simp add: trim_right_set_def)
qed

text \<open>A password as it is given: at a terminal, or on the first line of a pipe, however the line ends.\<close>

definition password_given :: "string \<Rightarrow> stdin \<Rightarrow> bool" where
  "password_given pw input \<longleftrightarrow>
     (case input of
        Terminal answer \<Rightarrow> answer = Inr pw
      | Pipe contents err \<Rightarrow>
          newline \<notin> set pw \<and> (pw = [] \<or> last pw \<noteq> carriage) \<and>
          (\<exists>eol more. contents = pw @ eol @ more \<and> (eol \<in> {[newline], [carriage, newline]} \<or> eol @ more \<in> {[], [carriage]})))"

lemma read_password_given:
  assumes "password_given pw input" and "pw \<noteq> []"
  shows "read_password input = Inr pw"
proof (cases input)
  case (Terminal a)
  with assms show ?thesis by (simp add: password_given_def read_password_def)
next
  case (Pipe contents err)
  from assms(1) Pipe obtain eol more where pw: "newline \<notin> set pw" "pw = [] \<or> last pw \<noteq> carriage"
    and contents: "contents = pw @ eol @ more" and eol: "eol \<in> {[newline], [carriage, newline]} \<or> eol @ more \<in> {[], [carriage]}"
    by (auto simp: password_given_def)
  note trim = trim_right_set_line [OF pw]
  from eol show ?thesis
  proof
    assume "eol \<in> {[newline], [carriage, newline]}"
    then obtain e where e: "eol = e @ [newline]" "newline \<notin> set e" "set e \<subseteq> {newline, carriage}" by auto
    then have "cut newline contents = Some (pw @ e, more)"
      using cut_found [of newline "pw @ e" more] pw(1) by (simp add: contents)
    moreover have "trim_right_set [carriage, newline] (pw @ e @ [newline]) = pw" using e by (intro trim) auto
    ultimately show ?thesis using Pipe by (simp add: read_password_def read_line_def)
  next
    assume "eol @ more \<in> {[], [carriage]}"
    then have "cut newline contents = None" and "trim_right_set [carriage, newline] contents = pw"
      using pw(1) trim [of "[]"] trim [of "[carriage]"] by (auto simp: contents intro!: cut_absent)
    then show ?thesis using Pipe assms(2) by (simp add: read_password_def read_line_def contents)
  qed
qed

definition posts_login :: "request \<Rightarrow> bool" where
  "posts_login r \<longleftrightarrow> req_method r = ''POST'' \<and> url_path r = ''/admin/login'' \<and> escaped_path r = ''/admin/login'' \<and>
     \<not> parse_form_error r"

lemma posts_login_route: "posts_login r \<Longrightarrow> find_route public_patterns r = Some (LoginPost, [])"
proof -
  assume "posts_login r"
  moreover have "drop 1 (split_on (CHR ''/'') ''/admin/login'') = [''admin'', ''login'']" by code_simp
  moreover have "path_unescape ''admin'' = Some ''admin''" "path_unescape ''login'' = Some ''login''" by code_simp+
  ultimately have "path_segments r = [''admin'', ''login'']" "req_method r = ''POST''"
    by (simp_all add: posts_login_def path_segments_def)
  then show ?thesis by (simp add: find_route_def public_patterns_def method_matches_def List.map_filter_def)
qed

lemma encode_hash_nonempty: "encode_hash h \<noteq> []"
  by (simp add: encode_hash_def)

text \<open>
  C34: what \<^verbatim>\<open>admin hash-password\<close> prints for a password, put into the configuration beside any session
  secret, mounts Admin and lets that password in at its login, from a terminal and from a pipe; another
  password gets in only if argon2id maps the two to the same key.
\<close>

theorem printed_hash_logs_in:
  assumes "idkey_returns_key_len (ex_idkey ext)" and "password_given pw input" and "pw \<noteq> []"
    and "hash_password_command (ex_idkey ext) (Inr salt) input = Inr (ac_password_hash (cfg_admin cfg) @ [newline])"
    and "secret_set (ac_session_secret (cfg_admin cfg))" and "posts_login r"
    and "fst (limiter_allow (sv_logins sv) (now AtAllow) (client_ip r))"
  shows "(let w = fst (site zones ext static st cfg now answered r empty_response sv);
      entered = post_form_value r ''password''
    in (if ex_idkey ext entered salt 3 65536 4 32 = ex_idkey ext pw salt 3 65536 4 32
        then status w = 303 \<and> set_cookies w =
          [sessions_issue (new_sessions (secret_raw (ac_session_secret (cfg_admin cfg))) (ac_session_ttl (cfg_admin cfg))
             (ac_insecure_cookie (cfg_admin cfg))) (now AtIssue)]
        else status w = 401 \<and> set_cookies w = [] \<or> body w = Aborted \<and> set_cookies w = []))"
proof -
  let ?a = "cfg_admin cfg" and ?e = "post_form_value r ''password''"
  let ?h = "new_handler st zones ext ?a"
  have hashed: "hash_password (ex_idkey ext) (Inr salt) pw = Inr (ac_password_hash ?a)"
    using assms(3,4) read_password_given [OF assms(2,3)] by (auto simp: hash_password_command_def split: sum.splits)
  then have "admin_enabled ?a"
    using assms(5) by (auto simp: admin_enabled_def secret_set_def hash_password_def encode_hash_nonempty split: option.splits)
  then have "site zones ext static st cfg now answered r empty_response sv = serve ?h static now r sv"
    using assms(6) by (simp add: site_def site_routes_def serve_def posts_login_def)
  moreover have "serve ?h static now r sv = login ?h now (r\<lparr>path_id := []\<rparr>) secured_response sv"
    by (simp add: serve_split posts_login_route [OF assms(6)] run_route_def)
  moreover have h: "h_hash ?h = ac_password_hash ?a" "ex_idkey (h_ext ?h) = ex_idkey ext"
    "h_sessions ?h = new_sessions (secret_raw (ac_session_secret ?a)) (ac_session_ttl ?a) (ac_insecure_cookie ?a)"
    by (simp_all add: new_handler_def secret_raw_def)
  moreover have "\<exists>key. ex_idkey ext pw salt 3 65536 4 32 = Some key"
    using hashed by (auto simp: hash_password_def argon2Params_def split: option.splits)
  ultimately show ?thesis
    using conjunct2 [OF verify_hashed [OF assms(1) hashed, of ?e]] assms(6,7)
    by (auto simp: Let_def login_def posts_login_def render_login_failure_def login_screen_def split: option.splits prod.splits)
qed

theorem printed_hash_logs_in_witness:
  "\<exists>cfg. hash_password_command sample_idkey (Inr ''salt'') (Pipe (''open'' @ [newline]) ''EOF'') =
      Inr (ac_password_hash (cfg_admin cfg) @ [newline]) \<and>
    status (fst (site (\<lambda>_. None) sample_ext (\<lambda>_. None) (content_store clock_v7 schema_conn) cfg sample_now None
      (login_request ''password=open'') empty_response sample_server)) = 303"
proof -
  obtain h where h: "hash_password sample_idkey (Inr ''salt'') ''open'' = Inr h"
    by (simp add: hash_password_def sample_idkey_def)
  let ?cfg = "sample_cfg\<lparr>cfg_admin := sample_config\<lparr>ac_password_hash := h\<rparr>\<rparr>"
  let ?in = "Pipe (''open'' @ [newline]) ''EOF''" and ?r = "login_request ''password=open''"
  have len: "idkey_returns_key_len (ex_idkey sample_ext)" by (simp add: sample_ext_def sample_idkey_len)
  have given: "password_given ''open'' ?in" by (auto simp: password_given_def)
  have out: "hash_password_command (ex_idkey sample_ext) (Inr ''salt'') ?in = Inr (ac_password_hash (cfg_admin ?cfg) @ [newline])"
    using h read_password_given [OF given] by (simp add: hash_password_command_def sample_ext_def)
  have secret: "secret_set (ac_session_secret (cfg_admin ?cfg))" by (simp add: sample_config_def secret_set_def)
  have posts: "posts_login ?r" unfolding posts_login_def by (intro conjI) (code_simp+)
  have entered: "post_form_value ?r ''password'' = ''open''" by code_simp
  show ?thesis
    using printed_hash_logs_in [where cfg = ?cfg and sv = sample_server and now = sample_now and r = ?r and ext = sample_ext
        and zones = "\<lambda>_. None" and static = "\<lambda>_. None" and answered = None and st = "content_store clock_v7 schema_conn",
        OF len given _ out secret posts sample_allows] out entered
    by (intro exI [of _ ?cfg]) (simp add: Let_def sample_ext_def)
qed

section \<open>What is mounted\<close>

text \<open>What the health checks and an unmounted Admin answer, whatever else is going on.\<close>

definition nothing_there :: page_response where
  "nothing_there = http_error ''404 page not found'' 404 empty_response"

text \<open>
  C35: Admin is there only if both of its secrets are set: without them every address but the two health
  checks is answered 404, and nothing can be changed. With them its addresses are its own, and nobody
  else's. \<^verbatim>\<open>readyz\<close> answers 200 exactly if the database does, and says the same whatever the error is;
  \<^verbatim>\<open>healthz\<close> does not ask the database.
\<close>

theorem admin_only_when_configured:
  "(let run = \<lambda>answered. site zones ext static st cfg now answered r empty_response sv;
       own = prefix ''/admin/'' (url_path r);
       health = url_path r \<in> {''/healthz'', ''/readyz''}
    in (\<not> admin_enabled (cfg_admin cfg) \<longrightarrow> snd (run answered) = sv \<and> (\<not> health \<longrightarrow> fst (run answered) = nothing_there)) \<and>
      (admin_enabled (cfg_admin cfg) \<and> own \<longrightarrow>
         run answered = serve (new_handler st zones ext (cfg_admin cfg)) static now r sv) \<and>
      (\<not> own \<longrightarrow> snd (run answered) = sv \<and> set_cookies (fst (run answered)) = []) \<and>
      (url_path r = ''/readyz'' \<and> req_method r = ''GET'' \<longrightarrow>
         (status (fst (run answered)) = 200 \<longleftrightarrow> answered = None) \<and>
         fst (run (Some e)) = fst (run (Some e'))) \<and>
      (url_path r = ''/healthz'' \<and> req_method r = ''GET'' \<longrightarrow>
         status (fst (run answered)) = 200 \<and> run answered = run other))"
  by (auto simp: Let_def site_def site_routes_def serve_def nothing_there_def only_get_def readyz_def healthz_def
      plain_answer_def empty_response_def http_redirect_def http_error_def split: option.split)

theorem admin_only_when_configured_witness:
  "let run = \<lambda>cfg. site (\<lambda>_. None) sample_ext (\<lambda>_. None) (content_store clock_v7 schema_conn) cfg sample_now None
     sample_request empty_response sample_server
   in run sample_cfg = (nothing_there, sample_server) \<and>
     run (sample_cfg\<lparr>cfg_admin := sample_config\<rparr>) =
       serve (new_handler (content_store clock_v7 schema_conn) (\<lambda>_. None) sample_ext sample_config) (\<lambda>_. None) sample_now
         sample_request sample_server"
proof -
  have path: "prefix ''/admin/'' (url_path sample_request)" "url_path sample_request \<notin> {''/healthz'', ''/readyz''}"
    by (simp_all add: sample_request_def)
  have off: "\<not> admin_enabled (cfg_admin sample_cfg)" by code_simp
  have on: "admin_enabled (cfg_admin (sample_cfg\<lparr>cfg_admin := sample_config\<rparr>))"
    by (simp add: admin_enabled_def secret_set_def sample_config_def encode_hash_nonempty)
  note mounted = admin_only_when_configured [unfolded Let_def, where zones = "\<lambda>_. None" and ext = sample_ext
      and static = "\<lambda>_. None" and st = "content_store clock_v7 schema_conn" and now = sample_now and answered = None
      and r = sample_request and sv = sample_server]
  show ?thesis
    using mounted [where cfg = sample_cfg] mounted [where cfg = "sample_cfg\<lparr>cfg_admin := sample_config\<rparr>"] path off on
    by (simp add: Let_def prod_eq_iff)
qed

end
