(* ===== verification/Service_Facts.thy ===== *)
theory Service_Facts
  imports Site_Facts
begin

text \<open>
  The running service: its states, from the start through requests, restarts and failures of the database,
  and what holds in all of them; and what opening an editor and saving it as it is does to a record.
\<close>

section \<open>Writes only add and replace\<close>

definition grown :: "('s \<Rightarrow> bool) \<Rightarrow> ('s \<Rightarrow> 'i set) \<Rightarrow> ('s \<Rightarrow> 'j set) \<Rightarrow> 's \<Rightarrow> 's \<Rightarrow> bool" where
  "grown ok ids others s s' \<longleftrightarrow> ok s' \<and> ids s \<subseteq> ids s' \<and> others s \<subseteq> others s'"

lemma grown_refl: "ok s \<Longrightarrow> grown ok ids others s s"
  by (simp add: grown_def)

lemma grown_trans: "grown ok ids others s t \<Longrightarrow> grown ok ids others t u \<Longrightarrow> grown ok ids others s u"
  unfolding grown_def by blast

lemma replaced_ids: "old \<in> R \<Longrightarrow> idf old = idf q \<Longrightarrow> idf ` R \<subseteq> idf ` replaced idf q R"
  by (force simp: replaced_def image_iff)

context writing_resource
begin

abbreviation kept_records :: "'s \<Rightarrow> 's \<Rightarrow> bool" where
  "kept_records \<equiv> grown ok (\<lambda>s. rec_id ` records s) (\<lambda>s. {others s})"

lemma create_adds:
  assumes "ok s" and "res_create res s rc = (x, s')"
  shows "others s' = others s \<and> (records s' = records s \<or> (\<exists>q. records s' = insert q (records s)))"
  using created [OF assms(1), of rc _ s'] create_failed [OF assms(1), of rc _ s'] assms(2) by (cases x) auto

lemma create_grown: "ok s \<Longrightarrow> kept_records s (snd (res_create res s rc))"
  using create_adds [of s rc "fst (res_create res s rc)" "snd (res_create res s rc)"] ok_writes [of s rc]
  by (auto simp: grown_def)

lemma update_grown: "ok s \<Longrightarrow> kept_records s (snd (res_update res s rc wd))"
proof -
  assume ok: "ok s"
  obtain x s' where c: "res_update res s rc wd = (x, s')" by fastforce
  have "others s' = others s \<and> (records s' = records s \<or>
      (\<exists>old \<in> records s. \<exists>q. rec_id old = rec_id q \<and> records s' = replaced rec_id q (records s)))"
    using was_updated [OF ok, of rc wd _ s'] update_failed [OF ok, of rc wd _ s'] c
    by (cases x) (fastforce simp: same_record_def written_def)+
  then have "others s' = others s \<and> rec_id ` records s \<subseteq> rec_id ` records s'" 
    by (elim conjE disjE bexE exE) (simp, simp only: replaced_ids simp_thms)
  then show ?thesis using ok_writes [OF ok] c by (auto simp: grown_def) (metis snd_conv)
qed

lemma save_grown:
  assumes "ok (sv_db sv)"
  shows "kept_records (sv_db sv) (sv_db (snd (save h now res n r w sv))) \<and> sv_logins (snd (save h now res n r w sv)) = sv_logins sv"
proof (cases "parse_form_error r")
  case True
  then show ?thesis using assms by (simp add: save_bad_form grown_refl)
next
  case parsed: False
  obtain f rc e where sub: "submitted h now r res n = (f, rc, e)" by (cases "submitted h now r res n")
  show ?thesis
  proof (cases e)
    case (Some err)
    then show ?thesis using sub assms by (simp add: save_bad_fields [OF parsed] grown_refl)
  next
    case None
    obtain f' rc' where ch: "chosen h now r f rc = (f', rc')" by (cases "chosen h now r f rc")
    obtain result s' where at: "attempt res n (sv_db sv) rc' = (result, s')" by (cases "attempt res n (sv_db sv) rc'")
    have "kept_records (sv_db sv) s'"
      using at create_grown [OF assms, of rc'] update_grown [OF assms, of rc' True]
      by (auto simp: attempt_def split: if_splits prod.splits sum.splits)
    then show ?thesis
      using save_written [OF parsed sub [unfolded None] ch at, of w] by (cases result) (auto split: option.split)
  qed
qed

lemma autosave_grown:
  assumes "ok (sv_db sv)"
  shows "kept_records (sv_db sv) (sv_db (snd (autosave h now res r w sv))) \<and>
    sv_logins (snd (autosave h now res r w sv)) = sv_logins sv"
proof -
  have "sv_db (snd (autosave h now res r w sv)) = sv_db sv \<or>
      (\<exists>rc. sv_db (snd (autosave h now res r w sv)) = snd (res_update res (sv_db sv) rc False))"
    by (auto simp: autosave_def Let_def split: sum.split option.split prod.split) (metis snd_conv)+
  then show ?thesis
    using assms update_grown [OF assms] autosave_effect [OF assms, of h now r w] by (auto simp: grown_refl prod_eq_iff)
qed

end

context admin_store
begin

abbreviation kept :: "'s \<Rightarrow> 's \<Rightarrow> bool" where
  "kept \<equiv> grown ok (\<lambda>s. post_id ` posts s) (\<lambda>s. page_id ` pages s)"

lemma kept_by_posts: "post_res.kept_records s s' \<Longrightarrow> kept s s'"
  by (simp add: grown_def image_image record_of_post_def)

lemma kept_by_pages: "page_res.kept_records s s' \<Longrightarrow> kept s s'"
  by (simp add: grown_def image_image record_of_page_def)

end

section \<open>One request\<close>

definition counted :: "limiter \<Rightarrow> bool" where
  "counted l \<longleftrightarrow> (\<forall>k w. lim_windows l k = Some w \<longrightarrow> 1 \<le> win_count w)"

lemma counted_simps:
  "counted (new_limiter n d)" "counted l \<Longrightarrow> counted (snd (limiter_allow l t k))" "counted l \<Longrightarrow> counted (limiter_reset l k)"
  by (auto simp: counted_def new_limiter_def limiter_allow_def limiter_reset_def drop_expired_def Let_def
      split: option.split if_splits) fastforce+

text \<open>The limiter a configuration asks for, with counters that count.\<close>

definition limits :: "admin_config \<Rightarrow> limiter \<Rightarrow> bool" where
  "limits a l \<longleftrightarrow> lim_limit l = ac_login_attempts a \<and> lim_window l = ac_login_window a \<and> counted l"

lemma login_limits: "limits a (sv_logins sv) \<Longrightarrow> limits a (sv_logins (snd (login h now r w sv)))"
  by (auto simp: limits_def login_def Let_def prod_eq_iff split: prod.split sum.split password_error.split dest: sym)
    (metis counted_simps(2,3) limiter_allow_fields snd_conv)+

context admin_store
begin

lemma route_kept:
  assumes "ok (sv_db sv)" and "h_store h = st"
  shows "kept (sv_db sv) (sv_db (snd (run_route h static now rt r w sv)))"
proof (cases rt)
  case LoginPost
  then show ?thesis using assms(1) by (simp add: run_route_def login_leaves_store grown_refl)
next
  case CreatePost
  then show ?thesis using post_res.save_grown [OF assms(1)] assms(2) by (simp add: run_route_def kept_by_posts)
next
  case UpdatePost
  then show ?thesis using post_res.save_grown [OF assms(1)] assms(2) by (simp add: run_route_def kept_by_posts)
next
  case AutosavePost
  then show ?thesis using post_res.autosave_grown [OF assms(1)] assms(2) by (simp add: run_route_def kept_by_posts)
next
  case CreatePage
  then show ?thesis using page_res.save_grown [OF assms(1)] assms(2) by (simp add: run_route_def kept_by_pages)
next
  case UpdatePage
  then show ?thesis using page_res.save_grown [OF assms(1)] assms(2) by (simp add: run_route_def kept_by_pages)
next
  case AutosavePage
  then show ?thesis using page_res.autosave_grown [OF assms(1)] assms(2) by (simp add: run_route_def kept_by_pages)
qed (use assms(1) in \<open>auto simp: run_route_def login_form_handler_def serve_asset_def logout_def list_posts_def
    list_pages_def blank_def edit_def Let_def grown_refl split: option.split sum.split prod.split\<close>)

lemma route_limits:
  assumes "ok (sv_db sv)" and "h_store h = st" and "limits a (sv_logins sv)"
  shows "limits a (sv_logins (snd (run_route h static now rt r w sv)))"
  using assms post_res.save_grown [OF assms(1)] post_res.autosave_grown [OF assms(1)]
    page_res.save_grown [OF assms(1)] page_res.autosave_grown [OF assms(1)]
  by (cases rt) (auto simp: run_route_def login_limits login_form_handler_def serve_asset_def logout_def list_posts_def
    list_pages_def blank_def edit_def Let_def split: option.split sum.split prod.split)

lemma site_kept:
  assumes "ok (sv_db sv)" and "limits (cfg_admin cfg) (sv_logins sv)"
    and "sv' = snd (site zones ext static st cfg now answered r empty_response sv)"
  shows "kept (sv_db sv) (sv_db sv') \<and> limits (cfg_admin cfg) (sv_logins sv')"
proof -
  let ?h = "new_handler st zones ext (cfg_admin cfg)"
  have h: "h_store ?h = st" by (simp add: new_handler_def)
  have "snd (site zones ext static st cfg now answered r empty_response sv) \<in> {sv, snd (serve ?h static now r sv)}"
    by (auto simp: site_def site_routes_def serve_def)
  moreover have "snd (serve ?h static now r sv) = sv \<or>
      (\<exists>rt i. snd (serve ?h static now r sv) = snd (run_route ?h static now rt (r\<lparr>path_id := i\<rparr>) secured_response sv))"
    by (auto simp: serve_split no_route_def split: option.split sum.split list.split)
  ultimately show ?thesis
    using assms route_kept [OF assms(1) h] route_limits [OF assms(1) h assms(2)] by (auto simp: grown_refl)
qed

end

section \<open>All states\<close>

text \<open>What the driver returns while the database cannot be reached: none of the errors the store looks for.\<close>

definition outage :: "go_error option \<Rightarrow> bool" where
  "outage down \<longleftrightarrow>
     (case down of None \<Rightarrow> True | Some e \<Rightarrow> foreign_error e \<and> errors_as_pg e = None \<and> \<not> errors_is e ErrNoRows)"

text \<open>
  The states of the service on the migrated database: it starts, answers any request at any time, is
  restarted, which empties the limiter; and meanwhile time passes and the database goes and comes.
\<close>

inductive reachable ::
  "(string \<Rightarrow> zone option) \<Rightarrow> external \<Rightarrow> (string \<Rightarrow> string option) \<Rightarrow> (db \<Rightarrow> go_error + uuid) \<Rightarrow> config \<Rightarrow> db \<Rightarrow>
     db server \<Rightarrow> bool"
  for zones ext static new_v7 cfg db0 where
  started: "reachable zones ext static new_v7 cfg db0 (new_server db0 (cfg_admin cfg))"
| answered: "reachable zones ext static new_v7 cfg db0 sv \<Longrightarrow>
    reachable zones ext static new_v7 cfg db0
      (snd (site zones ext static (content_store new_v7 schema_conn) cfg now pinged r empty_response sv))"
| restarted: "reachable zones ext static new_v7 cfg db0 sv \<Longrightarrow>
    reachable zones ext static new_v7 cfg db0 (new_server (sv_db sv) (cfg_admin cfg))"
| elapsed: "reachable zones ext static new_v7 cfg db0 sv \<Longrightarrow> outage down \<Longrightarrow>
    reachable zones ext static new_v7 cfg db0 (sv\<lparr>sv_db := (sv_db sv)\<lparr>db_clock := t, db_down := down\<rparr>\<rparr>)"

context content_connection
begin

lemma content_admin_store:
  "admin_store (content_store new_v7 conn) valid (\<lambda>s. posts_in (rows s)) (\<lambda>s. pages_in (rows s)) st"
  by (rule admin.admin_store_axioms)

end

lemma schema_admin_store:
  assumes "\<And>d. v7_ok (new_v7 d)"
  shows "admin_store (content_store new_v7 schema_conn) schema_valid (\<lambda>s. posts_in (schema_rows s))
    (\<lambda>s. pages_in (schema_rows s)) micros"
  by (rule content_connection.content_admin_store)
    (rule content_connection.intro, rule sample_connection, rule content_connection_axioms.intro, rule assms)

lemma ids_of_tables:
  "schema_valid d \<Longrightarrow> post_id ` posts_in (schema_rows d) = r_id ` set (db_posts d)"
  "schema_valid d \<Longrightarrow> page_id ` pages_in (schema_rows d) = r_id ` set (db_pages d)"
  by (simp_all add: schema_posts schema_pages image_image db_table_def table_names_differ [symmetric])

lemma started_limits: "limits a (sv_logins (new_server db a))"
  using counted_simps(1) [of "ac_login_attempts a" "ac_login_window a"] by (simp add: limits_def new_server_def new_limiter_def)

text \<open>
  In every state the service can get into, whatever is asked of it in whatever order, both tables keep
  the rules of the schema, with unique identifiers and slugs, no identifier that was ever stored is gone,
  and the limiter is that of the configuration, with every counter it keeps at one or more.
\<close>

theorem service_invariant:
  assumes "reachable zones ext static new_v7 cfg db0 sv" and "\<And>d. v7_ok (new_v7 d)" and "schema_valid db0"
  shows "schema_valid (sv_db sv) \<and>
    r_id ` set (db_posts db0) \<subseteq> r_id ` set (db_posts (sv_db sv)) \<and>
    r_id ` set (db_pages db0) \<subseteq> r_id ` set (db_pages (sv_db sv)) \<and>
    limits (cfg_admin cfg) (sv_logins sv)"
  using assms(1)
proof induction
  case started
  with assms(3) show ?case by (simp add: started_limits) (simp add: new_server_def)
next
  case (answered sv now pinged r)
  let ?sv = "snd (site zones ext static (content_store new_v7 schema_conn) cfg now pinged r empty_response sv)"
  have valid: "schema_valid (sv_db sv)" and lim: "limits (cfg_admin cfg) (sv_logins sv)" using answered.IH by blast+
  note kept = admin_store.site_kept [OF schema_admin_store [of new_v7, OF assms(2)] valid lim refl,
      of zones ext static now pinged r, unfolded grown_def]
  then have valid': "schema_valid (sv_db ?sv)" by blast
  show ?case using kept answered.IH unfolding ids_of_tables [OF valid] ids_of_tables [OF valid'] by blast
next
  case (restarted sv)
  then show ?case by (simp add: started_limits) (simp add: new_server_def)
next
  case (elapsed sv down t)
  then show ?case by (simp add: schema_valid_def outage_def)
qed

theorem service_invariant_witness:
  "let sv = snd (site (\<lambda>_. None) sample_ext (\<lambda>_. None) (content_store clock_v7 schema_conn)
       (sample_cfg\<lparr>cfg_admin := sample_config\<rparr>) sample_now None (login_request ''password=open'') empty_response
       (new_server sample_db sample_config))
   in schema_valid (sv_db sv) \<and> {1, 2, 3} \<subseteq> r_id ` set (db_posts (sv_db sv)) \<and> limits sample_config (sv_logins sv)"
proof -
  let ?cfg = "sample_cfg\<lparr>cfg_admin := sample_config\<rparr>"
  have ids: "r_id ` set (db_posts sample_db) = {1, 2, 3}" by (simp add: sample_db_def sample_row_def)
  have "reachable (\<lambda>_. None) sample_ext (\<lambda>_. None) clock_v7 ?cfg sample_db (snd (site (\<lambda>_. None) sample_ext (\<lambda>_. None)
      (content_store clock_v7 schema_conn) ?cfg sample_now None (login_request ''password=open'') empty_response
      (new_server sample_db (cfg_admin ?cfg))))"
    by (intro answered started)
  from service_invariant [OF this clock_v7_ok sample_valid] show ?thesis by (simp add: Let_def ids)
qed

section \<open>Saving an editor as it was opened\<close>

text \<open>
  A form posted back with the texts it was shown with. (A browser sends the line ends of a textarea as
  CR LF; this is about texts it sends as they are.)
\<close>

definition sent_back :: "request \<Rightarrow> form \<Rightarrow> bool" where
  "sent_back r f \<longleftrightarrow>
     path_id r = form_id f \<and> \<not> publish_now r \<and>
     post_form_value r ''slug'' = form_slug f \<and> post_form_value r ''title'' = form_title f \<and>
     post_form_value r ''body'' = form_body_text f \<and> post_form_value r ''published_at'' = form_published_at f"

text \<open>A date the editor can show: four digits of a year, away from a change of the clocks.\<close>

definition editable :: "zone \<Rightarrow> go_time \<Rightarrow> bool" where
  "editable z t \<longleftrightarrow> 0 \<le> year_in z t \<and> year_in z t < 10000 \<and> steady z (t div nanos_per_second)"

definition to_the_minute :: "zone \<Rightarrow> go_time \<Rightarrow> go_time" where
  "to_the_minute z t = minute_start z t * nanos_per_second"

lemma format_editor_nonempty: "format_editor z t \<noteq> []"
  by (simp add: format_editor_def Let_def split: prod.split)

lemma parsed_back:
  assumes "\<And>t. rec_published_at rc = Some t \<Longrightarrow> editable (h_zone h) t"
  shows "parse_published_at h (form_published_at (form_of h now res rc)) =
    Inr (map_option (to_the_minute (h_zone h)) (rec_published_at rc))"
  using assms parse_format_editor [of "h_zone h"]
  by (auto simp: form_of_def parse_published_at_def editable_def to_the_minute_def format_editor_nonempty split: option.split)

text \<open>
  C40: an editor that is opened and saved as it is, where the save succeeds, keeps the whole of every
  record, but for its own Publication Date, which is cut to the minute the editor shows.
\<close>

theorem unchanged_save_keeps_the_record:
  assumes "admin_store (h_store h) ok posts pages stored" and "editor_of h posts pages res recs" and "ok (sv_db sv)"
    and "rc \<in> recs (sv_db sv)" and "sent_back r (form_of h opened_at res rc)"
    and "ex_uuid_from_string (h_ext h) (ex_uuid_string (h_ext h) (rec_id rc)) = Some (rec_id rc)"
    and "\<And>t. rec_published_at rc = Some t \<Longrightarrow> editable (h_zone h) t"
    and "status (fst (save h now res False r w sv)) \<in> {303, 204}"
  shows "recs (sv_db (snd (save h now res False r w sv))) =
    replaced rec_id (rc\<lparr>rec_published_at := map_option (stored \<circ> to_the_minute (h_zone h)) (rec_published_at rc)\<rparr>) (recs (sv_db sv))"
proof -
  note sent = assms(5) [unfolded sent_back_def]
  from accepted_save [OF assms(1,2,3,8)] obtain i q date where
    date: "parse_published_at h (post_form_value r ''published_at'') = Inr date"
    and q: "q = \<lparr>rec_id = i, rec_slug = post_form_value r ''slug'', rec_title = post_form_value r ''title'',
      rec_body = post_form_value r ''body'', rec_published_at = map_option stored (if publish_now r then Some (now AtPublishNow) else date)\<rparr>"
    and i: "ex_uuid_from_string (h_ext h) (path_id r) = Some i"
    and after: "recs (sv_db (snd (save h now res False r w sv))) = replaced rec_id q (recs (sv_db sv))"
    by auto
  have "i = rec_id rc" using i sent assms(6) by (simp add: form_of_def)
  moreover have "date = map_option (to_the_minute (h_zone h)) (rec_published_at rc)"
    using date parsed_back [of rc h opened_at res, OF assms(7)] sent by simp
  ultimately have "q = rc\<lparr>rec_published_at := map_option (stored \<circ> to_the_minute (h_zone h)) (rec_published_at rc)\<rparr>"
    using sent by (cases rc) (simp add: q form_of_def option.map_comp)
  with after show ?thesis by simp
qed

theorem unchanged_save_keeps_the_record_witness:
  "let r = posted ''1'' ''slug=live&title=Live&body=...&published_at=1970-01-01T00:00'';
       sv' = snd (save sample_handler sample_now (posts_resource (h_store sample_handler)) False r empty_response sample_server);
       rc = record_of_post (post_of_row (sample_row 1 ''live'' ''Live'' (Some 1000000) 1000))
   in rc \<in> record_of_post ` posts_in (schema_rows sample_db) \<and>
     record_of_post ` posts_in (schema_rows (sv_db sv')) =
       replaced rec_id (rc\<lparr>rec_published_at := Some 0\<rparr>) (record_of_post ` posts_in (schema_rows sample_db))"
proof -
  let ?r = "posted ''1'' ''slug=live&title=Live&body=...&published_at=1970-01-01T00:00''"
  let ?res = "posts_resource (h_store sample_handler)"
  let ?recs = "\<lambda>s. record_of_post ` posts_in (schema_rows s)"
  let ?rc = "record_of_post (post_of_row (sample_row 1 ''live'' ''Live'' (Some 1000000) 1000))"
  have ed: "editor_of sample_handler (\<lambda>s. posts_in (schema_rows s)) (\<lambda>s. pages_in (schema_rows s)) ?res ?recs"
    by (simp add: editor_of_def)
  have v: "schema_valid (sv_db sample_server)" by (simp add: sample_server_db sample_valid)
  have stored: "?rc \<in> ?recs (sv_db sample_server)"
    unfolding sample_server_db sample_posts by (simp add: sample_db_def)
  have id: "ex_uuid_from_string (h_ext sample_handler) (ex_uuid_string (h_ext sample_handler) (rec_id ?rc)) = Some (rec_id ?rc)"
    by (simp add: sample_handler_def new_handler_def sample_ext_def sample_ids_def record_of_post_def sample_row_def)
  have zone: "h_zone sample_handler = utc_zone" by (simp add: sample_handler_def new_handler_def admin_location_def)
  have date: "rec_published_at ?rc = Some 1000000" by (simp add: record_of_post_def sample_row_def)
  have texts: "post_form_value ?r ''slug'' = ''live''" "post_form_value ?r ''title'' = ''Live''" "post_form_value ?r ''body'' = ''...''"
    "post_form_value ?r ''published_at'' = ''1970-01-01T00:00''" "\<not> publish_now ?r"
    "format_editor utc_zone 1000000 = ''1970-01-01T00:00''" "path_id ?r = ''1''" by code_simp+
  have "ex_uuid_string (h_ext sample_handler) 1 = ''1''"
    by (simp add: sample_handler_def new_handler_def sample_ext_def sample_ids_def)
  then have sent: "sent_back ?r (form_of sample_handler sample_now ?res ?rc)"
    by (simp add: sent_back_def form_of_def texts zone record_of_post_def sample_row_def)
  have steady: "steady utc_zone n" for n by (simp add: steady_def zone_offset_def utc_zone_def)
  have "year_in utc_zone 1000000 = 1970" by code_simp
  then have editable: "editable (h_zone sample_handler) t" if "rec_published_at ?rc = Some t" for t
    using that date steady by (simp add: zone editable_def)
  have st: "status (fst (save sample_handler sample_now ?res False ?r empty_response sample_server)) \<in> {303, 204}"
    by code_simp
  have minute: "micros (to_the_minute utc_zone 1000000) = 0" by code_simp
  show ?thesis
    using unchanged_save_keeps_the_record [OF sample_store ed v stored sent id editable st] stored minute
    unfolding Let_def sample_server_db date zone by simp
qed

end
