(* ===== verification/Schedule_Facts.thy ===== *)
theory Schedule_Facts
  imports Service_Facts
begin

text \<open>
  From the editor to the visitor: what the Author saves is read by visitors from its Publication Date on,
  and not before.
\<close>

section \<open>What visitors read\<close>

text \<open>Posts or pages: their resource in the editor, and their public lookup as a record.\<close>

definition writings :: "bool \<Rightarrow> 's store \<Rightarrow> 's resource" where
  "writings is_post st = (if is_post then posts_resource st else pages_resource st)"

definition visitors_read :: "bool \<Rightarrow> db \<Rightarrow> string \<Rightarrow> go_error + wrecord" where
  "visitors_read is_post d slug =
     (if is_post then map_sum id record_of_post (post_by_slug schema_conn d slug Public)
      else map_sum id record_of_page (page_by_slug schema_conn d slug Public))"

definition writings_in :: "bool \<Rightarrow> db \<Rightarrow> wrecord set" where
  "writings_in is_post d =
     (if is_post then record_of_post ` posts_in (schema_rows d) else record_of_page ` pages_in (schema_rows d))"

lemma slugs_distinct:
  assumes "schema_valid d" and "r \<in> set (db_table d t)" and "r' \<in> set (db_table d t)" and "r_slug r = r_slug r'"
  shows "r = r'"
  using assms valid_table [of d t] by (auto simp: table_ok_def distinct_map dest: inj_onD)

lemma writings_in_slug:
  assumes "schema_valid d" and "x \<in> writings_in is_post d" and "y \<in> writings_in is_post d" and "rec_slug x = rec_slug y"
  shows "x = y"
proof -
  have post: "p = q" if "p \<in> posts_in (schema_rows d)" "q \<in> posts_in (schema_rows d)" "post_slug p = post_slug q" for p q
    using that slugs_distinct [OF assms(1), of "row_of_post p" post_table_name "row_of_post q"]
    by (auto simp: posts_in_iff schema_rows_iff [OF assms(1)] dest: arg_cong [where f = post_of_row])
  have page: "p = q" if "p \<in> pages_in (schema_rows d)" "q \<in> pages_in (schema_rows d)" "page_slug p = page_slug q" for p q
    using that slugs_distinct [OF assms(1), of "row_of_page p" page_table_name "row_of_page q"]
    by (auto simp: pages_in_iff schema_rows_iff [OF assms(1)] dest: arg_cong [where f = page_of_row])
  show ?thesis
  proof (cases is_post)
    case True
    then obtain p q where "x = record_of_post p" "y = record_of_post q" "p \<in> posts_in (schema_rows d)" "q \<in> posts_in (schema_rows d)"
      using assms(2,3) by (auto simp: writings_in_def)
    then show ?thesis using assms(4) post [of p q] by simp
  next
    case False
    then obtain p q where "x = record_of_page p" "y = record_of_page q" "p \<in> pages_in (schema_rows d)" "q \<in> pages_in (schema_rows d)"
      using assms(2,3) by (auto simp: writings_in_def)
    then show ?thesis using assms(4) page [of p q] by simp
  qed
qed

text \<open>A database that is up says not found, or answers.\<close>

lemma schema_first_up:
  "db_down d = None \<Longrightarrow> known_table t \<Longrightarrow> schema_first d t q = Inl e \<Longrightarrow> errors_is e ErrNoRows"
  by (auto simp: schema_first_def schema_select_def split: sum.splits list.splits if_splits)

lemma visitors_find:
  assumes "schema_valid d" and "visitors_read is_post d slug = Inr rc"
  shows "rc \<in> writings_in is_post d \<and> rec_slug rc = slug \<and> published_by (db_clock d) rc"
  using assms(2) schema.post_by_slug_Inr [OF assms(1), of slug Public] schema.page_by_slug_Inr [OF assms(1), of slug Public]
  by (auto simp: visitors_read_def writings_in_def sees_def published_by_def map_sum_def split: if_splits sum.splits)

lemma visitors_miss:
  assumes "schema_valid d" and "db_down d = None" and "visitors_read is_post d slug = Inl e"
  shows "errors_is e ErrNotFound \<and> (\<forall>rc \<in> writings_in is_post d. rec_slug rc = slug \<longrightarrow> \<not> published_by (db_clock d) rc)"
proof -
  have absent: "errors_is e ErrNotFound" if "post_by_slug schema_conn d slug Public = Inl e \<or> page_by_slug schema_conn d slug Public = Inl e"
    using that schema_first_up [OF assms(2), of post_table_name] schema_first_up [OF assms(2), of page_table_name] schema_first_error [OF assms(1)]
    by (auto simp: post_by_slug_def page_by_slug_def known_table_def schema.foreign_wrap split: sum.splits)
  then show ?thesis
    using assms(3) schema.post_by_slug_not_found [OF assms(1), of slug Public e] schema.page_by_slug_not_found [OF assms(1), of slug Public e]
    by (auto simp: visitors_read_def writings_in_def sees_def published_by_def map_sum_def split: if_splits sum.splits)
qed

text \<open>Later, with the rows as they are.\<close>

definition later :: "db \<Rightarrow> go_time \<Rightarrow> db" where
  "later d t = d\<lparr>db_clock := t, db_down := None\<rparr>"

lemma later_rows [simp]: "schema_rows (later d t) = schema_rows d"
  by (simp add: fun_eq_iff schema_rows_def db_table_def later_def)

lemma later_simps [simp]:
  "schema_valid d \<Longrightarrow> schema_valid (later d t)" "db_down (later d t) = None" "db_clock (later d t) = t"
  by (auto simp: later_def schema_valid_def)

lemma later_writings [simp]: "writings_in is_post (later d t) = writings_in is_post d"
  unfolding writings_in_def later_rows ..

section \<open>Published on its date\<close>

text \<open>
  C5: what the Author saves is what visitors get under its slug, from its Publication Date on: whatever
  the time is when they ask, a slug that was saved with a date is found once the date has come, with exactly
  the title, the body and the date that were typed; before it, or with no date at all, it is not found.
\<close>

theorem saved_writing_appears_on_its_date:
  assumes "\<And>d. v7_ok (new_v7 d)" and "schema_valid (sv_db sv)" and "h_store h = content_store new_v7 schema_conn"
    and "status (fst (save h now (writings is_post (h_store h)) is_new r w sv)) \<in> {303, 204}"
  shows "\<exists>date due. parse_published_at h (post_form_value r ''published_at'') = Inr date \<and>
    due = map_option micros (if publish_now r then Some (now AtPublishNow) else date) \<and>
    (case visitors_read is_post (later (sv_db (snd (save h now (writings is_post (h_store h)) is_new r w sv))) t)
        (post_form_value r ''slug'') of
       Inr rc \<Rightarrow> rec_title rc = post_form_value r ''title'' \<and> rec_body rc = post_form_value r ''body'' \<and>
         rec_published_at rc = due \<and> (\<exists>u. due = Some u \<and> u \<le> t)
     | Inl e \<Rightarrow> errors_is e ErrNotFound \<and> (\<forall>u. due = Some u \<longrightarrow> t < u))"
proof -
  let ?res = "writings is_post (h_store h)"
  let ?d = "sv_db (snd (save h now ?res is_new r w sv))"
  let ?posts = "\<lambda>s. posts_in (schema_rows s)" and ?pages = "\<lambda>s. pages_in (schema_rows s)"
  have store: "admin_store (h_store h) schema_valid ?posts ?pages micros"
    using schema_admin_store [of new_v7] assms(1,3) by simp
  have ed: "editor_of h ?posts ?pages ?res (writings_in is_post)"
    by (cases is_post) (auto simp: editor_of_def writings_def writings_in_def fun_eq_iff)
  from accepted_save [OF store ed assms(2,4)] obtain i q date where
    date: "parse_published_at h (post_form_value r ''published_at'') = Inr date" and
    q: "q = \<lparr>rec_id = i, rec_slug = post_form_value r ''slug'', rec_title = post_form_value r ''title'',
      rec_body = post_form_value r ''body'',
      rec_published_at = map_option micros (if publish_now r then Some (now AtPublishNow) else date)\<rparr>" and
    recs: "writings_in is_post ?d = replaced rec_id q (writings_in is_post (sv_db sv))"
    by (elim exE conjE) (rule that)
  have "schema_valid ?d"
    using writing_resource.save_grown [OF admin_store.post_resource [OF store] assms(2)]
      writing_resource.save_grown [OF admin_store.page_resource [OF store] assms(2)]
    by (cases is_post) (simp_all add: writings_def grown_def)
  then have valid: "schema_valid (later ?d t)" by simp
  have stored: "q \<in> writings_in is_post (later ?d t)" using recs by (simp add: replaced_def)
  let ?read = "visitors_read is_post (later ?d t) (post_form_value r ''slug'')"
  have found: "rc = q \<and> published_by t q" if "?read = Inr rc" for rc
    using visitors_find [OF valid that] writings_in_slug [OF valid _ stored, of rc] q by simp
  have missed: "errors_is e ErrNotFound \<and> \<not> published_by t q" if "?read = Inl e" for e
    using visitors_miss [OF valid _ that] stored q by simp
  show ?thesis
    using found missed date q
    by (intro exI [of _ date] exI conjI refl) (auto simp: published_by_def split: sum.split option.splits)
qed

text \<open>A draft that is scheduled for a minute past the epoch.\<close>

definition scheduling :: request where
  "scheduling = posted ''3'' ''slug=draft&title=Done&body=text&published_at=1970-01-01T00:01''"

definition scheduled_db :: db where
  "scheduled_db = sv_db (snd (save sample_handler sample_now (writings True (h_store sample_handler)) False scheduling empty_response sample_server))"

theorem saved_writing_appears_on_its_date_witness:
  "(case visitors_read True (later scheduled_db 60000000000) ''draft'' of
      Inr rc \<Rightarrow> rec_title rc = ''Done'' \<and> rec_published_at rc = Some 60000000000 | Inl e \<Rightarrow> False) \<and>
   (case visitors_read True (later scheduled_db 59999999999) ''draft'' of Inr rc \<Rightarrow> False | Inl e \<Rightarrow> errors_is e ErrNotFound)"
proof -
  have store: "h_store sample_handler = content_store clock_v7 schema_conn" by (simp add: sample_handler_def new_handler_def)
  have valid: "schema_valid (sv_db sample_server)" by (simp add: sample_server_db sample_valid)
  have st: "status (fst (save sample_handler sample_now (writings True (h_store sample_handler)) False scheduling empty_response sample_server)) \<in> {303, 204}"
    by code_simp
  have eval: "post_form_value scheduling ''slug'' = ''draft''" "post_form_value scheduling ''title'' = ''Done''" "\<not> publish_now scheduling"
    "parse_published_at sample_handler (post_form_value scheduling ''published_at'') = Inr (Some 60000000000)" "micros 60000000000 = 60000000000"
    by code_simp+
  note appears = saved_writing_appears_on_its_date [OF clock_v7_ok valid store st, folded scheduled_db_def, unfolded eval]
  show ?thesis
    using appears [of 60000000000] appears [of 59999999999] by (auto simp: eval split: sum.splits)
qed

end
