(* ===== verification/Interleaving.thy ===== *)
theory Interleaving
  imports Prelude
begin

text \<open>
  Goroutines over one shared state: a task is what is left of one of them, a value or an atomic call on the
  state and how it goes on with the answer; a pool of tasks advances one call at a time, in any order.
\<close>

section \<open>Tasks\<close>

datatype ('s, 'a) task = Done 'a | Call "'s \<Rightarrow> ('s, 'a) task \<times> 's"

text \<open>A call, and what is done with its answer.\<close>

definition ask :: "('s \<Rightarrow> 'b \<times> 's) \<Rightarrow> ('b \<Rightarrow> ('s, 'a) task) \<Rightarrow> ('s, 'a) task" where
  "ask call k = Call (\<lambda>s. map_prod k id (call s))"

text \<open>A call that only reads.\<close>

definition look :: "('s \<Rightarrow> 'b) \<Rightarrow> ('b \<Rightarrow> ('s, 'a) task) \<Rightarrow> ('s, 'a) task" where
  "look get k = ask (\<lambda>s. (get s, s)) k"

text \<open>A task that runs alone.\<close>

primrec run_alone :: "('s, 'a) task \<Rightarrow> 's \<Rightarrow> 'a \<times> 's" where
  "run_alone (Done a) = (\<lambda>s. (a, s))"
| "run_alone (Call f) = (\<lambda>s. case (map_prod run_alone id \<circ> f) s of (g, s') \<Rightarrow> g s')"

lemma run_alone_simps [simp]:
  "run_alone (Done a) s = (a, s)"
  "run_alone (Call f) s = (case f s of (t, s') \<Rightarrow> run_alone t s')"
  "run_alone (ask call k) s = (case call s of (b, s') \<Rightarrow> run_alone (k b) s')"
  "run_alone (look get k) s = run_alone (k (get s)) s"
  by (simp_all add: ask_def look_def split: prod.split)

declare run_alone.simps [simp del]

section \<open>Pools\<close>

text \<open>
  A task may arrive, one task may make its next call, and the state may change by itself. \<open>arriving\<close> are
  the tasks that may arrive, \<open>outside\<close> the changes from outside.
\<close>

inductive pool_step ::
  "(('s, 'a) task \<Rightarrow> bool) \<Rightarrow> ('s \<Rightarrow> 's \<Rightarrow> bool) \<Rightarrow> ('s, 'a) task list \<times> 's \<Rightarrow> ('s, 'a) task list \<times> 's \<Rightarrow> bool"
  for arriving outside where
  arrive: "arriving t \<Longrightarrow> pool_step arriving outside (ts, s) (ts @ [t], s)"
| advance: "i < length ts \<Longrightarrow> ts ! i = Call f \<Longrightarrow> f s = (t, s') \<Longrightarrow> pool_step arriving outside (ts, s) (ts[i := t], s')"
| change: "outside s s' \<Longrightarrow> pool_step arriving outside (ts, s) (ts, s')"

inductive_simps pool_step_iff: "pool_step arriving outside (ts, s) (ts', s')"

definition pool_runs ::
  "(('s, 'a) task \<Rightarrow> bool) \<Rightarrow> ('s \<Rightarrow> 's \<Rightarrow> bool) \<Rightarrow> ('s, 'a) task list \<times> 's \<Rightarrow> ('s, 'a) task list \<times> 's \<Rightarrow> bool" where
  "pool_runs arriving outside = (pool_step arriving outside)\<^sup>*\<^sup>*"

text \<open>A task that is alone in its pool runs to its end.\<close>

lemma pool_run_alone: "pool_runs arriving outside ([t], s) ([Done (fst (run_alone t s))], snd (run_alone t s))"
proof (induction t arbitrary: s)
  case (Done a)
  then show ?case by (simp add: pool_runs_def)
next
  case (Call f)
  obtain t s' where f: "f s = (t, s')" by fastforce
  have "pool_step arriving outside ([Call f], s) ([t], s')"
    using advance [of 0 "[Call f]" f s t s'] f by simp
  moreover have "pool_runs arriving outside ([t], s') ([Done (fst (run_alone t s'))], snd (run_alone t s'))"
    using Call f by (metis fst_conv fsts.intros rangeI)
  ultimately show ?case using f by (simp add: pool_runs_def converse_rtranclp_into_rtranclp)
qed

section \<open>Tasks that keep to a relation\<close>

text \<open>
  In a state, a task keeps to a relation if all its calls do, whatever the others do meanwhile that is in
  the relation too.
\<close>

inductive keeps_to :: "('s \<Rightarrow> 's \<Rightarrow> bool) \<Rightarrow> ('s, 'a) task \<Rightarrow> 's \<Rightarrow> bool" for R where
  ended: "keeps_to R (Done a) s"
| calling: "(\<And>u. R s u \<Longrightarrow> R u (snd (f u)) \<and> keeps_to R (fst (f u)) (snd (f u))) \<Longrightarrow> keeps_to R (Call f) s"

inductive_simps keeps_to_simps [simp]: "keeps_to R (Done a) s" "keeps_to R (Call f) s"

lemma keeps_to_ask:
  "keeps_to R (ask call k) s \<longleftrightarrow> (\<forall>u. R s u \<longrightarrow> R u (snd (call u)) \<and> keeps_to R (k (fst (call u))) (snd (call u)))"
  by (simp add: ask_def)

locale shared_state =
  fixes R :: "'s \<Rightarrow> 's \<Rightarrow> bool"
  assumes refl: "R s s"
    and trans: "R s t \<Longrightarrow> R t u \<Longrightarrow> R s u"
begin

lemma keeps_to_look: "keeps_to R (look get k) s \<longleftrightarrow> (\<forall>u. R s u \<longrightarrow> keeps_to R (k (get u)) u)"
  using refl by (simp add: look_def keeps_to_ask)

lemma keeps_to_later:
  assumes "keeps_to R t s" and "R s u"
  shows "keeps_to R t u"
  using assms by (cases t) (auto intro: trans)

text \<open>Then the pool keeps to it, if what arrives does and what changes by itself does.\<close>

lemma pool_step_keeps:
  assumes "pool_step arriving outside (ts, s) (ts', s')"
    and "\<And>t. arriving t \<Longrightarrow> keeps_to R t s" and "outside s s' \<Longrightarrow> R s s'" and "\<forall>t \<in> set ts. keeps_to R t s"
  shows "R s s' \<and> (\<forall>t \<in> set ts'. keeps_to R t s')"
  using assms(1)
proof (cases rule: pool_step.cases)
  case (arrive t)
  then show ?thesis using assms(2,4) refl by auto
next
  case (advance i f t)
  have "keeps_to R (Call f) s" using assms(4) advance(2,3) by (metis nth_mem)
  then have step: "R s s'" "keeps_to R t s'" using advance(4) refl [of s] by (auto dest: spec [of _ s])
  then show ?thesis
    using advance(1) assms(4) keeps_to_later by (auto dest!: set_update_subset_insert [THEN subsetD])
next
  case change
  then show ?thesis using assms(3,4) keeps_to_later by blast
qed

lemma pool_keeps:
  assumes "pool_runs arriving outside (ts, s) (ts', s')"
    and "\<And>t u. arriving t \<Longrightarrow> R s u \<Longrightarrow> keeps_to R t u" and "\<And>u v. R s u \<Longrightarrow> outside u v \<Longrightarrow> R u v"
    and "\<forall>t \<in> set ts. keeps_to R t s"
  shows "R s s' \<and> (\<forall>t \<in> set ts'. keeps_to R t s')"
proof -
  from assms(1) show ?thesis
    unfolding pool_runs_def
  proof (induction "(ts', s')" arbitrary: ts' s' rule: rtranclp_induct)
    case base
    then show ?case using assms(4) refl by simp
  next
    case (step y)
    obtain us u where y: "y = (us, u)" by (cases y)
    from step(3) [OF y] have u: "R s u" "\<forall>t \<in> set us. keeps_to R t u" by auto
    have "R u s' \<and> (\<forall>t \<in> set ts'. keeps_to R t s')"
      using step(2) u assms(2,3) by (intro pool_step_keeps [of arriving outside us u ts' s']) (auto simp: y)
    then show ?case using u(1) trans by blast
  qed
qed

end

text \<open>The same where the relation carries an invariant along, which the calls may rely on.\<close>

locale shared_invariant = shared_state R for R :: "'s \<Rightarrow> 's \<Rightarrow> bool" +
  fixes inv :: "'s \<Rightarrow> bool"
  assumes carried: "R s t \<Longrightarrow> inv s \<Longrightarrow> inv t"
begin

lemma ask_keeps:
  assumes "inv s" and "\<And>u. inv u \<Longrightarrow> R u (snd (call u))" and "\<And>x u. inv u \<Longrightarrow> keeps_to R (k x) u"
  shows "keeps_to R (ask call k) s"
  using assms carried by (simp add: keeps_to_ask) blast

lemma look_keeps:
  assumes "inv s" and "\<And>u. inv u \<Longrightarrow> R s u \<Longrightarrow> keeps_to R (k (get u)) u"
  shows "keeps_to R (look get k) s"
  using assms carried by (simp add: keeps_to_look)

end

end
