(* ===== verification/Statements.thy ===== *)
theory Statements
  imports Server Interleaving
begin

text \<open>
  The handlers once more, as tasks: each query or write of the store is one call, as is each operation of the
  limiter under its lock, and between two calls of one request other requests may make theirs. A handler
  that runs alone is the handler of \<open>Auth\<close>, \<open>Lists\<close>, \<open>Writing\<close> and \<open>Server\<close>.
\<close>

section \<open>Calls\<close>

type_synonym 's conversation = "('s server, page_response) task"

type_synonym 's handler_task = "request \<Rightarrow> page_response \<Rightarrow> 's conversation"

definition on_db :: "('s \<Rightarrow> 'b \<times> 's) \<Rightarrow> 's server \<Rightarrow> 'b \<times> 's server" where
  "on_db f sv = (case f (sv_db sv) of (b, s') \<Rightarrow> (b, sv\<lparr>sv_db := s'\<rparr>))"

lemma on_db_simps [simp]:
  "fst (on_db f sv) = fst (f (sv_db sv))" "snd (on_db f sv) = sv\<lparr>sv_db := snd (f (sv_db sv))\<rparr>"
  by (simp_all add: on_db_def split: prod.split)

text \<open>A handler that makes one call at most.\<close>

definition at_once :: "'s handler_func \<Rightarrow> 's handler_task" where
  "at_once f r w = ask (f r w) Done"

text \<open>The two statements of an update: the row is read, and written back with the fields that change.\<close>

type_synonym 's update_task = "wrecord \<Rightarrow> bool \<Rightarrow> (go_error + unit \<Rightarrow> 's conversation) \<Rightarrow> 's conversation"

definition written_or_not :: "go_error + 'a \<Rightarrow> go_error + unit" where
  "written_or_not x = (case x of Inl e \<Rightarrow> Inl e | Inr _ \<Rightarrow> Inr ())"

definition update_post_task :: "'s store \<Rightarrow> 's update_task" where
  "update_post_task st rc with_date k =
     look (\<lambda>sv. st_post_by_id st (sv_db sv) (rec_id rc) Author)
       (\<lambda>found. case found of
          Inl e \<Rightarrow> k (Inl e)
        | Inr p \<Rightarrow> ask (on_db (\<lambda>s. st_update_post st s (write_post rc with_date p))) (\<lambda>x. k (written_or_not x)))"

definition update_page_task :: "'s store \<Rightarrow> 's update_task" where
  "update_page_task st rc with_date k =
     look (\<lambda>sv. st_page_by_id st (sv_db sv) (rec_id rc) Author)
       (\<lambda>found. case found of
          Inl e \<Rightarrow> k (Inl e)
        | Inr g \<Rightarrow> ask (on_db (\<lambda>s. st_update_page st s (write_page rc with_date g))) (\<lambda>x. k (written_or_not x)))"

section \<open>The editor\<close>

definition save_answer ::
  "'s handler \<Rightarrow> 's resource \<Rightarrow> form \<Rightarrow> go_error + wrecord \<Rightarrow> 's handler_task" where
  "save_answer h res f result r w =
     Done
       (case result of
          Inl err \<Rightarrow>
            (case field_errors err of
               Some errs \<Rightarrow> invalid r res f errs w
             | None \<Rightarrow> if errors_is err ErrNotFound then not_found w else fail w)
        | Inr rc \<Rightarrow>
            let dest = editor_path h res (rec_id rc)
            in if is_htmx r then (set_header ''HX-Redirect'' dest w)\<lparr>status := 204\<rparr> else http_redirect r dest 303 w)"

definition save_task :: "'s handler \<Rightarrow> readings \<Rightarrow> 's resource \<Rightarrow> 's update_task \<Rightarrow> bool \<Rightarrow> 's handler_task" where
  "save_task h now res upd is_new r w =
     (if parse_form_error r then Done (http_error ''bad request'' 400 w)
      else case submitted h now r res is_new of
        (f, rc, Some err) \<Rightarrow> Done (invalid r res f [(''published_at'', err)] w)
      | (f, rc, None) \<Rightarrow>
          let (f, rc) =
            (if post_form_value r ''action'' = ''publish_now''
             then (f\<lparr>form_published_at := format_editor (h_zone h) (now AtPublishNow)\<rparr>,
                   rc\<lparr>rec_published_at := Some (now AtPublishNow)\<rparr>)
             else (f, rc))
          in if is_new then ask (on_db (\<lambda>s. res_create res s rc)) (\<lambda>result. save_answer h res f result r w)
             else upd rc True
               (\<lambda>x. save_answer h res f (case x of Inl e \<Rightarrow> Inl e | Inr _ \<Rightarrow> Inr rc) r w))"

definition autosave_task :: "'s handler \<Rightarrow> readings \<Rightarrow> 's resource \<Rightarrow> 's update_task \<Rightarrow> 's handler_task" where
  "autosave_task h now res upd r w =
     (if parse_form_error r then Done (http_error ''bad request'' 400 w)
      else look (\<lambda>sv. load h res r w (sv_db sv))
        (\<lambda>loaded. case loaded of
           Inl w' \<Rightarrow> Done w'
         | Inr stored \<Rightarrow>
             let f = form_of h now res stored
             in if (case rec_published_at stored of None \<Rightarrow> False | Some t \<Rightarrow> \<not> now AtPublishedCheck < t)
                then Done (render_marker r PublishedMarker w)
                else
                  let (posted, _, _) = submitted h now r res False;
                      stored = stored\<lparr>rec_slug := form_slug posted, rec_title := form_title posted,
                                      rec_body := form_body_text posted\<rparr>
                  in upd stored False
                    (\<lambda>result. Done
                      (case result of
                         Inl err \<Rightarrow>
                           (case field_errors err of
                              Some errs \<Rightarrow> render_marker r (NotSavedMarker f (first_of errs)) w
                            | None \<Rightarrow> fail w)
                       | Inr _ \<Rightarrow> render_marker r (Saved f (format_clock (h_zone h) (now AtSaved))) w))))"

section \<open>Logging in\<close>

definition login_task :: "'s handler \<Rightarrow> readings \<Rightarrow> 's handler_task" where
  "login_task h now r w =
     (if parse_form_error r then Done (http_error ''bad request'' 400 w)
      else
        let dest = safe_next (post_form_value r ''next'')
        in ask (\<lambda>sv. case limiter_allow (sv_logins sv) (now AtAllow) (client_ip r) of (ok, l) \<Rightarrow> (ok, sv\<lparr>sv_logins := l\<rparr>))
          (\<lambda>allowed.
             if \<not> allowed then Done (render_login_failure r dest 429 w)
             else case verify_password (ex_idkey (h_ext h)) (h_hash h) (post_form_value r ''password'') of
               Inl PanicIDKey \<Rightarrow> Done (w\<lparr>body := Aborted\<rparr>)
             | Inl _ \<Rightarrow> Done (render_login_failure r dest 401 w)
             | Inr ok \<Rightarrow>
                 if \<not> ok then Done (render_login_failure r dest 401 w)
                 else ask (\<lambda>sv. ((), sv\<lparr>sv_logins := limiter_reset (sv_logins sv) (client_ip r)\<rparr>))
                   (\<lambda>_. Done (http_redirect r dest 303 (set_cookie (sessions_issue (h_sessions h) (now AtIssue)) w)))))"

section \<open>The surface\<close>

definition route_task ::
  "'s handler \<Rightarrow> (string \<Rightarrow> string option) \<Rightarrow> readings \<Rightarrow> route \<Rightarrow> 's handler_task" where
  "route_task h static now rt =
     (let st = h_store h; posts = posts_resource st; pages = pages_resource st
      in case rt of
           LoginPost \<Rightarrow> login_task h now
         | CreatePost \<Rightarrow> save_task h now posts (update_post_task st) True
         | UpdatePost \<Rightarrow> save_task h now posts (update_post_task st) False
         | AutosavePost \<Rightarrow> autosave_task h now posts (update_post_task st)
         | CreatePage \<Rightarrow> save_task h now pages (update_page_task st) True
         | UpdatePage \<Rightarrow> save_task h now pages (update_page_task st) False
         | AutosavePage \<Rightarrow> autosave_task h now pages (update_page_task st)
         | _ \<Rightarrow> at_once (run_route h static now rt))"

definition dispatch_task ::
  "(route \<Rightarrow> 's handler_task) \<Rightarrow> (string \<times> segment list \<times> route) list \<Rightarrow> 's handler_task \<Rightarrow> 's handler_task" where
  "dispatch_task run ps otherwise r w =
     (case find_route ps r of
        Some (rt, i) \<Rightarrow> run rt (r\<lparr>path_id := i\<rparr>) w
      | None \<Rightarrow> otherwise r w)"

definition guard_task :: "'s handler \<Rightarrow> readings \<Rightarrow> 's handler_task \<Rightarrow> 's handler_task" where
  "guard_task h now handle r w =
     (case sessions_verify (h_sessions h) (now AtVerify) r of
        Inl _ \<Rightarrow> Done (reject_unauthenticated r w)
      | Inr _ \<Rightarrow> handle r w)"

definition routes_task :: "'s handler \<Rightarrow> (string \<Rightarrow> string option) \<Rightarrow> readings \<Rightarrow> 's handler_task" where
  "routes_task h static now r w =
     dispatch_task (route_task h static now) public_patterns
       (guard_task h now (dispatch_task (route_task h static now) guarded_patterns (at_once (no_route guarded_patterns))))
       r
       (set_header ''Referrer-Policy'' ''same-origin''
         (set_header ''X-Content-Type-Options'' ''nosniff''
           (set_header ''Content-Security-Policy'' contentSecurityPolicy w)))"

definition site_task ::
  "(string \<Rightarrow> zone option) \<Rightarrow> external \<Rightarrow> (string \<Rightarrow> string option) \<Rightarrow> 's store \<Rightarrow> config \<Rightarrow> readings \<Rightarrow> db_error option \<Rightarrow>
     's handler_task" where
  "site_task zones ext static st cfg now answered r w =
     (if admin_enabled (cfg_admin cfg) \<and> prefix ''/admin/'' (url_path r)
      then routes_task (new_handler st zones ext (cfg_admin cfg)) static now r w
      else at_once (site zones ext static st cfg now answered) r w)"

section \<open>A request that runs alone\<close>

lemma at_once_alone [simp]: "run_alone (at_once f r w) sv = f r w sv"
  by (simp add: at_once_def split: prod.split)

definition updates_as :: "'s resource \<Rightarrow> 's update_task \<Rightarrow> bool" where
  "updates_as res upd \<longleftrightarrow>
     (\<forall>rc wd k sv. run_alone (upd rc wd k) sv =
        (case res_update res (sv_db sv) rc wd of (x, s') \<Rightarrow> run_alone (k x) (sv\<lparr>sv_db := s'\<rparr>)))"

lemma updates_as_posts: "updates_as (posts_resource st) (update_post_task st)"
  by (auto simp: updates_as_def update_post_task_def posts_resource_def on_db_def written_or_not_def split: sum.split prod.split)

lemma updates_as_pages: "updates_as (pages_resource st) (update_page_task st)"
  by (auto simp: updates_as_def update_page_task_def pages_resource_def on_db_def written_or_not_def split: sum.split prod.split)

lemma save_alone:
  "updates_as res upd \<Longrightarrow> run_alone (save_task h now res upd is_new r w) sv = save h now res is_new r w sv"
  by (auto simp: save_task_def save_def save_answer_def updates_as_def on_db_def Let_def split: prod.split option.split sum.split)

lemma autosave_alone:
  "updates_as res upd \<Longrightarrow> run_alone (autosave_task h now res upd r w) sv = autosave h now res r w sv"
  by (auto simp: autosave_task_def autosave_def updates_as_def Let_def split: prod.split option.split sum.split)

lemma login_alone: "run_alone (login_task h now r w) sv = login h now r w sv"
  by (auto simp: login_task_def login_def Let_def split: prod.split sum.split password_error.split)

lemma route_alone: "run_alone (route_task h static now rt r w) sv = run_route h static now rt r w sv"
  by (cases rt) (simp_all add: route_task_def run_route_def login_alone save_alone autosave_alone updates_as_posts
    updates_as_pages Let_def)

lemma site_alone: "run_alone (site_task zones ext static st cfg now answered r w) sv = site zones ext static st cfg now answered r w sv"
  by (simp add: site_task_def routes_task_def dispatch_task_def guard_task_def route_alone site_def site_routes_def routes_def
    secured_def dispatch_def require_session_def split: option.split sum.split)

end
