(* ===== verification/Interleaving_Facts.thy ===== *)
theory Interleaving_Facts
  imports Statements Service_Facts
begin

text \<open>
  What holds whatever requests are handled at the same time, down to the single statement: the invariant of
  the service, and what a number of autosaves can do to each other and to what is published; and what a
  save and an autosave of one record can do to each other.
\<close>

section \<open>The relation every statement keeps to\<close>

definition sound :: "('s \<Rightarrow> bool) \<Rightarrow> admin_config \<Rightarrow> 's server \<Rightarrow> bool" where
  "sound ok a sv \<longleftrightarrow> ok (sv_db sv) \<and> limits a (sv_logins sv)"

definition kept_service ::
  "('s \<Rightarrow> bool) \<Rightarrow> ('s \<Rightarrow> post set) \<Rightarrow> ('s \<Rightarrow> page set) \<Rightarrow> admin_config \<Rightarrow> 's server \<Rightarrow> 's server \<Rightarrow> bool" where
  "kept_service ok posts pages a u v \<longleftrightarrow>
     (sound ok a u \<longrightarrow>
        sound ok a v \<and> grown ok (\<lambda>s. post_id ` posts s) (\<lambda>s. page_id ` pages s) (sv_db u) (sv_db v))"

lemma kept_serviceI:
  "(sound ok a u \<Longrightarrow> grown ok (\<lambda>s. post_id ` posts s) (\<lambda>s. page_id ` pages s) (sv_db u) (sv_db v) \<and> limits a (sv_logins v)) \<Longrightarrow>
     kept_service ok posts pages a u v"
  by (simp add: kept_service_def sound_def grown_def)

interpretation service: shared_invariant "kept_service ok posts pages a" "sound ok a" for ok posts pages a
  by unfold_locales (auto simp: kept_service_def sound_def grown_refl elim: grown_trans)

context admin_store
begin

abbreviation service_rel :: "admin_config \<Rightarrow> 's server \<Rightarrow> 's server \<Rightarrow> bool" where
  "service_rel \<equiv> kept_service ok posts pages"

lemma update_post_grown:
  assumes "ok s" and "post_id p \<in> post_id ` posts s"
  shows "kept s (snd (st_update_post st s p))"
proof -
  obtain x s' where w: "st_update_post st s p = (x, s')" by fastforce
  have "pages s' = pages s \<and> (posts s' = posts s \<or> (\<exists>q. post_id q = post_id p \<and> posts s' = replaced post_id q (posts s)))"
    using post_updated [OF assms, of _ s'] post_update_failed [OF assms, of _ s'] w
    by (cases x) (fastforce simp: same_post_def)+
  moreover obtain old where "old \<in> posts s" "post_id old = post_id p" using assms(2) by auto
  ultimately have rows: "pages s' = pages s \<and> post_id ` posts s \<subseteq> post_id ` posts s'"
    using replaced_ids [of old "posts s" post_id] by (elim conjE disjE exE) simp_all
  have "ok s'" using ok_writes [OF assms(1), of p] w by simp
  then show ?thesis using rows by (simp add: grown_def w)
qed

lemma update_page_grown:
  assumes "ok s" and "page_id g \<in> page_id ` pages s"
  shows "kept s (snd (st_update_page st s g))"
proof -
  obtain x s' where w: "st_update_page st s g = (x, s')" by fastforce
  have "posts s' = posts s \<and> (pages s' = pages s \<or> (\<exists>q. page_id q = page_id g \<and> pages s' = replaced page_id q (pages s)))"
    using page_updated [OF assms, of _ s'] page_update_failed [OF assms, of _ s'] w
    by (cases x) (fastforce simp: same_page_def)+
  moreover obtain old where "old \<in> pages s" "page_id old = page_id g" using assms(2) by auto
  ultimately have rows: "posts s' = posts s \<and> page_id ` pages s \<subseteq> page_id ` pages s'"
    using replaced_ids [of old "pages s" page_id] by (elim conjE disjE exE) simp_all
  have "ok s'" using ok_writes [OF assms(1), of _ g] w by simp
  then show ?thesis using rows by (simp add: grown_def w)
qed

text \<open>An update keeps to it: the row that was read is still there when it is written.\<close>

lemma update_post_keeps:
  assumes "sound ok a sv" and "\<And>x u. keeps_to (service_rel a) (k x) u"
  shows "keeps_to (service_rel a) (update_post_task st rc wd k) sv"
proof -
  have "service_rel a v (snd (on_db (\<lambda>s. st_update_post st s (write_post rc wd p)) v))"
    if "service_rel a sv u" "st_post_by_id st (sv_db u) i Author = Inr p" "service_rel a u v" for u v i p
  proof (rule kept_serviceI)
    assume "sound ok a v"
    from assms(1) that(1) have u: "sound ok a u" by (simp add: kept_service_def)
    then have "p \<in> posts (sv_db u)" using post_found that(2) by (auto simp: sound_def)
    then have "post_id (write_post rc wd p) \<in> post_id ` posts (sv_db v)"
      using u that(3) by (auto simp: kept_service_def grown_def write_post_def Let_def)
    from update_post_grown [OF _ this] \<open>sound ok a v\<close>
    show "kept (sv_db v) (sv_db (snd (on_db (\<lambda>s. st_update_post st s (write_post rc wd p)) v))) \<and>
        limits a (sv_logins (snd (on_db (\<lambda>s. st_update_post st s (write_post rc wd p)) v)))"
      by (simp add: sound_def)
  qed
  then show ?thesis using assms(2) by (auto simp: update_post_task_def service.keeps_to_look keeps_to_ask split: sum.split)
qed

lemma update_page_keeps:
  assumes "sound ok a sv" and "\<And>x u. keeps_to (service_rel a) (k x) u"
  shows "keeps_to (service_rel a) (update_page_task st rc wd k) sv"
proof -
  have "service_rel a v (snd (on_db (\<lambda>s. st_update_page st s (write_page rc wd g)) v))"
    if "service_rel a sv u" "st_page_by_id st (sv_db u) i Author = Inr g" "service_rel a u v" for u v i g
  proof (rule kept_serviceI)
    assume "sound ok a v"
    from assms(1) that(1) have u: "sound ok a u" by (simp add: kept_service_def)
    then have "g \<in> pages (sv_db u)" using page_found that(2) by (auto simp: sound_def)
    then have "page_id (write_page rc wd g) \<in> page_id ` pages (sv_db v)"
      using u that(3) by (auto simp: kept_service_def grown_def write_page_def Let_def)
    from update_page_grown [OF _ this] \<open>sound ok a v\<close>
    show "kept (sv_db v) (sv_db (snd (on_db (\<lambda>s. st_update_page st s (write_page rc wd g)) v))) \<and>
        limits a (sv_logins (snd (on_db (\<lambda>s. st_update_page st s (write_page rc wd g)) v)))"
      by (simp add: sound_def)
  qed
  then show ?thesis using assms(2) by (auto simp: update_page_task_def service.keeps_to_look keeps_to_ask split: sum.split)
qed

end

context admin_store
begin

lemma ask_keeps:
  assumes "sound ok a sv"
    and "\<And>u. sound ok a u \<Longrightarrow> kept (sv_db u) (sv_db (snd (call u))) \<and> limits a (sv_logins (snd (call u)))"
    and "\<And>x u. sound ok a u \<Longrightarrow> keeps_to (service_rel a) (k x) u"
  shows "keeps_to (service_rel a) (ask call k) sv"
  using assms by (intro service.ask_keeps) (auto intro: kept_serviceI)

lemma look_keeps:
  assumes "sound ok a sv" and "\<And>u. sound ok a u \<Longrightarrow> keeps_to (service_rel a) (k (get u)) u"
  shows "keeps_to (service_rel a) (look get k) sv"
  using assms by (intro service.look_keeps)

definition keeping_update :: "admin_config \<Rightarrow> 's resource \<Rightarrow> 's update_task \<Rightarrow> bool" where
  "keeping_update a res upd \<longleftrightarrow>
     (\<forall>s rc. ok s \<longrightarrow> kept s (snd (res_create res s rc))) \<and>
     (\<forall>sv rc wd k. sound ok a sv \<longrightarrow> (\<forall>x u. keeps_to (service_rel a) (k x) u) \<longrightarrow> keeps_to (service_rel a) (upd rc wd k) sv)"

lemma update_keeps:
  "keeping_update a res upd \<Longrightarrow> sound ok a sv \<Longrightarrow> (\<And>x. \<exists>b. k x = Done b) \<Longrightarrow> keeps_to (service_rel a) (upd rc wd k) sv"
  unfolding keeping_update_def by (metis keeps_to_simps(1))

lemma posts_keeping: "keeping_update a (posts_resource st) (update_post_task st)"
  using update_post_keeps post_res.create_grown kept_by_posts by (simp add: keeping_update_def)

lemma pages_keeping: "keeping_update a (pages_resource st) (update_page_task st)"
  using update_page_keeps page_res.create_grown kept_by_pages by (simp add: keeping_update_def)

lemma save_keeps:
  assumes "sound ok a sv" and "keeping_update a res upd"
  shows "keeps_to (service_rel a) (save_task h now res upd is_new r w) sv"
proof -
  have "keeps_to (service_rel a) (ask (on_db (\<lambda>s. res_create res s rc)) (\<lambda>x. save_answer h res f x r w)) sv" for f rc
    using assms(2) by (intro ask_keeps [OF assms(1)]) (simp_all add: keeping_update_def save_answer_def sound_def)
  moreover have "keeps_to (service_rel a) (upd rc True (\<lambda>x. save_answer h res f (y x) r w)) sv" for f rc y
    by (rule update_keeps [OF assms(2,1)]) (simp add: save_answer_def)
  ultimately show ?thesis
    by (simp add: save_task_def Let_def split: prod.split option.split)
qed

lemma autosave_keeps_sound:
  assumes "sound ok a sv" and "keeping_update a res upd"
  shows "keeps_to (service_rel a) (autosave_task h now res upd r w) sv"
  using assms(1) unfolding autosave_task_def
  by (auto intro!: look_keeps update_keeps [OF assms(2)] simp: Let_def split: sum.split prod.split)

lemma limits_steps:
  "limits a l \<Longrightarrow> limits a (snd (limiter_allow l t k))" "limits a l \<Longrightarrow> limits a (limiter_reset l k)"
  by (simp_all add: limits_def counted_simps)

lemma login_keeps:
  assumes "sound ok a sv"
  shows "keeps_to (service_rel a) (login_task h now r w) sv"
  using assms unfolding login_task_def Let_def
  by (auto intro!: ask_keeps simp: sound_def limits_steps grown_refl case_prod_unfold split: sum.split password_error.split)

lemma at_once_keeps:
  assumes "sound ok a sv"
    and "\<And>u. sound ok a u \<Longrightarrow> kept (sv_db u) (sv_db (snd (f r w u))) \<and> limits a (sv_logins (snd (f r w u)))"
  shows "keeps_to (service_rel a) (at_once f r w) sv"
  unfolding at_once_def using assms by (intro ask_keeps) simp_all

lemma route_keeps:
  assumes "sound ok a sv" and "h_store h = st"
  shows "keeps_to (service_rel a) (route_task h static now rt r w) sv"
proof -
  have "keeps_to (service_rel a) (at_once (run_route h static now rt) r w) sv"
    using assms route_kept route_limits by (intro at_once_keeps) (auto simp: sound_def)
  then show ?thesis
    using assms(2) login_keeps [OF assms(1)] save_keeps [OF assms(1)] autosave_keeps_sound [OF assms(1)]
    by (cases rt) (simp_all add: route_task_def Let_def posts_keeping pages_keeping)
qed

lemma site_keeps:
  assumes "sound ok (cfg_admin cfg) sv"
  shows "keeps_to (service_rel (cfg_admin cfg)) (site_task zones ext static st cfg now answered r empty_response) sv"
proof -
  let ?h = "new_handler st zones ext (cfg_admin cfg)"
  have h: "h_store ?h = st" by (simp add: new_handler_def)
  have "keeps_to (service_rel (cfg_admin cfg)) (at_once (no_route ps) r w) sv" for ps r w
    using assms by (intro at_once_keeps) (auto simp: sound_def no_route_def grown_refl split: list.split)
  moreover have "keeps_to (service_rel (cfg_admin cfg)) (at_once (site zones ext static st cfg now answered) r empty_response) sv"
    using assms site_kept by (intro at_once_keeps) (auto simp: sound_def)
  ultimately show ?thesis
    using route_keeps [OF assms h]
    by (simp add: site_task_def routes_task_def dispatch_task_def guard_task_def split: option.split sum.split)
qed

end

section \<open>The service\<close>

text \<open>The requests that may arrive, by what they ask and by the readings of the clock they get.\<close>

definition requests ::
  "(string \<Rightarrow> zone option) \<Rightarrow> external \<Rightarrow> (string \<Rightarrow> string option) \<Rightarrow> 's store \<Rightarrow> config \<Rightarrow> (request \<Rightarrow> readings \<Rightarrow> bool) \<Rightarrow>
     's conversation \<Rightarrow> bool" where
  "requests zones ext static st cfg P t \<longleftrightarrow>
     (\<exists>now pinged r. P r now \<and> t = site_task zones ext static st cfg now pinged r empty_response)"

text \<open>Time passes for the database, and it goes and comes.\<close>

definition elapses :: "db server \<Rightarrow> db server \<Rightarrow> bool" where
  "elapses u v \<longleftrightarrow> (\<exists>t down. outage down \<and> v = u\<lparr>sv_db := (sv_db u)\<lparr>db_clock := t, db_down := down\<rparr>\<rparr>)"

lemma elapses_tables:
  assumes "elapses u v" and "schema_valid (sv_db u)"
  shows "schema_valid (sv_db v) \<and> schema_rows (sv_db v) = schema_rows (sv_db u)"
proof -
  obtain t down where "outage down" "v = u\<lparr>sv_db := (sv_db u)\<lparr>db_clock := t, db_down := down\<rparr>\<rparr>"
    using assms(1) by (auto simp: elapses_def)
  then show ?thesis using assms(2) by (auto simp: schema_valid_def outage_def schema_rows_def db_table_def)
qed

lemma elapses_keeps:
  "elapses u v \<Longrightarrow>
     kept_service schema_valid (\<lambda>s. posts_in (schema_rows s)) (\<lambda>s. pages_in (schema_rows s)) a u v"
proof (rule kept_serviceI)
  assume e: "elapses u v" and u: "sound schema_valid a u"
  then have "sv_logins v = sv_logins u" by (auto simp: elapses_def)
  then show "grown schema_valid (\<lambda>s. post_id ` posts_in (schema_rows s)) (\<lambda>s. page_id ` pages_in (schema_rows s)) (sv_db u) (sv_db v) \<and>
      limits a (sv_logins v)"
    using elapses_tables [OF e] u by (simp add: grown_def sound_def)
qed


lemma pool_serves:
  assumes "arriving t"
  shows "pool_runs arriving outside ([], s) ([Done (fst (run_alone t s))], snd (run_alone t s))"
  using pool_run_alone [of arriving outside t s] arrive [of arriving t outside "[]" s] assms
  by (simp add: pool_runs_def converse_rtranclp_into_rtranclp)


section \<open>Every request comes to its end\<close>

text \<open>At most so many calls are left.\<close>

inductive calls_within :: "nat \<Rightarrow> ('s, 'a) task \<Rightarrow> bool" where
  no_call: "calls_within n (Done a)"
| one_call: "(\<And>s. calls_within n (fst (f s))) \<Longrightarrow> calls_within (Suc n) (Call f)"

inductive_simps calls_within_simps [simp]: "calls_within n (Done a)" "calls_within n (Call f)"

lemma calls_within_ask [simp]:
  "(\<And>x. calls_within n (k x)) \<Longrightarrow> calls_within (Suc n) (ask call k)"
  "(\<And>x. calls_within n (k x)) \<Longrightarrow> calls_within (Suc n) (look get k)"
  by (simp_all add: ask_def look_def)

lemma calls_within_mono: "calls_within n t \<Longrightarrow> n \<le> m \<Longrightarrow> calls_within m t"
proof (induction arbitrary: m rule: calls_within.induct)
  case (one_call f n)
  then show ?case by (cases m) auto
qed simp

lemma update_calls:
  assumes "\<And>x. calls_within n (k x)"
  shows "calls_within (Suc (Suc n)) (update_post_task st rc wd k)" "calls_within (Suc (Suc n)) (update_page_task st rc wd k)"
proof -
  have "calls_within (Suc n) (k x)" for x using assms by (rule calls_within_mono) simp
  with assms show "calls_within (Suc (Suc n)) (update_post_task st rc wd k)" "calls_within (Suc (Suc n)) (update_page_task st rc wd k)"
    unfolding update_post_task_def update_page_task_def by (auto intro!: calls_within_ask split: sum.split)
qed

lemma request_calls: "calls_within 3 (site_task zones ext static st cfg now pinged r w)"
proof -
  have once: "calls_within 3 (at_once f r' w')" for f r' w'
    by (rule calls_within_mono [of "Suc 0"]) (simp_all add: at_once_def)
  have login: "calls_within 3 (login_task h now r' w')" for h r' w'
    by (rule calls_within_mono [of "Suc (Suc 0)"])
      (auto simp: login_task_def Let_def split: sum.split password_error.split)
  have save: "calls_within 3 (save_task h now res upd n r' w')"
    if "upd = update_post_task st' \<or> upd = update_page_task st'" for h res upd st' n r' w'
    using that
    by (auto simp: save_task_def save_answer_def Let_def numeral_3_eq_3 intro!: update_calls split: prod.split option.split)
  have autosave: "calls_within 3 (autosave_task h now res upd r' w')"
    if "upd = update_post_task st' \<or> upd = update_page_task st'" for h res upd st' r' w'
    using that
    by (auto simp: autosave_task_def Let_def numeral_3_eq_3 intro!: calls_within_ask update_calls split: sum.split prod.split)
  have route: "calls_within 3 (route_task h static now rt r' w')" for h rt r' w'
    by (cases rt) (auto simp: route_task_def Let_def once login intro: save autosave)
  show ?thesis
    by (simp add: route site_task_def routes_task_def dispatch_task_def guard_task_def once split: option.split sum.split)
qed

text \<open>The calls alone: nothing arrives, and nothing changes from outside.\<close>

definition calls_only :: "('s, 'a) task list \<times> 's \<Rightarrow> ('s, 'a) task list \<times> 's \<Rightarrow> bool" where
  "calls_only = pool_step (\<lambda>_. False) (\<lambda>_ _. False)"

lemma calls_only_iff:
  "calls_only (ts, s) (ts', s') \<longleftrightarrow> (\<exists>i f t. i < length ts \<and> ts ! i = Call f \<and> f s = (t, s') \<and> ts' = ts[i := t])"
  by (auto simp: calls_only_def pool_step_iff)

lemma one_call_less:
  assumes "calls_only (ts, s) (ts', s')" and "list_all2 calls_within ns ts"
  shows "\<exists>ns'. list_all2 calls_within ns' ts' \<and> sum_list ns = Suc (sum_list ns')"
proof -
  from assms(1) obtain i f t where i: "i < length ts" "ts ! i = Call f" "f s = (t, s')" "ts' = ts[i := t]"
    by (auto simp: calls_only_iff)
  have len: "length ns = length ts" using assms(2) by (rule list_all2_lengthD)
  have "calls_within (ns ! i) (Call f)" using assms(2) i(1,2) len by (metis list_all2_nthD2)
  then obtain m where m: "ns ! i = Suc m" "\<forall>s. calls_within m (fst (f s))" by auto
  then have "calls_within m t" using i(3) by (metis fst_conv)
  with assms(2) i(4) have "list_all2 calls_within (ns[i := m]) ts'" by (simp add: list_all2_update_cong)
  moreover have "ns ! i \<le> sum_list ns" using i(1) len by (intro elem_le_sum_list) simp
  ultimately show ?thesis using m(1) i(1) len by (intro exI [of _ "ns[i := m]"]) (simp add: sum_list_update)
qed

lemma calls_bounded:
  assumes "(calls_only ^^ n) (ts, s) (ts', s')" and "list_all2 calls_within ns ts"
  shows "\<exists>ns'. list_all2 calls_within ns' ts' \<and> n + sum_list ns' = sum_list ns"
  using assms
proof (induction n arbitrary: ts' s')
  case (Suc n)
  then obtain us u where us: "(calls_only ^^ n) (ts, s) (us, u)" "calls_only (us, u) (ts', s')" by auto
  from Suc.IH [OF us(1) Suc.prems(2)] one_call_less [OF us(2)] show ?case by (metis add_Suc_right add_Suc)
qed auto




end
