(* ===== verification/Editorial_Facts.thy ===== *)
theory Editorial_Facts
  imports Service_Facts
begin

text \<open>
  What Admin is for, without HTTP, forms and rows: a set of posts and a set of pages, and the three things an
  Author can do to them. Whatever request the service handles does one of these, as it was asked to, or nothing.
\<close>

section \<open>The contract\<close>

datatype kind = APost | APage

type_synonym editorial = "kind \<Rightarrow> wrecord set"

text \<open>Nothing; a new record; a record in the place of one; new texts for one that is not published at an instant.\<close>

datatype edit = Nothing | Adding kind wrecord | Replacing kind wrecord | Redrafting kind go_time wrecord

inductive edits :: "edit \<Rightarrow> editorial \<Rightarrow> editorial \<Rightarrow> bool" where
  nothing: "edits Nothing S S"
| adding: "rec_id q \<notin> rec_id ` S k \<Longrightarrow> edits (Adding k q) S (S(k := insert q (S k)))"
| replacing: "rec_id q \<in> rec_id ` S k \<Longrightarrow> edits (Replacing k q) S (S(k := replaced rec_id q (S k)))"
| redrafting: "old \<in> S k \<Longrightarrow> rec_id q = rec_id old \<Longrightarrow> rec_published_at q = rec_published_at old \<Longrightarrow> \<not> published_by t old \<Longrightarrow>
    edits (Redrafting k t q) S (S(k := replaced rec_id q (S k)))"

inductive_simps edits_iff:
  "edits Nothing S S'" "edits (Adding k q) S S'" "edits (Replacing k q) S S'" "edits (Redrafting k t q) S S'"

text \<open>What a server holds, as the contract sees it.\<close>

definition editorial_of :: "('s \<Rightarrow> post set) \<Rightarrow> ('s \<Rightarrow> page set) \<Rightarrow> 's \<Rightarrow> editorial" where
  "editorial_of posts pages s k =
     (case k of APost \<Rightarrow> record_of_post ` posts s | APage \<Rightarrow> record_of_page ` pages s)"

text \<open>The record has the texts of the form, and its date or the moment of \<^verbatim>\<open>publish now\<close>.\<close>

definition typed_record :: "'s handler \<Rightarrow> readings \<Rightarrow> (go_time \<Rightarrow> go_time) \<Rightarrow> request \<Rightarrow> wrecord \<Rightarrow> bool" where
  "typed_record h now stored r q \<longleftrightarrow>
     retyped r q = q \<and>
     (\<exists>date. parse_published_at h (post_form_value r ''published_at'') = Inr date \<and>
        rec_published_at q = map_option stored (if publish_now r then Some (now AtPublishNow) else date))"

text \<open>The edit a route asks for, with the record its ID names.\<close>

definition asked_of :: "'s handler \<Rightarrow> readings \<Rightarrow> (go_time \<Rightarrow> go_time) \<Rightarrow> request \<Rightarrow> route \<Rightarrow> string \<Rightarrow> edit \<Rightarrow> bool" where
  "asked_of h now stored r rt i act =
     (case act of
        Nothing \<Rightarrow> True
      | Adding k q \<Rightarrow> rt = (case k of APost \<Rightarrow> CreatePost | APage \<Rightarrow> CreatePage) \<and> typed_record h now stored r q
      | Replacing k q \<Rightarrow>
          rt = (case k of APost \<Rightarrow> UpdatePost | APage \<Rightarrow> UpdatePage) \<and> typed_record h now stored r q \<and>
          ex_uuid_from_string (h_ext h) i = Some (rec_id q)
      | Redrafting k t q \<Rightarrow>
          rt = (case k of APost \<Rightarrow> AutosavePost | APage \<Rightarrow> AutosavePage) \<and> retyped r q = q \<and> t = now AtPublishedCheck \<and>
          ex_uuid_from_string (h_ext h) i = Some (rec_id q))"

text \<open>Nothing is done, or the edit that is asked for; a save that answers that it is done has done it.\<close>

definition does_as_asked ::
  "('s \<Rightarrow> post set) \<Rightarrow> ('s \<Rightarrow> page set) \<Rightarrow> (go_time \<Rightarrow> go_time) \<Rightarrow> 's handler \<Rightarrow> readings \<Rightarrow> request \<Rightarrow> route \<Rightarrow> string \<Rightarrow>
     page_response \<Rightarrow> 's server \<Rightarrow> 's server \<Rightarrow> bool" where
  "does_as_asked posts pages stored h now r rt i w sv sv' \<longleftrightarrow>
     (\<exists>act. edits act (editorial_of posts pages (sv_db sv)) (editorial_of posts pages (sv_db sv')) \<and>
        asked_of h now stored r rt i act \<and>
        (rt \<in> {CreatePost, UpdatePost, CreatePage, UpdatePage} \<and> status w \<in> {303, 204} \<longrightarrow> act \<noteq> Nothing))"

text \<open>A request of the Author that reaches a route behind the session.\<close>

definition reaches :: "'s handler \<Rightarrow> readings \<Rightarrow> config \<Rightarrow> request \<Rightarrow> route \<Rightarrow> string \<Rightarrow> bool" where
  "reaches h now cfg r rt i \<longleftrightarrow>
     admin_enabled (cfg_admin cfg) \<and> prefix ''/admin/'' (url_path r) \<and> find_route public_patterns r = None \<and>
     is_ok (sessions_verify (h_sessions h) (now AtVerify) r) \<and> find_route guarded_patterns r = Some (rt, i)"

lemma asked_of_path_id [simp]: "asked_of h now stored (r\<lparr>path_id := j\<rparr>) rt i act = asked_of h now stored r rt i act"
proof -
  have "post_form_value (r\<lparr>path_id := j\<rparr>) k = post_form_value r k" for k by (simp add: post_form_value_def has_form_method_def)
  then show ?thesis by (simp add: asked_of_def typed_record_def retyped_def publish_now_def cong: edit.case_cong kind.case_cong)
qed

text \<open>The records before and after a write of the typed record, as a new one or in the place of the one that is meant.\<close>

definition stores_typed ::
  "'s handler \<Rightarrow> readings \<Rightarrow> (go_time \<Rightarrow> go_time) \<Rightarrow> bool \<Rightarrow> request \<Rightarrow> wrecord set \<Rightarrow> wrecord set \<Rightarrow> bool" where
  "stores_typed h now stored is_new r R R' \<longleftrightarrow>
     (\<exists>q. typed_record h now stored r q \<and>
        (if is_new then rec_id q \<notin> rec_id ` R
         else ex_uuid_from_string (h_ext h) (path_id r) = Some (rec_id q) \<and> rec_id q \<in> rec_id ` R) \<and>
        R' = replaced rec_id q R)"

section \<open>The editor does what it is asked\<close>

context writing_resource
begin

lemma attempt_failed:
  assumes "ok s" and "attempt res n s rc = (Inl e, s')"
  shows "others s' = others s \<and> (records s' = records s \<or>
    (\<exists>q. same_record stored (rc\<lparr>rec_id := rec_id q\<rparr>) q \<and>
       (if n then rec_id q \<notin> rec_id ` records s else rec_id q = rec_id rc \<and> rec_id q \<in> rec_id ` records s) \<and>
       records s' = replaced rec_id q (records s)))"
proof (cases n)
  case True
  with create_failed [OF assms(1), of rc e s'] assms(2) have o: "others s' = others s"
    and "records s' = records s \<or> (\<exists>i q. i \<notin> rec_id ` records s \<and> same_record stored (rc\<lparr>rec_id := i\<rparr>) q \<and> records s' = insert q (records s))"
    by (auto simp: attempt_def)
  then consider "records s' = records s"
    | i q where "i \<notin> rec_id ` records s" "same_record stored (rc\<lparr>rec_id := i\<rparr>) q" "records s' = insert q (records s)"
    by blast
  then show ?thesis
  proof cases
    case (2 i q)
    moreover from this have "rec_id q = i" by (simp add: same_record_def)
    ultimately show ?thesis using True o replaced_fresh [of rec_id q "records s"] by auto
  qed (simp add: o)
next
  case False
  with assms(2) have u: "res_update res s rc True = (Inl e, s')"
    by (auto simp: attempt_def split: prod.splits sum.splits)
  from update_failed [OF assms(1) u] have o: "others s' = others s" by simp
  from update_failed [OF assms(1) u] consider "records s' = records s"
    | old q where "old \<in> records s" "rec_id old = rec_id rc" "same_record stored (written rc True old) q"
        "records s' = replaced rec_id q (records s)"
    by blast
  then show ?thesis
  proof cases
    case (2 old q)
    then have "same_record stored (rc\<lparr>rec_id := rec_id q\<rparr>) q" "rec_id q = rec_id rc" "rec_id q \<in> rec_id ` records s"
      by (auto simp: same_record_def written_def intro: image_eqI [where x = old])
    then have "same_record stored (rc\<lparr>rec_id := rec_id q\<rparr>) q \<and> rec_id q = rec_id rc \<and> rec_id q \<in> rec_id ` records s \<and>
        records s' = replaced rec_id q (records s)"
      using 2(4) by blast
    with False o show ?thesis by (metis (full_types))
  qed (simp add: o)
qed

lemma save_acts:
  assumes "ok (sv_db sv)"
  shows "others (sv_db (snd (save h now res n r w sv))) = others (sv_db sv) \<and>
    (records (sv_db (snd (save h now res n r w sv))) = records (sv_db sv) \<and> status (fst (save h now res n r w sv)) \<notin> {303, 204} \<or>
     stores_typed h now stored n r (records (sv_db sv)) (records (sv_db (snd (save h now res n r w sv)))))"
proof (cases "status (fst (save h now res n r w sv)) \<in> {303, 204}")
  case True
  from save_accepted [OF assms True, unfolded Let_def case_prod_beta] obtain i q date where
    q: "parse_published_at h (post_form_value r ''published_at'') = Inr date"
      "q = \<lparr>rec_id = i, rec_slug = post_form_value r ''slug'', rec_title = post_form_value r ''title'',
         rec_body = post_form_value r ''body'',
         rec_published_at = map_option stored (if publish_now r then Some (now AtPublishNow) else date)\<rparr>"
    and o: "others (sv_db (snd (save h now res n r w sv))) = others (sv_db sv)"
    and i: "if n then i \<notin> rec_id ` records (sv_db sv)
      else ex_uuid_from_string (h_ext h) (path_id r) = Some i \<and> i \<in> rec_id ` records (sv_db sv)"
    and recs: "records (sv_db (snd (save h now res n r w sv))) = replaced rec_id q (records (sv_db sv))"
    by (elim exE conjE) (rule that)
  have "typed_record h now stored r q \<and> rec_id q = i" using q by (simp add: typed_record_def retyped_def)
  then have "stores_typed h now stored n r (records (sv_db sv)) (records (sv_db (snd (save h now res n r w sv))))"
    unfolding stores_typed_def recs using i by (intro exI [of _ q]) simp
  then show ?thesis using o by simp
next
  case False
  show ?thesis
  proof (cases "parse_form_error r")
    case True
    then show ?thesis using False by (simp add: save_bad_form)
  next
    case parsed: False
    obtain f rc e where sub: "submitted h now r res n = (f, rc, e)" by (cases "submitted h now r res n")
    show ?thesis
    proof (cases e)
      case (Some err)
      then show ?thesis using sub by (simp add: save_bad_fields [OF parsed])
    next
      case None
      with sub have sub: "submitted h now r res n = (f, rc, None)" by simp
      obtain f' rc' where ch: "chosen h now r f rc = (f', rc')" by (cases "chosen h now r f rc")
      obtain result s' where at: "attempt res n (sv_db sv) rc' = (result, s')" by (cases "attempt res n (sv_db sv) rc'")
      note save = save_written [OF parsed sub ch at, of w]
      then obtain err where err: "result = Inl err" using False by (cases result) (auto split: if_splits)
      have s': "sv_db (snd (save h now res n r w sv)) = s'" using save err by (simp split: option.split)
      have typed: "typed_record h now stored r q \<and> (\<not> n \<longrightarrow> ex_uuid_from_string (h_ext h) (path_id r) = Some (rec_id rc'))"
        if "same_record stored (rc'\<lparr>rec_id := rec_id q\<rparr>) q" for q
        using that submitted_record [OF sub] ch
        by (cases q) (auto simp: same_record_def typed_record_def retyped_def chosen_def split: if_splits)
      have "stores_typed h now stored n r (records (sv_db sv)) (records s')"
        if "same_record stored (rc'\<lparr>rec_id := rec_id q\<rparr>) q" "records s' = replaced rec_id q (records (sv_db sv))"
          "if n then rec_id q \<notin> rec_id ` records (sv_db sv) else rec_id q = rec_id rc' \<and> rec_id q \<in> rec_id ` records (sv_db sv)" for q
        unfolding stores_typed_def using that typed [OF that(1)] by (intro exI [of _ q]) (cases n, auto intro: rev_image_eqI)
      with attempt_failed [OF assms at [unfolded err]] show ?thesis unfolding s' using False by blast
    qed
  qed
qed

end

context admin_store
begin

abbreviation held :: "'s server \<Rightarrow> editorial" where
  "held sv \<equiv> editorial_of posts pages (sv_db sv)"

lemma held_simps:
  "held sv APost = record_of_post ` posts (sv_db sv)" "held sv APage = record_of_page ` pages (sv_db sv)"
  by (simp_all add: editorial_of_def)

lemma held_post:
  "record_of_post ` posts (sv_db sv') = R \<Longrightarrow> pages (sv_db sv') = pages (sv_db sv) \<Longrightarrow> held sv' = (held sv)(APost := R)"
  by (auto simp: fun_eq_iff editorial_of_def split: kind.split)

lemma held_page:
  "record_of_page ` pages (sv_db sv') = R \<Longrightarrow> posts (sv_db sv') = posts (sv_db sv) \<Longrightarrow> held sv' = (held sv)(APage := R)"
  by (auto simp: fun_eq_iff editorial_of_def split: kind.split)

abbreviation as_asked :: "'s handler \<Rightarrow> readings \<Rightarrow> request \<Rightarrow> route \<Rightarrow> string \<Rightarrow> page_response \<Rightarrow> 's server \<Rightarrow> 's server \<Rightarrow> bool" where
  "as_asked \<equiv> does_as_asked posts pages stored"

lemma does_nothing:
  "held sv' = held sv \<Longrightarrow> rt \<notin> {CreatePost, UpdatePost, CreatePage, UpdatePage} \<or> status w \<notin> {303, 204} \<Longrightarrow>
     as_asked h now r rt i w sv sv'"
  unfolding does_as_asked_def by (intro exI [of _ Nothing]) (auto simp: edits_iff asked_of_def)

lemma save_does:
  assumes "ok (sv_db sv)" and "h_store h = st"
    and rt: "(rt, k, n) \<in> {(CreatePost, APost, True), (UpdatePost, APost, False), (CreatePage, APage, True), (UpdatePage, APage, False)}"
    and res: "res = (case k of APost \<Rightarrow> posts_resource st | APage \<Rightarrow> pages_resource st)"
    and run: "save h now res n r w sv = (w', sv')"
  shows "as_asked h now r rt (path_id r) w' sv sv'"
proof -
  have "held sv' = held sv \<and> status w' \<notin> {303, 204} \<or>
      (\<exists>R. stores_typed h now stored n r (held sv k) R \<and> held sv' = (held sv)(k := R))"
  proof (cases k)
    case APost
    then show ?thesis
      using post_res.save_acts [OF assms(1), of h now n r w] run res held_post [OF refl, of sv' sv] by (auto simp: held_simps fun_upd_idem)
  next
    case APage
    then show ?thesis
      using page_res.save_acts [OF assms(1), of h now n r w] run res held_page [OF refl, of sv' sv] by (auto simp: held_simps fun_upd_idem)
  qed
  then consider "held sv' = held sv" "status w' \<notin> {303, 204}"
    | R where "stores_typed h now stored n r (held sv k) R" "held sv' = (held sv)(k := R)"
    by blast
  then show ?thesis
  proof cases
    case (2 R)
    then obtain q where q: "typed_record h now stored r q" "held sv' = (held sv)(k := replaced rec_id q (held sv k))"
      and i: "if n then rec_id q \<notin> rec_id ` held sv k
         else ex_uuid_from_string (h_ext h) (path_id r) = Some (rec_id q) \<and> rec_id q \<in> rec_id ` held sv k"
      unfolding stores_typed_def by blast
    let ?act = "if n then Adding k q else Replacing k q"
    have "edits ?act (held sv) (held sv')" using q(2) i by (auto simp: edits_iff replaced_fresh)
    moreover have "asked_of h now stored r rt (path_id r) ?act" using rt q(1) i by (auto simp: asked_of_def)
    ultimately show ?thesis unfolding does_as_asked_def by (intro exI [of _ ?act]) simp
  qed (rule does_nothing, simp_all)
qed

lemma autosave_does:
  assumes "ok (sv_db sv)" and "h_store h = st" and rt: "(rt, k) \<in> {(AutosavePost, APost), (AutosavePage, APage)}"
    and res: "res = (case k of APost \<Rightarrow> posts_resource st | APage \<Rightarrow> pages_resource st)"
    and run: "autosave h now res r w sv = (w', sv')"
  shows "as_asked h now r rt (path_id r) w' sv sv'"
proof -
  let ?t = "now AtPublishedCheck"
  have "held sv' = held sv \<or>
      (\<exists>rc \<in> held sv k. ex_uuid_from_string (h_ext h) (path_id r) = Some (rec_id rc) \<and> \<not> published_by ?t rc \<and>
        held sv' = (held sv)(k := replaced rec_id (retyped r rc) (held sv k)))"
  proof (cases k)
    case APost
    then show ?thesis
      using post_res.autosave_effect [OF assms(1) run [unfolded res APost kind.case]] held_post [of sv' _ sv] 
      by (auto simp: held_simps fun_upd_idem)
  next
    case APage
    then show ?thesis
      using page_res.autosave_effect [OF assms(1) run [unfolded res APage kind.case]] held_page [of sv' _ sv]
      by (auto simp: held_simps fun_upd_idem)
  qed
  then show ?thesis
  proof (elim disjE bexE conjE)
    fix rc
    assume rc: "rc \<in> held sv k" "ex_uuid_from_string (h_ext h) (path_id r) = Some (rec_id rc)" "\<not> published_by ?t rc"
      "held sv' = (held sv)(k := replaced rec_id (retyped r rc) (held sv k))"
    have "edits (Redrafting k ?t (retyped r rc)) (held sv) (held sv')"
      using rc by (simp add: edits_iff) (auto simp: retyped_def)
    moreover have "asked_of h now stored r rt (path_id r) (Redrafting k ?t (retyped r rc))"
      using rt rc(2) by (auto simp: asked_of_def retyped_def)
    ultimately show ?thesis unfolding does_as_asked_def by (intro exI [of _ "Redrafting k ?t (retyped r rc)"]) simp
  qed (rule does_nothing, use rt in auto)
qed

lemma route_does:
  assumes "ok (sv_db sv)" and "h_store h = st" and "run_route h static now rt (r\<lparr>path_id := i\<rparr>) w sv = (w', sv')"
  shows "as_asked h now (r\<lparr>path_id := i\<rparr>) rt i w' sv sv'"
proof -
  let ?r = "r\<lparr>path_id := i\<rparr>"
  consider "rt \<in> {CreatePost, UpdatePost, CreatePage, UpdatePage}" | "rt \<in> {AutosavePost, AutosavePage}"
    | "rt \<notin> {CreatePost, UpdatePost, CreatePage, UpdatePage, AutosavePost, AutosavePage}" by blast
  then show ?thesis
  proof cases
    case 1
    note does = save_does [OF assms(1,2) _ refl, where r = ?r and w = w and w' = w' and sv' = sv' and now = now]
    from 1 show ?thesis
      using assms(2,3) does [of rt APost True] does [of rt APost False] does [of rt APage True] does [of rt APage False]
      by (auto simp: run_route_def)
  next
    case 2
    note does = autosave_does [OF assms(1,2) _ refl, where r = ?r and w = w and w' = w' and sv' = sv' and now = now]
    from 2 show ?thesis
      using assms(2,3) does [of rt APost] does [of rt APage]
      by (auto simp: run_route_def)
  next
    case 3
    then have "sv_db sv' = sv_db sv"
      using assms(3) login_leaves_store [of h now ?r w sv]
      by (cases rt) (auto simp: run_route_def login_form_handler_def serve_asset_def logout_def list_posts_def list_pages_def
          blank_def edit_def Let_def split: option.splits sum.splits prod.splits if_splits)
    then show ?thesis using 3 by (intro does_nothing) (simp_all add: editorial_of_def)
  qed
qed

end

section \<open>A request of the Author\<close>

text \<open>A request with a session that was opened a second before.\<close>

definition signed_in :: "request \<Rightarrow> request" where
  "signed_in r = r\<lparr>req_cookies := [(cookie_name, ck_value (sessions_issue (h_sessions sample_handler) 1000000000))]\<rparr>"

lemma signed_in_verifies: "is_ok (sessions_verify (h_sessions sample_handler) (sample_now AtVerify) (signed_in r))"
  by (simp add: sessions_verify_def sessions_issue_def sessions_open_sign representable_def unix_def signed_in_def sample_now_def
      sample_handler_def new_handler_def sample_config_def new_sessions_def whole_second_def)

definition autosaving :: request where
  "autosaving = (posted [] ''slug=draft&title=Retitled&body=text&published_at='')
     \<lparr>url_path := ''/admin/posts/3/autosave'', escaped_path := ''/admin/posts/3/autosave''\<rparr>"

lemma find_route_cookies [simp]: "find_route ps (r\<lparr>req_cookies := c\<rparr>) = find_route ps r"
proof -
  have "method_matches m (r\<lparr>req_cookies := c\<rparr>) = method_matches m r" for m by (simp add: method_matches_def)
  moreover have "path_segments (r\<lparr>req_cookies := c\<rparr>) = path_segments r" by (simp add: path_segments_def)
  ultimately show ?thesis unfolding find_route_def by presburger
qed

lemma autosaving_routes: "find_route guarded_patterns autosaving = Some (AutosavePost, ''3'')" "find_route public_patterns autosaving = None"
  by code_simp+

lemma autosaving_stored:
  "map r_title (db_posts (sv_db (snd (autosave sample_handler sample_now (posts_resource (h_store sample_handler))
     (autosaving\<lparr>req_cookies := c, path_id := ''3''\<rparr>) w sample_server)))) = [''Live'', ''50% Planned'', ''Retitled'']"
  by code_simp

abbreviation sample_site :: config where
  "sample_site \<equiv> sample_cfg\<lparr>cfg_admin := sample_config\<rparr>"

lemma sample_site_handler: "new_handler (content_store clock_v7 schema_conn) (\<lambda>_. None) sample_ext sample_config = sample_handler"
  by (simp add: sample_handler_def)

lemma autosaving_reaches: "reaches sample_handler sample_now sample_site (signed_in autosaving) AutosavePost ''3''"
proof -
  have "admin_enabled sample_config"
    by (simp add: admin_enabled_def secret_set_def sample_config_def encode_hash_nonempty)
  moreover have "find_route ps (signed_in autosaving) = find_route ps autosaving" for ps by (simp add: signed_in_def)
  moreover have "url_path (signed_in autosaving) = ''/admin/posts/3/autosave''" by (simp add: signed_in_def autosaving_def)
  ultimately show ?thesis by (simp add: reaches_def autosaving_routes signed_in_verifies)
qed

lemma autosaving_served:
  "\<exists>w. snd (site (\<lambda>_. None) sample_ext (\<lambda>_. None) (content_store clock_v7 schema_conn) sample_site sample_now None
        (signed_in autosaving) empty_response sample_server) =
     snd (autosave sample_handler sample_now (posts_resource (h_store sample_handler))
       ((signed_in autosaving)\<lparr>path_id := ''3''\<rparr>) w sample_server)"
  using autosaving_reaches
  by (auto simp: reaches_def site_def site_routes_def sample_site_handler routes_def secured_def dispatch_def
      require_session_def run_route_def split: sum.splits)

section \<open>The service keeps the contract\<close>

text \<open>
  C1: the service implements the contract. Whatever request it handles, the posts and pages it holds change
  by one edit of the contract or by nothing: by nothing unless the request carries a session of the Author,
  and by the edit its route asks for, of the record its address names, to the texts and the date that were
  typed, if it does. A save that answers that it succeeded has made its edit.
\<close>

theorem service_implements_the_contract:
  assumes "admin_store st ok posts pages stored" and "ok (sv_db sv)"
    and "site zones ext static st cfg now answered r empty_response sv = (w', sv')"
  shows "\<exists>act. edits act (editorial_of posts pages (sv_db sv)) (editorial_of posts pages (sv_db sv')) \<and>
    (let h = new_handler st zones ext (cfg_admin cfg)
     in (\<forall>rt i. reaches h now cfg r rt i \<longrightarrow> asked_of h now stored r rt i act \<and>
          (rt \<in> {CreatePost, UpdatePost, CreatePage, UpdatePage} \<and> status w' \<in> {303, 204} \<longrightarrow> act \<noteq> Nothing)) \<and>
        ((\<nexists>rt i. reaches h now cfg r rt i) \<longrightarrow> act = Nothing))"
proof -
  let ?h = "new_handler st zones ext (cfg_admin cfg)"
  have h: "h_store ?h = st" by (simp add: new_handler_def)
  show ?thesis
  proof (cases "\<exists>rt i. reaches ?h now cfg r rt i")
    case True
    then obtain rt i where rt: "reaches ?h now cfg r rt i" by blast
    then have "serve ?h static now r sv = (w', sv')"
      using assms(3) by (auto simp: reaches_def site_def site_routes_def serve_def)
    then have "run_route ?h static now rt (r\<lparr>path_id := i\<rparr>) secured_response sv = (w', sv')"
      using rt by (auto simp: reaches_def serve_split split: sum.splits)
    from admin_store.route_does [OF assms(1,2) h this] obtain act where
      act: "edits act (editorial_of posts pages (sv_db sv)) (editorial_of posts pages (sv_db sv'))"
        "asked_of ?h now stored r rt i act"
        "rt \<in> {CreatePost, UpdatePost, CreatePage, UpdatePage} \<and> status w' \<in> {303, 204} \<longrightarrow> act \<noteq> Nothing"
      unfolding does_as_asked_def asked_of_path_id by blast
    moreover have "(rt', i') = (rt, i)" if "reaches ?h now cfg r rt' i'" for rt' i' using that rt by (simp add: reaches_def)
    ultimately show ?thesis using rt unfolding Let_def by (intro exI [of _ act]) blast
  next
    case False
    have "snd (site zones ext static st cfg now answered r empty_response sv) = sv \<or>
        admin_enabled (cfg_admin cfg) \<and> prefix ''/admin/'' (url_path r) \<and>
        snd (site zones ext static st cfg now answered r empty_response sv) = snd (serve ?h static now r sv)"
      by (auto simp: site_def site_routes_def serve_def)
    moreover have "sv_db (snd (serve ?h static now r sv)) = sv_db sv" if "admin_enabled (cfg_admin cfg)" "prefix ''/admin/'' (url_path r)"
      using False that
      by (auto simp: public_leaves_store serve_split reaches_def no_route_def split: option.split sum.split list.split)
    ultimately have "sv_db sv' = sv_db sv" using assms(3) by auto
    then show ?thesis using False unfolding Let_def by (intro exI [of _ Nothing]) (auto simp: edits_iff editorial_of_def)
  qed
qed

lemma sets_differ: "x \<in> f ` A \<Longrightarrow> x \<notin> f ` B \<Longrightarrow> A \<noteq> B"
  by blast

lemma titles_of_posts: "schema_valid d \<Longrightarrow> rec_title ` record_of_post ` posts_in (schema_rows d) = r_title ` set (db_posts d)"
  by (simp add: schema_posts image_image db_table_def)

theorem service_implements_the_contract_witness:
  "let S = editorial_of (\<lambda>s. posts_in (schema_rows s)) (\<lambda>s. pages_in (schema_rows s));
       sv' = snd (site (\<lambda>_. None) sample_ext (\<lambda>_. None) (content_store clock_v7 schema_conn)
         (sample_cfg\<lparr>cfg_admin := sample_config\<rparr>) sample_now None (signed_in autosaving) empty_response sample_server)
   in \<exists>q. edits (Redrafting APost 2000000000 q) (S sample_db) (S (sv_db sv')) \<and> rec_id q = 3 \<and> rec_title q = ''Retitled''"
proof -
  let ?posts = "\<lambda>s. posts_in (schema_rows s)" and ?pages = "\<lambda>s. pages_in (schema_rows s)"
  let ?cfg = sample_site and ?st = "content_store clock_v7 schema_conn"
  let ?run = "site (\<lambda>_. None) sample_ext (\<lambda>_. None) ?st ?cfg sample_now None (signed_in autosaving) empty_response sample_server"
  have store: "admin_store ?st schema_valid ?posts ?pages micros" by (rule schema_admin_store) (rule clock_v7_ok)
  have valid: "schema_valid (sv_db sample_server)" by (simp add: sample_server_db sample_valid)
  have h: "new_handler ?st (\<lambda>_. None) sample_ext (cfg_admin ?cfg) = sample_handler" by (simp add: sample_handler_def)
  note autosaving_reaches
  moreover from service_implements_the_contract [OF store valid prod.collapse [symmetric], of "\<lambda>_. None" sample_ext "\<lambda>_. None" ?cfg sample_now None "signed_in autosaving"]
  obtain act where "edits act (editorial_of ?posts ?pages sample_db) (editorial_of ?posts ?pages (sv_db (snd ?run)))"
    and "reaches sample_handler sample_now ?cfg (signed_in autosaving) AutosavePost ''3'' \<Longrightarrow>
      asked_of sample_handler sample_now micros (signed_in autosaving) AutosavePost ''3'' act"
    unfolding h Let_def sample_server_db by blast
  ultimately have act: "edits act (editorial_of ?posts ?pages sample_db) (editorial_of ?posts ?pages (sv_db (snd ?run)))"
    "asked_of sample_handler sample_now micros (signed_in autosaving) AutosavePost ''3'' act" by blast+
  have changed: "editorial_of ?posts ?pages sample_db APost \<noteq> editorial_of ?posts ?pages (sv_db (snd ?run)) APost"
  proof -
    have "rec_title ` editorial_of ?posts ?pages sample_db APost = {''Live'', ''50% Planned'', ''Draft''}"
      using titles_of_posts [OF sample_valid] by (simp add: editorial_of_def sample_db_def sample_row_def)
    moreover have "schema_valid (sv_db (snd ?run))"
      using admin_store.site_kept [OF store valid _ refl, of ?cfg] started_limits [of sample_config sample_db]
      by (simp add: grown_def sample_server_def)
    then have "rec_title ` editorial_of ?posts ?pages (sv_db (snd ?run)) APost = r_title ` set (db_posts (sv_db (snd ?run)))"
      using titles_of_posts by (simp add: editorial_of_def)
    moreover obtain w where "snd ?run = snd (autosave sample_handler sample_now (posts_resource (h_store sample_handler))
        (autosaving\<lparr>req_cookies := req_cookies (signed_in autosaving), path_id := ''3''\<rparr>) w sample_server)"
      using autosaving_served by (auto simp: signed_in_def)
    then have "r_title ` set (db_posts (sv_db (snd ?run))) = {''Live'', ''50% Planned'', ''Retitled''}"
      using arg_cong [OF autosaving_stored [of "req_cookies (signed_in autosaving)" w], of set] by simp
    ultimately have "''Draft'' \<in> rec_title ` editorial_of ?posts ?pages sample_db APost"
      "''Draft'' \<notin> rec_title ` editorial_of ?posts ?pages (sv_db (snd ?run)) APost" by simp_all
    then show ?thesis by (rule sets_differ)
  qed
  have "post_form_value (signed_in autosaving) k = post_form_value autosaving k" for k
    by (simp add: signed_in_def post_form_value_def has_form_method_def)
  moreover have "post_form_value autosaving ''title'' = ''Retitled''" by code_simp
  ultimately have eval: "post_form_value (signed_in autosaving) ''title'' = ''Retitled''" by simp
  have id: "ex_uuid_from_string (h_ext sample_handler) ''3'' = Some 3" by code_simp
  obtain q where q: "act = Redrafting APost 2000000000 q" "retyped (signed_in autosaving) q = q" "rec_id q = 3"
    using act changed by (cases act) (auto simp: edits_iff asked_of_def id sample_now_def split: kind.splits)
  have "rec_title (retyped (signed_in autosaving) q) = ''Retitled''" by (simp add: retyped_def eval)
  with q(2) have "rec_title q = ''Retitled''" by simp
  then show ?thesis using act(1) q unfolding Let_def by blast
qed

end
