(* ===== verification/Publication_Facts.thy ===== *)
theory Publication_Facts
  imports Interleaving_Facts Editorial_Facts
begin

text \<open>
  What is published, when requests interleave: any number of autosaves, and any other requests but saves of
  what is already stored, leave every Publication Date and everything published as it is. A save that runs
  between the statements of an autosave is not safe from it.
\<close>

section \<open>Dates that are kept\<close>

definition dates_kept :: "go_time \<Rightarrow> wrecord set \<Rightarrow> wrecord set \<Rightarrow> bool" where
  "dates_kept t A B \<longleftrightarrow>
     (\<forall>rc \<in> A. \<exists>rc' \<in> B. rec_id rc' = rec_id rc \<and> rec_published_at rc' = rec_published_at rc \<and>
        (published_by t rc \<longrightarrow> rc' = rc))"

lemma dates_kept_refl: "dates_kept t A A" and dates_kept_insert: "dates_kept t A (insert x A)"
  by (auto simp: dates_kept_def)

lemma dates_kept_trans: "dates_kept t A B \<Longrightarrow> dates_kept t B C \<Longrightarrow> dates_kept t A C"
  unfolding dates_kept_def by (metis published_by_def)

lemma dates_kept_later:
  assumes "dates_kept t A B" and "rc \<in> A"
  obtains rc' where "rc' \<in> B" "rec_id rc' = rec_id rc" "rec_published_at rc' = rec_published_at rc"
  using assms unfolding dates_kept_def by blast

lemma dates_kept_replaced:
  assumes "old \<in> A" and "rec_id q = rec_id old" and "rec_published_at q = rec_published_at old" and "\<not> published_by t old"
    and "\<And>x y. x \<in> A \<Longrightarrow> y \<in> A \<Longrightarrow> rec_id x = rec_id y \<Longrightarrow> x = y"
  shows "dates_kept t A (replaced rec_id q A)"
  unfolding dates_kept_def
proof
  fix rc
  assume rc: "rc \<in> A"
  show "\<exists>rc' \<in> replaced rec_id q A. rec_id rc' = rec_id rc \<and> rec_published_at rc' = rec_published_at rc \<and>
      (published_by t rc \<longrightarrow> rc' = rc)"
  proof (cases "rec_id rc = rec_id q")
    case True
    then have "rc = old" using assms(1,2,5) rc by simp
    then show ?thesis using assms(2-4) by (auto simp: replaced_def)
  next
    case False
    then show ?thesis using rc by (auto simp: replaced_def)
  qed
qed

definition dates_rel ::
  "('s \<Rightarrow> bool) \<Rightarrow> ('s \<Rightarrow> post set) \<Rightarrow> ('s \<Rightarrow> page set) \<Rightarrow> go_time \<Rightarrow> 's server \<Rightarrow> 's server \<Rightarrow> bool" where
  "dates_rel ok posts pages t u v \<longleftrightarrow>
     (ok (sv_db u) \<longrightarrow>
        ok (sv_db v) \<and>
        dates_kept t (record_of_post ` posts (sv_db u)) (record_of_post ` posts (sv_db v)) \<and>
        dates_kept t (record_of_page ` pages (sv_db u)) (record_of_page ` pages (sv_db v)))"

interpretation dates: shared_invariant "dates_rel ok posts pages t" "\<lambda>sv. ok (sv_db sv)" for ok posts pages t
  by unfold_locales (auto simp: dates_rel_def dates_kept_refl elim: dates_kept_trans)

text \<open>A request that saves what is already stored.\<close>

definition saves_stored :: "request \<Rightarrow> bool" where
  "saves_stored r \<longleftrightarrow> (\<exists>i. find_route guarded_patterns r \<in> {Some (UpdatePost, i), Some (UpdatePage, i)})"

context admin_store
begin

abbreviation dates_kept_by :: "go_time \<Rightarrow> 's server \<Rightarrow> 's server \<Rightarrow> bool" where
  "dates_kept_by \<equiv> dates_rel ok posts pages"

lemma unchanged_dates: "sv_db v = sv_db u \<Longrightarrow> dates_kept_by t u v"
  by (simp add: dates_rel_def dates_kept_refl)

lemma post_write_dates:
  assumes "ok (sv_db v)" and "old \<in> record_of_post ` posts (sv_db v)" and "post_id p = rec_id old"
    and "post_published_at p = rec_published_at old" and "\<not> published_by t old"
  shows "dates_kept_by t v (snd (on_db (\<lambda>s. st_update_post st s p) v))"
proof -
  obtain x s' where w: "st_update_post st (sv_db v) p = (x, s')" by fastforce
  have id: "post_id p \<in> post_id ` posts (sv_db v)" using assms(2,3) by auto
  have "pages s' = pages (sv_db v) \<and> (posts s' = posts (sv_db v) \<or>
      (\<exists>q. same_post stored p q \<and> posts s' = replaced post_id q (posts (sv_db v))))"
    using post_updated [OF assms(1) id, of _ s'] post_update_failed [OF assms(1) id, of _ s'] w by (cases x) blast+
  moreover have "dates_kept t (record_of_post ` posts (sv_db v)) (record_of_post ` replaced post_id q (posts (sv_db v)))"
    if "same_post stored p q" for q
    unfolding post_replaced_records
  proof (rule dates_kept_replaced [OF assms(2)])
    show "rec_published_at (record_of_post q) = rec_published_at old"
      using that assms(2,4) post_dates [OF assms(1)] by (auto simp: same_post_def)
  qed (use that assms(1,3,5) post_res.unique in \<open>auto simp: same_post_def\<close>)
  moreover have "ok s'" using ok_writes [OF assms(1), of p] w by simp
  ultimately show ?thesis by (auto simp: dates_rel_def w dates_kept_refl)
qed

lemma page_write_dates:
  assumes "ok (sv_db v)" and "old \<in> record_of_page ` pages (sv_db v)" and "page_id g = rec_id old"
    and "page_published_at g = rec_published_at old" and "\<not> published_by t old"
  shows "dates_kept_by t v (snd (on_db (\<lambda>s. st_update_page st s g) v))"
proof -
  obtain x s' where w: "st_update_page st (sv_db v) g = (x, s')" by fastforce
  have id: "page_id g \<in> page_id ` pages (sv_db v)" using assms(2,3) by auto
  have "posts s' = posts (sv_db v) \<and> (pages s' = pages (sv_db v) \<or>
      (\<exists>q. same_page stored g q \<and> pages s' = replaced page_id q (pages (sv_db v))))"
    using page_updated [OF assms(1) id, of _ s'] page_update_failed [OF assms(1) id, of _ s'] w by (cases x) blast+
  moreover have "dates_kept t (record_of_page ` pages (sv_db v)) (record_of_page ` replaced page_id q (pages (sv_db v)))"
    if "same_page stored g q" for q
    unfolding page_replaced_records
  proof (rule dates_kept_replaced [OF assms(2)])
    show "rec_published_at (record_of_page q) = rec_published_at old"
      using that assms(2,4) page_dates [OF assms(1)] by (auto simp: same_page_def)
  qed (use that assms(1,3,5) page_res.unique in \<open>auto simp: same_page_def\<close>)
  moreover have "ok s'" using ok_writes [OF assms(1), of _ g] w by simp
  ultimately show ?thesis by (auto simp: dates_rel_def w dates_kept_refl)
qed

text \<open>
  The update of an autosave: what it was decided on is not published, and what is read again for the write,
  and the row the write replaces, have its date still.
\<close>

lemma update_post_dates:
  assumes "ok (sv_db sv)" and "rc0 \<in> record_of_post ` posts (sv_db sv)" and "rec_id rc0 = rec_id rc"
    and "\<not> published_by t rc0" and "\<And>x u. keeps_to (dates_kept_by t) (k x) u"
  shows "keeps_to (dates_kept_by t) (update_post_task st rc False k) sv"
  unfolding update_post_task_def
proof (rule dates.look_keeps)
  fix u
  assume u: "ok (sv_db u)" "dates_kept_by t sv u"
  show "keeps_to (dates_kept_by t) (case st_post_by_id st (sv_db u) (rec_id rc) Author of Inl e \<Rightarrow> k (Inl e)
      | Inr p \<Rightarrow> ask (on_db (\<lambda>s. st_update_post st s (write_post rc False p))) (\<lambda>x. k (written_or_not x))) u"
  proof (cases "st_post_by_id st (sv_db u) (rec_id rc) Author")
    case (Inl e)
    then show ?thesis using assms(5) by simp
  next
    case (Inr p)
    from post_found [OF u(1) this] have p: "p \<in> posts (sv_db u)" "post_id p = rec_id rc" by auto
    obtain rc1 where rc1: "rc1 \<in> record_of_post ` posts (sv_db u)" "rec_id rc1 = rec_id rc0"
        "rec_published_at rc1 = rec_published_at rc0"
      using dates_kept_later u(2) assms(1,2) unfolding dates_rel_def by metis
    have "rc1 = record_of_post p"
      by (rule post_res.unique [OF u(1) rc1(1)]) (use p rc1(2) assms(3) in auto)
    then have date: "post_published_at p = rec_published_at rc0" using rc1(3) by simp
    have "dates_kept_by t v (snd (on_db (\<lambda>s. st_update_post st s (write_post rc False p)) v))" if v: "dates_kept_by t u v" for v
    proof -
      obtain rc2 where rc2: "rc2 \<in> record_of_post ` posts (sv_db v)" "rec_id rc2 = rec_id (record_of_post p)"
          "rec_published_at rc2 = rec_published_at (record_of_post p)"
        using dates_kept_later v u(1) p(1) unfolding dates_rel_def by (metis imageI)
      have "ok (sv_db v)" using v u(1) by (simp add: dates_rel_def)
      moreover have "\<not> published_by t rc2" using assms(4) date rc2(3) by (simp add: published_by_def)
      ultimately show ?thesis
        using rc2 by (intro post_write_dates) (auto simp: write_post_def Let_def)
    qed
    then show ?thesis using Inr assms(5) by (simp add: keeps_to_ask)
  qed
qed (rule assms(1))

lemma update_page_dates:
  assumes "ok (sv_db sv)" and "rc0 \<in> record_of_page ` pages (sv_db sv)" and "rec_id rc0 = rec_id rc"
    and "\<not> published_by t rc0" and "\<And>x u. keeps_to (dates_kept_by t) (k x) u"
  shows "keeps_to (dates_kept_by t) (update_page_task st rc False k) sv"
  unfolding update_page_task_def
proof (rule dates.look_keeps)
  fix u
  assume u: "ok (sv_db u)" "dates_kept_by t sv u"
  show "keeps_to (dates_kept_by t) (case st_page_by_id st (sv_db u) (rec_id rc) Author of Inl e \<Rightarrow> k (Inl e)
      | Inr g \<Rightarrow> ask (on_db (\<lambda>s. st_update_page st s (write_page rc False g))) (\<lambda>x. k (written_or_not x))) u"
  proof (cases "st_page_by_id st (sv_db u) (rec_id rc) Author")
    case (Inl e)
    then show ?thesis using assms(5) by simp
  next
    case (Inr g)
    from page_found [OF u(1) this] have g: "g \<in> pages (sv_db u)" "page_id g = rec_id rc" by auto
    obtain rc1 where rc1: "rc1 \<in> record_of_page ` pages (sv_db u)" "rec_id rc1 = rec_id rc0"
        "rec_published_at rc1 = rec_published_at rc0"
      using dates_kept_later u(2) assms(1,2) unfolding dates_rel_def by metis
    have "rc1 = record_of_page g"
      by (rule page_res.unique [OF u(1) rc1(1)]) (use g rc1(2) assms(3) in auto)
    then have date: "page_published_at g = rec_published_at rc0" using rc1(3) by simp
    have "dates_kept_by t v (snd (on_db (\<lambda>s. st_update_page st s (write_page rc False g)) v))" if v: "dates_kept_by t u v" for v
    proof -
      obtain rc2 where rc2: "rc2 \<in> record_of_page ` pages (sv_db v)" "rec_id rc2 = rec_id (record_of_page g)"
          "rec_published_at rc2 = rec_published_at (record_of_page g)"
        using dates_kept_later v u(1) g(1) unfolding dates_rel_def by (metis imageI)
      have "ok (sv_db v)" using v u(1) by (simp add: dates_rel_def)
      moreover have "\<not> published_by t rc2" using assms(4) date rc2(3) by (simp add: published_by_def)
      ultimately show ?thesis
        using rc2 by (intro page_write_dates) (auto simp: write_page_def Let_def)
    qed
    then show ?thesis using Inr assms(5) by (simp add: keeps_to_ask)
  qed
qed (rule assms(1))

lemma create_dates:
  assumes "ok (sv_db v)"
  shows "dates_kept_by t v (snd (on_db (\<lambda>s. res_create (posts_resource st) s rc) v))"
    "dates_kept_by t v (snd (on_db (\<lambda>s. res_create (pages_resource st) s rc) v))"
proof -
  obtain x s' where c: "res_create (posts_resource st) (sv_db v) rc = (x, s')" by fastforce
  have "pages s' = pages (sv_db v) \<and> (record_of_post ` posts s' = record_of_post ` posts (sv_db v) \<or>
      (\<exists>q. record_of_post ` posts s' = insert q (record_of_post ` posts (sv_db v))))"
    by (rule post_res.create_adds [OF assms c])
  moreover have "ok s'" using post_res.ok_writes [OF assms, of rc] c by simp
  ultimately show "dates_kept_by t v (snd (on_db (\<lambda>s. res_create (posts_resource st) s rc) v))"
    by (elim conjE disjE exE) (simp_all add: dates_rel_def c dates_kept_refl dates_kept_insert)
next
  obtain x s' where c: "res_create (pages_resource st) (sv_db v) rc = (x, s')" by fastforce
  have "posts s' = posts (sv_db v) \<and> (record_of_page ` pages s' = record_of_page ` pages (sv_db v) \<or>
      (\<exists>q. record_of_page ` pages s' = insert q (record_of_page ` pages (sv_db v))))"
    by (rule page_res.create_adds [OF assms c])
  moreover have "ok s'" using page_res.ok_writes [OF assms, of rc] c by simp
  ultimately show "dates_kept_by t v (snd (on_db (\<lambda>s. res_create (pages_resource st) s rc) v))"
    by (elim conjE disjE exE) (simp_all add: dates_rel_def c dates_kept_refl dates_kept_insert)
qed

lemma ask_dates:
  assumes "ok (sv_db sv)" and "\<And>u. ok (sv_db u) \<Longrightarrow> dates_kept_by t u (snd (call u))"
    and "\<And>x u. ok (sv_db u) \<Longrightarrow> keeps_to (dates_kept_by t) (k x) u"
  shows "keeps_to (dates_kept_by t) (ask call k) sv"
  using assms by (intro dates.ask_keeps)

lemma look_dates:
  assumes "ok (sv_db sv)" and "\<And>u. ok (sv_db u) \<Longrightarrow> keeps_to (dates_kept_by t) (k (get u)) u"
  shows "keeps_to (dates_kept_by t) (look get k) sv"
  using assms by (intro dates.look_keeps)

lemma autosave_dates:
  assumes "ok (sv_db sv)" and "t \<le> now AtPublishedCheck"
    and res: "res = posts_resource st \<and> upd = update_post_task st \<or> res = pages_resource st \<and> upd = update_page_task st"
  shows "keeps_to (dates_kept_by t) (autosave_task h now res upd r w) sv"
proof -
  have upd: "keeps_to (dates_kept_by t) (upd (rc0\<lparr>rec_slug := a, rec_title := b, rec_body := c\<rparr>) False (\<lambda>x. Done (y x))) u"
    if u: "ok (sv_db u)" and rc0: "load h res r w (sv_db u) = Inr rc0"
      and draft: "\<not> (case rec_published_at rc0 of None \<Rightarrow> False | Some d \<Rightarrow> \<not> now AtPublishedCheck < d)"
    for u rc0 a b c y
  proof -
    from rc0 obtain i where i: "res_by_id res (sv_db u) i = Inr rc0"
      by (auto simp: load_def split: option.splits sum.splits)
    have "\<not> published_by t rc0" using draft assms(2) by (auto simp: published_by_def split: option.splits)
    then show ?thesis
      using res i post_res.found [OF u] page_res.found [OF u]
      by (auto intro!: update_post_dates [OF u, of rc0] update_page_dates [OF u, of rc0])
  qed
  show ?thesis
    using assms(1) unfolding autosave_task_def
    by (auto intro!: look_dates upd simp: Let_def split: sum.split prod.split)
qed

lemma unchanged_keeps:
  assumes "ok (sv_db sv)" and "\<And>u. sv_db (snd (f r w u)) = sv_db u"
  shows "keeps_to (dates_kept_by t) (at_once f r w) sv"
  using assms unfolding at_once_def by (intro ask_dates) (auto intro: unchanged_dates)

lemma login_dates:
  assumes "ok (sv_db sv)"
  shows "keeps_to (dates_kept_by t) (login_task h now r w) sv"
  using assms unfolding login_task_def Let_def
  by (auto intro!: ask_dates unchanged_dates simp: case_prod_unfold split: sum.split password_error.split)

lemma create_task_dates:
  assumes "ok (sv_db sv)" and "res \<in> {posts_resource st, pages_resource st}"
  shows "keeps_to (dates_kept_by t) (save_task h now res upd True r w) sv"
proof -
  have "keeps_to (dates_kept_by t) (ask (on_db (\<lambda>s. res_create res s rc)) (\<lambda>x. save_answer h res f x r w)) sv" for f rc
    using assms create_dates by (intro ask_dates) (auto simp: save_answer_def)
  then show ?thesis by (simp add: save_task_def Let_def split: prod.split option.split)
qed

lemma route_dates:
  assumes "ok (sv_db sv)" and "t \<le> now AtPublishedCheck" and "h_store h = st" and "rt \<notin> {UpdatePost, UpdatePage}"
  shows "keeps_to (dates_kept_by t) (route_task h static now rt r w) sv"
proof -
  have "keeps_to (dates_kept_by t) (at_once (run_route h static now rt) r w) sv"
    if "rt \<in> {LoginForm, StaticFile, LogoutPost, AdminIndex, ListPosts, NewPost, EditPost, ListPages, NewPage, EditPage}"
    using that
    by (intro unchanged_keeps [OF assms(1)])
      (auto simp: run_route_def login_form_handler_def serve_asset_def logout_def list_posts_def list_pages_def blank_def
        edit_def Let_def split: option.split sum.split prod.split)
  then show ?thesis
    using assms login_dates [OF assms(1)] create_task_dates [OF assms(1)] autosave_dates [where sv = sv and t = t and now = now and h = h and r = r and w = w]
    by (cases rt) (simp_all add: route_task_def Let_def)
qed

lemma site_dates:
  assumes "ok (sv_db sv)" and "t \<le> now AtPublishedCheck" and "\<not> saves_stored r"
  shows "keeps_to (dates_kept_by t) (site_task zones ext static st cfg now pinged r empty_response) sv"
proof -
  let ?h = "new_handler st zones ext (cfg_admin cfg)"
  have h: "h_store ?h = st" by (simp add: new_handler_def)
  have public: "rt \<notin> {UpdatePost, UpdatePage}" if "find_route public_patterns r = Some (rt, i)" for rt i
    using find_route_in [OF that] by (auto simp: public_patterns_def)
  have guarded: "rt \<notin> {UpdatePost, UpdatePage}" if "find_route guarded_patterns r = Some (rt, i)" for rt i
    using that assms(3) by (auto simp: saves_stored_def)
  have none: "keeps_to (dates_kept_by t) (at_once (no_route guarded_patterns) r w) sv" for w
    by (rule unchanged_keeps [OF assms(1)]) (simp add: no_route_def split: list.split)
  have "keeps_to (dates_kept_by t) (at_once (site zones ext static st cfg now pinged) r empty_response) sv"
    if "\<not> (admin_enabled (cfg_admin cfg) \<and> prefix ''/admin/'' (url_path r))"
    by (rule unchanged_keeps [OF assms(1)]) (use that in \<open>auto simp: site_def site_routes_def\<close>)
  then show ?thesis
    using route_dates [where sv = sv and t = t and now = now and h = ?h and static = static] assms(1,2) h public guarded none
    by (auto simp: site_task_def routes_task_def dispatch_task_def guard_task_def split: option.split sum.split)
qed

end

section \<open>Autosaves at the same time\<close>

text \<open>
  C9: any number of autosaves that are handled at the same time, of one record or of many, together with
  any other requests but saves of what is already stored: however their statements interleave, every post and
  page keeps its Publication Date, and what is published when the first of them looks keeps its slug,
  title and text too.
\<close>

theorem interleaved_autosaves_keep_dates:
  assumes "admin_store st ok posts pages stored" and "ok (sv_db sv)"
    and "\<And>u v. outside u v \<Longrightarrow> ok (sv_db u) \<Longrightarrow>
      ok (sv_db v) \<and> posts (sv_db v) = posts (sv_db u) \<and> pages (sv_db v) = pages (sv_db u)"
    and "pool_runs (requests zones ext static st cfg (\<lambda>r now. t \<le> now AtPublishedCheck \<and> \<not> saves_stored r)) outside
      ([], sv) (ts, sv')"
  shows "dates_kept t (record_of_post ` posts (sv_db sv)) (record_of_post ` posts (sv_db sv')) \<and>
    dates_kept t (record_of_page ` pages (sv_db sv)) (record_of_page ` pages (sv_db sv'))"
proof -
  let ?R = "dates_rel ok posts pages t"
  have "keeps_to ?R x u"
    if "requests zones ext static st cfg (\<lambda>r now. t \<le> now AtPublishedCheck \<and> \<not> saves_stored r) x" "?R sv u" for x u
    using that assms(2) admin_store.site_dates [OF assms(1)] by (auto simp: requests_def dates_rel_def)
  moreover have "?R u v" if "outside u v" for u v
    using assms(3) [OF that] by (auto simp: dates_rel_def dates_kept_refl)
  ultimately have "?R sv sv'" using dates.pool_keeps [OF assms(4)] by auto
  with assms(2) show ?thesis by (simp add: dates_rel_def)
qed

theorem interleaved_autosaves_keep_dates_witness:
  "let sv = snd (site (\<lambda>_. None) sample_ext (\<lambda>_. None) (content_store clock_v7 schema_conn)
       (sample_cfg\<lparr>cfg_admin := sample_config\<rparr>) sample_now None (signed_in autosaving) empty_response sample_server)
   in map r_title (db_posts (sv_db sv)) = [''Live'', ''50% Planned'', ''Retitled''] \<and>
      dates_kept 2000000000 (record_of_post ` posts_in (schema_rows sample_db))
        (record_of_post ` posts_in (schema_rows (sv_db sv)))"
proof -
  let ?cfg = "sample_cfg\<lparr>cfg_admin := sample_config\<rparr>" and ?st = "content_store clock_v7 schema_conn"
  let ?P = "\<lambda>r now. 2000000000 \<le> now AtPublishedCheck \<and> \<not> saves_stored r"
  let ?posts = "\<lambda>s. posts_in (schema_rows s)" and ?pages = "\<lambda>s. pages_in (schema_rows s)"
  let ?t = "site_task (\<lambda>_. None) sample_ext (\<lambda>_. None) ?st ?cfg sample_now None (signed_in autosaving) empty_response"
  have "\<not> saves_stored (signed_in autosaving)" by (simp add: saves_stored_def signed_in_def autosaving_routes)
  then have "requests (\<lambda>_. None) sample_ext (\<lambda>_. None) ?st ?cfg ?P ?t"
    unfolding requests_def by (intro exI [of _ sample_now] exI [of _ None] exI [of _ "signed_in autosaving"]) (simp add: sample_now_def)
  note run = pool_serves [of "requests (\<lambda>_. None) sample_ext (\<lambda>_. None) ?st ?cfg ?P" ?t elapses sample_server, OF this]
  have store: "admin_store ?st schema_valid ?posts ?pages micros"
    using sample_store by (simp add: sample_handler_def new_handler_def)
  have valid: "schema_valid (sv_db sample_server)" by (simp add: sample_valid sample_server_db)
  have passes: "schema_valid (sv_db v) \<and> ?posts (sv_db v) = ?posts (sv_db u) \<and> ?pages (sv_db v) = ?pages (sv_db u)"
    if "elapses u v" "schema_valid (sv_db u)" for u v
    using elapses_tables [OF that] by simp
  note kept = interleaved_autosaves_keep_dates [OF store valid passes run, THEN conjunct1]
  show ?thesis
    using kept autosaving_served by (auto simp: Let_def site_alone sample_server_db autosaving_stored signed_in_def)
qed

section \<open>A save between the statements of an autosave\<close>

text \<open>A pool whose tasks make their calls in a given order.\<close>

primrec run_schedule :: "nat list \<Rightarrow> ('s, 'a) task list \<times> 's \<Rightarrow> ('s, 'a) task list \<times> 's" where
  "run_schedule [] c = c"
| "run_schedule (i # is) c =
     run_schedule is
       (case c of (ts, s) \<Rightarrow>
          (case ts ! i of Done a \<Rightarrow> c | Call f \<Rightarrow> (case f s of (t, s') \<Rightarrow> (ts[i := t], s'))))"

lemma run_schedule_calls:
  "\<forall>i \<in> set is. i < length (fst c) \<Longrightarrow> calls_only\<^sup>*\<^sup>* c (run_schedule is c)"
proof (induction "is" arbitrary: c)
  case (Cons i "is")
  obtain ts s where c: "c = (ts, s)" by (cases c)
  show ?case
  proof (cases "ts ! i")
    case (Done a)
    then show ?thesis using Cons by (simp add: c)
  next
    case (Call f)
    obtain t s' where f: "f s = (t, s')" by fastforce
    have "calls_only c (ts[i := t], s')" using Cons.prems Call f by (auto simp: c calls_only_iff)
    moreover have "calls_only\<^sup>*\<^sup>* (ts[i := t], s') (run_schedule is (ts[i := t], s'))" using Cons by (simp add: c)
    ultimately show ?thesis using Call f by (simp add: c converse_rtranclp_into_rtranclp)
  qed
qed simp

definition answer_status :: "('s, page_response) task \<Rightarrow> nat option" where
  "answer_status t = (case t of Done w \<Rightarrow> Some (status w) | Call _ \<Rightarrow> None)"

text \<open>
  The Author publishes a draft while an autosave of it is under way: both answer that they succeeded, and the
  post is a draft again.
\<close>

definition racing :: "db conversation list" where
  "racing =
     [autosave_task sample_handler sample_now (posts_resource (h_store sample_handler)) (update_post_task (h_store sample_handler))
        (posted ''3'' ''slug=draft&title=Draft&body=text&published_at='') empty_response,
      save_task sample_handler sample_now (posts_resource (h_store sample_handler)) (update_post_task (h_store sample_handler)) False
        (posted ''3'' ''slug=draft&title=Draft&body=text&published_at=&action=publish_now'') empty_response]"

lemma autosave_undoes_publishing:
  "case run_schedule [0, 0, 1, 1, 0] (racing, sample_server) of
     (ts, sv) \<Rightarrow> map answer_status ts = [Some 200, Some 303] \<and> map r_published_at (db_posts (sv_db sv)) = [Some 1000000, Some 9000000000, None]"
  by code_simp

end
