(* ===== verification/Commands.thy ===== *)
theory Commands
  imports Cli
begin

text \<open>
  The command tree of \<^verbatim>\<open>internal/cli\<close>, as its constructors build it, and what running a command of it does.
  How cobra finds a command among the arguments, parses flags and prints help is left out: a command is named by
  its path, and the parsed value of \<^verbatim>\<open>--step\<close> is given.
\<close>

section \<open>The tree\<close>

datatype runs = Serve | ShowConfig | MigrateUp | MigrateDown | MigrateStatus | HashPassword | PrintVersion | ShowHelp

text \<open>A command: its name, its own flags, the flags it hands down, its \<^verbatim>\<open>RunE\<close>, if any, and its subcommands.\<close>

datatype command = Command
  (cmd_use: string) (cmd_flags: "string list") (cmd_persistent: "string list") (cmd_run: "runs option") (cmd_subs: "command list")

definition add_server_flags :: "command \<Rightarrow> command" where
  "add_server_flags c =
     Command (cmd_use c) (cmd_flags c @ [''port'', ''read-timeout'']) (cmd_persistent c) (cmd_run c) (cmd_subs c)"

definition new_serve_cmd :: command where
  "new_serve_cmd = add_server_flags (Command ''serve'' [] [] (Some Serve) [])"

definition new_config_show_cmd :: command where
  "new_config_show_cmd = add_server_flags (Command ''show'' [] [] (Some ShowConfig) [])"

definition new_config_cmd :: command where
  "new_config_cmd = Command ''config'' [] [] (Some ShowHelp) [new_config_show_cmd]"

definition new_migrate_up_cmd :: command where
  "new_migrate_up_cmd = Command ''up'' [] [] (Some MigrateUp) []"

definition new_migrate_down_cmd :: command where
  "new_migrate_down_cmd = Command ''down'' [''step''] [] (Some MigrateDown) []"

definition new_migrate_status_cmd :: command where
  "new_migrate_status_cmd = Command ''status'' [] [] (Some MigrateStatus) []"

definition new_migrate_cmd :: command where
  "new_migrate_cmd =
     Command ''migrate'' [] [] (Some ShowHelp) [new_migrate_up_cmd, new_migrate_down_cmd, new_migrate_status_cmd]"

definition new_hash_password_cmd :: command where
  "new_hash_password_cmd = Command ''hash-password'' [] [] (Some HashPassword) []"

definition new_admin_cmd :: command where
  "new_admin_cmd = Command ''admin'' [] [] None [new_hash_password_cmd]"

definition new_version_cmd :: command where
  "new_version_cmd = Command ''version'' [] [] (Some PrintVersion) []"

definition new_root_cmd :: command where
  "new_root_cmd =
     Command ''personal-web'' [] [''config'', ''log-level''] None
       [new_serve_cmd, new_config_cmd, new_migrate_cmd, new_admin_cmd, new_version_cmd]"

text \<open>The command at a path, with the flags it can look up: its own and those handed down to it.\<close>

fun command_at :: "string list \<Rightarrow> command \<Rightarrow> string list \<Rightarrow> (command \<times> string list) option" where
  "command_at inherited c [] = Some (c, inherited @ cmd_persistent c @ cmd_flags c)"
| "command_at inherited c (name # path) =
     (case find (\<lambda>s. cmd_use s = name) (cmd_subs c) of
        None \<Rightarrow> None
      | Some s \<Rightarrow> command_at (inherited @ cmd_persistent c) s path)"

section \<open>Running a command\<close>

text \<open>
  What the commands meet: viper's answers to \<^verbatim>\<open>BindPFlag\<close>, the order in which Go walks the bindings, what
  \<^verbatim>\<open>config.Load\<close> answers with some keys bound, the file it used; the database, its status table and what running the
  server comes back with; standard input, argon2id and the salt; the build and the printer of YAML; and \<^verbatim>\<open>--step\<close>.
\<close>

record world =
  wd_bind :: "string \<Rightarrow> string \<Rightarrow> string option"
  wd_order :: "(string \<times> string) list"
  wd_load :: "(string \<times> string) list \<Rightarrow> load_error + config"
  wd_used :: string
  wd_env :: migrate_env
  wd_table :: "string + string"
  wd_run :: "config \<Rightarrow> string option"
  wd_stdin :: stdin
  wd_idkey :: idkey
  wd_salt :: "unit + bytes"
  wd_build :: build_info
  wd_ip6 :: "string \<Rightarrow> bool"
  wd_yaml :: "yaml \<Rightarrow> string"
  wd_step :: int

definition printing :: "cli_error + string \<Rightarrow> cli_error option \<times> effect list" where
  "printing out = (case out of Inl e \<Rightarrow> (Some e, []) | Inr s \<Rightarrow> (None, [Printed s]))"

definition run_command :: "world \<Rightarrow> string list \<Rightarrow> runs \<Rightarrow> cli_error option \<times> effect list" where
  "run_command w flags act =
     (let resolved = app_config flags (wd_bind w) (wd_order w) (wd_load w)
      in case act of
        Serve \<Rightarrow> serve_command resolved (wd_env w) (wd_run w)
      | ShowConfig \<Rightarrow> printing (config_show_command resolved (wd_ip6 w) (wd_yaml w) (wd_used w))
      | MigrateUp \<Rightarrow> migrate_up_command resolved (wd_env w)
      | MigrateDown \<Rightarrow> migrate_down_command resolved (wd_env w) (wd_step w)
      | MigrateStatus \<Rightarrow> migrate_status_command resolved (wd_env w) (wd_table w)
      | HashPassword \<Rightarrow> printing (hash_password_command (wd_idkey w) (wd_salt w) (wd_stdin w))
      | PrintVersion \<Rightarrow> (None, [Printed (version_command (wd_build w))])
      | ShowHelp \<Rightarrow> (None, []))"

text \<open>A path that names no command has none; a command without \<^verbatim>\<open>RunE\<close> shows its help.\<close>

definition invoke :: "world \<Rightarrow> string list \<Rightarrow> (cli_error option \<times> effect list) option" where
  "invoke w path =
     map_option
       (\<lambda>(c, flags). run_command w flags (case cmd_run c of None \<Rightarrow> ShowHelp | Some act \<Rightarrow> act))
       (command_at [] new_root_cmd path)"

lemmas command_tree =
  new_root_cmd_def new_serve_cmd_def new_config_cmd_def new_config_show_cmd_def new_migrate_cmd_def new_migrate_up_cmd_def
  new_migrate_down_cmd_def new_migrate_status_cmd_def new_admin_cmd_def new_hash_password_cmd_def new_version_cmd_def
  add_server_flags_def

end
