(* ===== verification/Command_Facts.thy ===== *)
theory Command_Facts
  imports Commands Site_Facts
begin

text \<open>What each command may do, and that \<^verbatim>\<open>config show\<close> answers for \<^verbatim>\<open>serve\<close>.\<close>

section \<open>The paths of the tree\<close>

fun paths_of :: "command \<Rightarrow> (string list \<times> runs option) list" where
  "paths_of (Command u fs ps act subs) =
     ([], act) # concat (map (\<lambda>s. map (\<lambda>(path, a). (cmd_use s # path, a)) (paths_of s)) subs)"

lemma command_at_paths:
  "command_at inherited c path = Some (d, flags) \<Longrightarrow> (path, cmd_run d) \<in> set (paths_of c)"
proof (induction path arbitrary: inherited c)
  case Nil
  then have "d = c" by simp
  then show ?case by (cases c) simp
next
  case (Cons name path)
  then obtain s where s: "find (\<lambda>s. cmd_use s = name) (cmd_subs c) = Some s" "command_at (inherited @ cmd_persistent c) s path = Some (d, flags)"
    by (auto split: option.splits)
  then have "s \<in> set (cmd_subs c)" "cmd_use s = name" by (auto simp: find_Some_iff)
  then show ?case using Cons.IH [OF s(2)] by (cases c) force
qed

lemma root_paths:
  "paths_of new_root_cmd =
     [([], None), ([''serve''], Some Serve), ([''config''], Some ShowHelp), ([''config'', ''show''], Some ShowConfig),
      ([''migrate''], Some ShowHelp), ([''migrate'', ''up''], Some MigrateUp), ([''migrate'', ''down''], Some MigrateDown),
      ([''migrate'', ''status''], Some MigrateStatus), ([''admin''], None), ([''admin'', ''hash-password''], Some HashPassword),
      ([''version''], Some PrintVersion)]"
  by code_simp

lemma flags_at:
  "map_option snd (command_at [] new_root_cmd [''serve'']) = Some server_flags"
  "map_option snd (command_at [] new_root_cmd [''config'', ''show'']) = Some server_flags"
  "map_option snd (command_at [] new_root_cmd [''migrate'', ''up'']) = Some root_flags"
  by (simp_all add: command_tree server_flags_def root_flags_def)

section \<open>What a command may do\<close>

text \<open>The effects that are part of the command at a path, for a number of steps.\<close>

fun part_of :: "int \<Rightarrow> string list \<Rightarrow> effect \<Rightarrow> bool" where
  "part_of steps path (Serving cfg) \<longleftrightarrow> path = [''serve'']"
| "part_of steps path (OnDb RunUp) \<longleftrightarrow> path = [''migrate'', ''up'']"
| "part_of steps path (OnDb (RunDown n)) \<longleftrightarrow> path = [''migrate'', ''down''] \<and> n = steps \<and> 1 \<le> n"
| "part_of steps path (OnDb e) \<longleftrightarrow>
     path \<in> {[''serve''], [''migrate'', ''up''], [''migrate'', ''down''], [''migrate'', ''status'']}"
| "part_of steps path (Printed s) \<longleftrightarrow> True"

abbreviation gives_back :: "effect list \<Rightarrow> bool" where
  "gives_back es \<equiv> opened es = closed es"

lemma opened_closed_simps [simp]:
  "opened [] = 0" "closed [] = 0" "opened (es @ fs) = opened es + opened fs" "closed (es @ fs) = closed es + closed fs"
  "opened (e # es) = (if e = OnDb ConnOpen then 1 else 0) + opened es" "closed (e # es) = (if e = OnDb ConnClose then 1 else 0) + closed es"
  by (simp_all add: opened_def closed_def)

lemma opening_part:
  assumes "open_database env = (r, es)" and "path \<in> {[''serve''], [''migrate'', ''up''], [''migrate'', ''down''], [''migrate'', ''status'']}"
  shows "list_all (part_of steps path) (map OnDb es)"
    and "opened (map OnDb es) = closed (map OnDb es) + (if is_ok r then 1 else 0)"
  using assms(2) by (auto simp: open_database_effects [OF assms(1)] split: sum.split)

lemma with_database_part:
  assumes "with_database resolved env fn = (err, es)"
    and "path \<in> {[''serve''], [''migrate'', ''up''], [''migrate'', ''down''], [''migrate'', ''status'']}"
    and "\<And>cfg. list_all (part_of steps path) (snd (fn cfg)) \<and> gives_back (snd (fn cfg))"
  shows "list_all (part_of steps path) es \<and> gives_back es"
proof (cases resolved)
  case (Inl e)
  with assms(1) show ?thesis by (simp add: with_database_def)
next
  case (Inr cfg)
  obtain r fx where o: "open_database env = (r, fx)" by (cases "open_database env")
  obtain err' es' where fn: "fn cfg = (err', es')" by (cases "fn cfg")
  have "part_of steps path (OnDb ConnClose)" using assms(2) by auto
  with opening_part(1) [where steps = steps, OF o assms(2)] opening_part(2) [OF o assms(2)] assms(3) [of cfg] fn assms(1) Inr o show ?thesis
    by (cases r) (auto simp: with_database_def)
qed

lemma migrating_part:
  "list_all (part_of steps [''migrate'', ''up'']) (map OnDb (snd (migrate_up env))) \<and> gives_back (map OnDb (snd (migrate_up env)))"
  "1 \<le> steps \<Longrightarrow> list_all (part_of steps [''migrate'', ''down'']) (map OnDb (snd (migrate_down env steps))) \<and>
     gives_back (map OnDb (snd (migrate_down env steps)))"
  by (auto simp: migrate_up_def migrate_down_def lock_migrations_def unlock_effects_def split: prod.splits sum.splits option.splits if_splits)

text \<open>
  C29: each command does its own part and no more. Only \<^verbatim>\<open>migrate up\<close> applies migrations, only \<^verbatim>\<open>migrate down\<close>
  reverses them, as many as asked for and at least one; only \<^verbatim>\<open>serve\<close> serves; no other command so much as opens the
  database but \<^verbatim>\<open>migrate status\<close>; and whatever fails, every connection that was opened is closed.
\<close>

theorem commands_do_their_part:
  assumes "invoke w path = Some (err, es)"
  shows "list_all (part_of (wd_step w) path) es \<and> opened es = closed es"
proof -
  obtain c flags where c: "command_at [] new_root_cmd path = Some (c, flags)"
    and run: "run_command w flags (case cmd_run c of None \<Rightarrow> ShowHelp | Some act \<Rightarrow> act) = (err, es)"
    using assms by (auto simp: invoke_def)
  let ?resolved = "app_config flags (wd_bind w) (wd_order w) (wd_load w)"
  have printed: "list_all (part_of n path) es \<and> gives_back es" if "printing out = (err, es)" for out n
    using that by (auto simp: printing_def split: sum.splits)
  have "(path, cmd_run c) \<in> set (paths_of new_root_cmd)" by (rule command_at_paths [OF c])
  then consider "cmd_run c \<in> {None, Some ShowHelp, Some ShowConfig, Some HashPassword, Some PrintVersion}"
    | "path = [''serve'']" "cmd_run c = Some Serve" | "path = [''migrate'', ''up'']" "cmd_run c = Some MigrateUp"
    | "path = [''migrate'', ''down'']" "cmd_run c = Some MigrateDown" | "path = [''migrate'', ''status'']" "cmd_run c = Some MigrateStatus"
    unfolding root_paths set_simps insert_iff empty_iff prod.inject by (elim disjE conjE FalseE) simp_all
  then show ?thesis
  proof cases
    case 1
    then show ?thesis using run by (auto simp: run_command_def Let_def dest!: printed [where n = "wd_step w"])
  next
    case 2
    obtain r fx where o: "open_database (wd_env w) = (r, fx)" by (cases "open_database (wd_env w)")
    show ?thesis
      using 2 run o opening_part(1) [where steps = "wd_step w" and path = path, OF o] opening_part(2) [where path = path, OF o]
      by (auto simp: run_command_def serve_command_def split: sum.splits option.splits)
  next
    case 3
    then have "with_database ?resolved (wd_env w) (\<lambda>cfg. case migrate_up (wd_env w) of (e, es) \<Rightarrow> (map_option Db e, map OnDb es)) = (err, es)"
      using run by (simp add: run_command_def migrate_up_command_def)
    then show ?thesis
      by (rule with_database_part) (simp_all add: 3(1) migrating_part case_prod_beta)
  next
    case 4
    show ?thesis
    proof (cases "wd_step w < 1")
      case True
      then show ?thesis using 4 run by (auto simp: run_command_def migrate_down_command_def)
    next
      case False
      then have "with_database ?resolved (wd_env w)
          (\<lambda>cfg. case migrate_down (wd_env w) (wd_step w) of (e, es) \<Rightarrow> (map_option Db e, map OnDb es)) = (err, es)"
        using 4 run by (simp add: run_command_def migrate_down_command_def)
      then show ?thesis
        by (rule with_database_part) (use False in \<open>simp_all add: 4(1) migrating_part case_prod_beta\<close>)
    qed
  next
    case 5
    then have "with_database ?resolved (wd_env w)
        (\<lambda>cfg. case migrate_status (wd_env w) (wd_table w) of Inl e \<Rightarrow> (Some (Db e), []) | Inr out \<Rightarrow> (None, [Printed out])) = (err, es)"
      using run by (simp add: run_command_def migrate_status_command_def)
    then show ?thesis
      by (rule with_database_part) (simp_all add: 5(1) split: sum.split)
  qed
qed

definition sample_world :: world where
  "sample_world =
     \<lparr>wd_bind = (\<lambda>_ _. None), wd_order = flag_bindings, wd_load = (\<lambda>_. Inr sample_cfg), wd_used = [], wd_env = sample_env,
      wd_table = Inr ''status'', wd_run = (\<lambda>_. None), wd_stdin = Pipe [] ''EOF'', wd_idkey = sample_idkey, wd_salt = Inr ''salt'',
      wd_build = new_build_info [] None, wd_ip6 = (\<lambda>_. False), wd_yaml = (\<lambda>_. ''...''), wd_step = 1\<rparr>"

theorem commands_do_their_part_witness:
  "\<exists>es. invoke sample_world [''migrate'', ''down''] = Some (None, es) \<and> OnDb (RunDown 1) \<in> set es \<and>
     list_all (part_of 1 [''migrate'', ''down'']) es \<and> opened es = closed es"
proof -
  let ?es = "[OnDb ConnOpen, OnDb LockDbOpen, OnDb SessionOpen, OnDb Lock, OnDb (RunDown 1), OnDb Unlock, OnDb SessionClose,
    OnDb LockDbClose, OnDb ConnClose]"
  have run: "invoke sample_world [''migrate'', ''down''] = Some (None, ?es)" by code_simp
  have "wd_step sample_world = 1" by (simp add: sample_world_def)
  then show ?thesis using commands_do_their_part [OF run] run by (intro exI [of _ ?es]) simp
qed

section \<open>A dry run\<close>

lemma invoke_at:
  "map_option (\<lambda>(c, flags). (cmd_run c, flags)) (command_at [] new_root_cmd path) = Some (Some act, flags) \<Longrightarrow>
     invoke w path = Some (run_command w flags act)"
  by (auto simp: invoke_def)

lemma serve_and_show:
  "invoke w [''serve''] = Some (run_command w server_flags Serve)"
  "invoke w [''config'', ''show''] = Some (run_command w server_flags ShowConfig)"
  by (rule invoke_at, simp add: command_tree server_flags_def root_flags_def)+

text \<open>
  C33: \<^verbatim>\<open>config show\<close> answers what \<^verbatim>\<open>serve\<close> would run with, given the same flags: it fails exactly as \<^verbatim>\<open>serve\<close>
  does before that has opened anything, or prints the one configuration that \<^verbatim>\<open>serve\<close> can come to serve.
\<close>

theorem config_show_is_a_dry_run:
  "case invoke w [''config'', ''show''] of
     Some (None, es) \<Rightarrow>
       \<exists>cfg header err es'. es = [Printed (header @ wd_yaml w (config_yaml (wd_ip6 w) cfg))] \<and>
         invoke w [''serve''] = Some (err, es') \<and> {c. Serving c \<in> set es'} \<subseteq> {cfg}
   | Some (Some e, es) \<Rightarrow> es = [] \<and> invoke w [''serve''] = Some (Some e, [])
   | None \<Rightarrow> False"
proof (cases "app_config server_flags (wd_bind w) (wd_order w) (wd_load w)")
  case (Inl e)
  then show ?thesis
    by (simp add: serve_and_show run_command_def printing_def config_show_command_def serve_command_def)
next
  case (Inr cfg)
  obtain err es where s: "serve_command (Inr cfg) (wd_env w) (wd_run w) = (err, es)" by fastforce
  then have "{c. Serving c \<in> set es} \<subseteq> {cfg}"
    by (auto simp: serve_command_def split: prod.splits sum.splits option.splits)
  moreover obtain header where "config_show_command (Inr cfg) (wd_ip6 w) (wd_yaml w) (wd_used w) =
      Inr (header @ wd_yaml w (config_yaml (wd_ip6 w) cfg))"
    by (cases "wd_used w = []") (simp_all only: config_show_command_def sum.case if_True if_False simp_thms flip: append_assoc)
  ultimately show ?thesis
    using Inr s by (auto simp: serve_and_show run_command_def printing_def)
qed

end
